(* ===== verification/Prelude.thy ===== *)
theory Prelude
  imports Main "HOL-Library.Product_Lexorder" "HOL-Library.Char_ord" "HOL-Library.List_Lexorder"
    "HOL-Library.Multiset"
begin

text \<open>
  The prelude of the Herald development: the types every component shares (identifiers,
  instants, 64-bit amounts, the result type of fallible code), Rust's \<open>?\<close> operator and
  its \<open>for\<close> loops over fallible bodies, decimal formatting as \<open>format!\<close> prints it,
  and the list lemmas the table models use.  Nothing here maps to one source file; the
  library functions of Rust that the sources call (\<open>checked_add\<close>, \<open>to_lowercase\<close>,
  \<open>unwrap_or\<close>, \<open>Iterator::min\<close>) are written out.
\<close>

section \<open>Shared types\<close>

text \<open>
  A UUID is a 128-bit number compared byte by byte, so a natural number with its order.
  An instant is a number of microseconds, the resolution of a \<open>timestamptz\<close> column.
  Rust strings are \<open>string\<close>s; the sources only compare, concatenate and lower-case them.
\<close>

type_synonym uuid = nat
type_synonym instant = int
type_synonym i64 = int
type_synonym ('e, 'a) result = "'e + 'a"

named_theorems result_simps \<open>rewriting of the result type's operators\<close>
named_theorems table_simps \<open>effect of a table operation on the other tables and columns\<close>

section \<open>64-bit signed integers\<close>

definition i64_min :: i64 where
  "i64_min = - (2 ^ 63)"

definition i64_max :: i64 where
  "i64_max = 2 ^ 63 - 1"

definition in_i64 :: "int \<Rightarrow> bool" where
  "in_i64 n \<longleftrightarrow> i64_min \<le> n \<and> n \<le> i64_max"

definition wrap_i64 :: "int \<Rightarrow> i64" where
  "wrap_i64 n = (n + 2 ^ 63) mod 2 ^ 64 - 2 ^ 63"

definition checked_add :: "i64 \<Rightarrow> i64 \<Rightarrow> i64 option" where
  "checked_add a b = (if in_i64 (a + b) then Some (a + b) else None)"

definition checked_mul :: "i64 \<Rightarrow> i64 \<Rightarrow> i64 option" where
  "checked_mul a b = (if in_i64 (a * b) then Some (a * b) else None)"

lemmas i64_bounds = i64_min_def i64_max_def in_i64_def

lemma wrap_i64_in_range: "in_i64 (wrap_i64 n)"
  by (simp add: i64_bounds wrap_i64_def)

lemma wrap_i64_id: "in_i64 n \<Longrightarrow> wrap_i64 n = n"
  by (simp add: i64_bounds wrap_i64_def)

lemma wrap_i64_eq_iff: "wrap_i64 n = n \<longleftrightarrow> in_i64 n"
  using wrap_i64_in_range[of n] wrap_i64_id[of n] by auto

text \<open>Durations in microseconds.\<close>

definition secs :: "int \<Rightarrow> int" where
  "secs n = n * 1000000"

definition days :: "int \<Rightarrow> int" where
  "days n = secs (n * 86400)"

lemma secs_mono: "m \<le> n \<Longrightarrow> secs m \<le> secs n"
  by (simp add: secs_def)

lemma secs_pos [simp]: "0 < secs n \<longleftrightarrow> 0 < n"
  by (simp add: secs_def zero_less_mult_iff)

lemma days_pos [simp]: "0 < days n \<longleftrightarrow> 0 < n"
  by (simp add: days_def)

section \<open>Fallible code\<close>

text \<open>Rust's \<open>?\<close>: stop at an error, pass the value on otherwise.\<close>

fun and_then :: "('e, 'a) result \<Rightarrow> ('a \<Rightarrow> ('e, 'b) result) \<Rightarrow> ('e, 'b) result" where
  "and_then (Inl e) f = Inl e"
| "and_then (Inr x) f = f x"

definition ok_or :: "'a option \<Rightarrow> 'e \<Rightarrow> ('e, 'a) result" where
  "ok_or o' e = (case o' of None \<Rightarrow> Inl e | Some x \<Rightarrow> Inr x)"

definition ensure :: "bool \<Rightarrow> 'e \<Rightarrow> ('e, unit) result" where
  "ensure b e = (if b then Inr () else Inl e)"

text \<open>A \<open>for\<close> loop whose body may return early with an error.\<close>

fun try_fold :: "('s \<Rightarrow> 'a \<Rightarrow> ('e, 's) result) \<Rightarrow> 's \<Rightarrow> 'a list \<Rightarrow> ('e, 's) result" where
  "try_fold f s [] = Inr s"
| "try_fold f s (x # xs) = and_then (f s x) (\<lambda>s'. try_fold f s' xs)"

lemma and_then_Inr_iff [result_simps]:
  "and_then m f = Inr y \<longleftrightarrow> (\<exists>x. m = Inr x \<and> f x = Inr y)"
  by (cases m) auto

lemma and_then_Inl_iff [result_simps]:
  "and_then m f = Inl e \<longleftrightarrow> m = Inl e \<or> (\<exists>x. m = Inr x \<and> f x = Inl e)"
  by (cases m) auto

lemma and_then_InrE:
  assumes "and_then m f = Inr y"
  obtains x where "m = Inr x" "f x = Inr y"
  using assms by (auto simp: and_then_Inr_iff)

lemma and_then_cong [fundef_cong]:
  "m = m' \<Longrightarrow> (\<And>x. m' = Inr x \<Longrightarrow> f x = f' x) \<Longrightarrow> and_then m f = and_then m' f'"
  by (cases m') auto

lemma and_then_assoc: "and_then (and_then m f) g = and_then m (\<lambda>x. and_then (f x) g)"
  by (cases m) auto

lemma ok_or_simps [simp]: "ok_or None e = Inl e" "ok_or (Some x) e = Inr x"
  by (simp_all add: ok_or_def)

lemma ok_or_Inr_iff [result_simps]: "ok_or o' e = Inr x \<longleftrightarrow> o' = Some x"
  by (cases o') auto

lemma ensure_Inr_iff [result_simps]: "ensure b e = Inr u \<longleftrightarrow> b"
  by (simp add: ensure_def)

lemma ensure_Inl_iff [result_simps]: "ensure b e = Inl e' \<longleftrightarrow> \<not> b \<and> e' = e"
  by (auto simp: ensure_def)

lemma try_fold_append:
  "try_fold f s (xs @ ys) = and_then (try_fold f s xs) (\<lambda>s'. try_fold f s' ys)"
  by (induction xs arbitrary: s) (simp_all add: and_then_assoc)

text \<open>The loop rule: an invariant of the body is an invariant of the loop.\<close>

lemma try_fold_invariant:
  assumes "try_fold f s xs = Inr s'" and "P s"
    and "\<And>s x s'. x \<in> set xs \<Longrightarrow> P s \<Longrightarrow> f s x = Inr s' \<Longrightarrow> P s'"
  shows "P s'"
  using assms
proof (induction xs arbitrary: s)
  case Nil
  then show ?case by simp
next
  case (Cons x xs)
  from Cons.prems(1) obtain t where t: "f s x = Inr t" "try_fold f t xs = Inr s'"
    by (auto elim: and_then_InrE)
  have "P t"
    by (rule Cons.prems(3)[OF _ Cons.prems(2) t(1)]) simp
  from Cons.IH[OF t(2) this] show ?case
    using Cons.prems(3) by (meson list.set_intros(2))
qed

text \<open>A loop whose body cannot fail on the states the invariant describes returns.\<close>

lemma try_fold_total:
  assumes "P s"
    and "\<And>s x. x \<in> set xs \<Longrightarrow> P s \<Longrightarrow> \<exists>s'. f s x = Inr s' \<and> P s'"
  shows "\<exists>s'. try_fold f s xs = Inr s' \<and> P s'"
  using assms
proof (induction xs arbitrary: s)
  case Nil
  then show ?case by simp
next
  case (Cons x xs)
  from Cons.prems(2)[of x s] Cons.prems(1) obtain t where t: "f s x = Inr t" "P t"
    by auto
  have "\<exists>s'. try_fold f t xs = Inr s' \<and> P s'"
    using t(2) by (rule Cons.IH) (use Cons.prems(2) in auto)
  with t(1) show ?case by simp
qed

text \<open>\<open>iter().map(f).collect::<Result<Vec<_>, _>>()\<close>.\<close>

fun collect_results :: "('a \<Rightarrow> ('e, 'b) result) \<Rightarrow> 'a list \<Rightarrow> ('e, 'b list) result" where
  "collect_results f [] = Inr []"
| "collect_results f (x # xs) = and_then (f x) (\<lambda>y. and_then (collect_results f xs) (\<lambda>ys. Inr (y # ys)))"

lemma collect_results_Inr_iff:
  "collect_results f xs = Inr ys \<longleftrightarrow> list_all2 (\<lambda>x y. f x = Inr y) xs ys"
  by (induction xs arbitrary: ys) (auto simp: and_then_Inr_iff list_all2_Cons1)

section \<open>Decimal formatting\<close>

text \<open>\<open>format!("{}", n)\<close> of an integer.\<close>

definition digit_char :: "nat \<Rightarrow> char" where
  "digit_char d = char_of (48 + d)"

fun show_nat :: "nat \<Rightarrow> string" where
  "show_nat n = (if n < 10 then [digit_char n] else show_nat (n div 10) @ [digit_char (n mod 10)])"

declare show_nat.simps [simp del]

definition show_int :: "int \<Rightarrow> string" where
  "show_int n = (if n < 0 then CHR ''-'' # show_nat (nat (- n)) else show_nat (nat n))"

definition read_digits :: "string \<Rightarrow> nat" where
  "read_digits s = foldl (\<lambda>n c. 10 * n + (of_char c - 48)) 0 s"

lemma digit_char_value [simp]: "d < 10 \<Longrightarrow> (of_char (digit_char d) :: nat) - 48 = d"
  by (simp add: digit_char_def)

lemma read_digits_snoc: "read_digits (s @ [c]) = 10 * read_digits s + (of_char c - 48)"
  by (simp add: read_digits_def)

lemma read_show_nat: "read_digits (show_nat n) = n"
proof (induction n rule: show_nat.induct)
  case (1 n)
  show ?case
  proof (cases "n < 10")
    case True
    then show ?thesis
      by (simp add: show_nat.simps[of n] read_digits_def)
  next
    case False
    with 1 have "read_digits (show_nat (n div 10)) = n div 10" by simp
    with False show ?thesis
      by (simp add: show_nat.simps[of n] read_digits_snoc)
  qed
qed

lemma show_nat_inject [simp]: "show_nat m = show_nat n \<longleftrightarrow> m = n"
  by (metis read_show_nat)

lemma show_nat_digits: "c \<in> set (show_nat n) \<Longrightarrow> \<exists>d<10. c = digit_char d"
proof (induction n rule: show_nat.induct)
  case (1 n)
  then show ?case
    by (cases "n < 10") (auto simp: show_nat.simps[of n] intro: exI[of _ "n mod 10"])
qed

lemma of_digit_char: "d < 10 \<Longrightarrow> (of_char (digit_char d) :: nat) = 48 + d"
  by (simp add: digit_char_def)

lemma show_nat_char_range: "c \<in> set (show_nat n) \<Longrightarrow> 48 \<le> (of_char c :: nat) \<and> (of_char c :: nat) < 58"
  by (auto dest!: show_nat_digits simp: of_digit_char)

lemma show_nat_no_sign: "CHR ''-'' \<notin> set (show_nat n)"
  by (auto dest: show_nat_char_range)

lemma show_nat_no_colon: "CHR '':'' \<notin> set (show_nat n)"
  by (auto dest: show_nat_char_range)

lemma show_nat_nonempty [simp]: "show_nat n \<noteq> []"
  by (simp add: show_nat.simps[of n])

lemma show_int_inject [simp]: "show_int m = show_int n \<longleftrightarrow> m = n"
proof -
  have "CHR ''-'' # show_nat a \<noteq> show_nat b" "show_nat b \<noteq> CHR ''-'' # show_nat a" for a b
    by (metis list.set_intros(1) show_nat_no_sign)+
  then show ?thesis
    unfolding show_int_def by (auto simp: nat_eq_iff)
qed

section \<open>Strings\<close>

text \<open>\<open>str::to_lowercase\<close> on ASCII text.\<close>

definition lower_char :: "char \<Rightarrow> char" where
  "lower_char c = (let n = (of_char c :: nat) in if 65 \<le> n \<and> n \<le> 90 then char_of (n + 32) else c)"

definition to_lowercase :: "string \<Rightarrow> string" where
  "to_lowercase s = map lower_char s"

definition upper_char :: "char \<Rightarrow> char" where
  "upper_char c = (let n = (of_char c :: nat) in if 97 \<le> n \<and> n \<le> 122 then char_of (n - 32) else c)"

definition to_uppercase :: "string \<Rightarrow> string" where
  "to_uppercase s = map upper_char s"

lemma to_lowercase_simps [simp]:
  "to_lowercase [] = []" "to_lowercase (c # s) = lower_char c # to_lowercase s"
  by (simp_all add: to_lowercase_def)

lemma lower_char_idem [simp]: "lower_char (lower_char c) = lower_char c"
  by (simp add: lower_char_def Let_def)

lemma to_lowercase_idem [simp]: "to_lowercase (to_lowercase s) = to_lowercase s"
  by (induction s) auto

text \<open>
  The contract of an enum with a wire form: \<open>as_str\<close> prints lower-case text and
  \<open>from_str\<close> lower-cases its input, then matches it against the printed forms.
\<close>

locale string_enum =
  fixes as_str :: "'a \<Rightarrow> string" and from_str :: "string \<Rightarrow> ('e, 'a) result"
  assumes as_str_lower: "to_lowercase (as_str x) = as_str x"
    and from_as: "from_str (as_str x) = Inr x"
    and from_lower: "from_str (to_lowercase s) = from_str s"
    and from_sound: "from_str s = Inr x \<Longrightarrow> to_lowercase s = as_str x"
begin

lemma as_str_inject: "as_str x = as_str y \<longleftrightarrow> x = y"
  by (metis Inr_inject from_as)

lemma from_str_iff: "from_str s = Inr x \<longleftrightarrow> to_lowercase s = as_str x"
  by (metis from_as from_lower from_sound)

lemma from_str_error_iff: "(\<exists>e. from_str s = Inl e) \<longleftrightarrow> to_lowercase s \<notin> range as_str"
proof
  assume "\<exists>e. from_str s = Inl e"
  then show "to_lowercase s \<notin> range as_str"
    by (metis Inl_Inr_False from_str_iff imageE)
next
  assume "to_lowercase s \<notin> range as_str"
  then show "\<exists>e. from_str s = Inl e"
    by (metis from_str_iff rangeI sum.exhaust)
qed

end

section \<open>Tables\<close>

text \<open>A row is addressed by its primary key; an update rewrites the rows with that key.\<close>

definition update_where :: "('r \<Rightarrow> bool) \<Rightarrow> ('r \<Rightarrow> 'r) \<Rightarrow> 'r list \<Rightarrow> 'r list" where
  "update_where p f rs = map (\<lambda>r. if p r then f r else r) rs"

lemma length_update_where [simp]: "length (update_where p f rs) = length rs"
  by (simp add: update_where_def)

lemma update_where_Nil [simp]: "update_where p f [] = []"
  by (simp add: update_where_def)

lemma update_where_Cons [simp]:
  "update_where p f (r # rs) = (if p r then f r else r) # update_where p f rs"
  by (simp add: update_where_def)

lemma set_update_where:
  "set (update_where p f rs) = (\<lambda>r. if p r then f r else r) ` set rs"
  by (simp add: update_where_def)

lemma update_where_all:
  assumes "\<And>x. x \<in> set rs \<Longrightarrow> p x \<Longrightarrow> Q (f x)" "\<And>x. x \<in> set rs \<Longrightarrow> \<not> p x \<Longrightarrow> Q x"
    and "y \<in> set (update_where p f rs)"
  shows "Q y"
  using assms by (auto simp: set_update_where)

lemma map_update_where_same:
  "(\<And>r. p r \<Longrightarrow> g (f r) = g r) \<Longrightarrow> map g (update_where p f rs) = map g rs"
  by (induction rs) auto

lemma distinct_key_unique:
  "distinct (map k rs) \<Longrightarrow> r \<in> set rs \<Longrightarrow> r' \<in> set rs \<Longrightarrow> k r = k r' \<Longrightarrow> r = r'"
  by (induction rs) (auto simp: image_iff)

lemma find_key_in:
  assumes "distinct (map k rs)" and "r \<in> set rs"
  shows "find (\<lambda>x. k x = k r) rs = Some r"
  using assms
proof (induction rs)
  case Nil
  then show ?case by simp
next
  case (Cons a rs)
  then show ?case
    by (cases "a = r") (auto simp: image_iff)
qed

lemma filter_key_single:
  "distinct (map k rs) \<Longrightarrow> r \<in> set rs \<Longrightarrow> filter (\<lambda>x. k x = k r) rs = [r]"
proof (induction rs)
  case Nil
  then show ?case by simp
next
  case (Cons a rs)
  show ?case
  proof (cases "a = r")
    case True
    with Cons.prems(1) have "filter (\<lambda>x. k x = k r) rs = []" by (auto simp: filter_empty_conv image_iff)
    with True show ?thesis by simp
  next
    case False
    with Cons.prems have "k a \<noteq> k r" by (auto simp: image_iff)
    with Cons False show ?thesis by simp
  qed
qed

text \<open>Keep the first element of every key.\<close>

fun dedup_by :: "('a \<Rightarrow> 'k) \<Rightarrow> 'k list \<Rightarrow> 'a list \<Rightarrow> 'a list" where
  "dedup_by k seen [] = []"
| "dedup_by k seen (x # xs) =
     (if k x \<in> set seen then dedup_by k seen xs else x # dedup_by k (k x # seen) xs)"

lemma set_dedup_by_subset: "set (dedup_by k seen xs) \<subseteq> set xs"
  by (induction k seen xs rule: dedup_by.induct) auto

lemma keys_dedup_by: "k ` set (dedup_by k seen xs) = k ` set xs - set seen"
  by (induction k seen xs rule: dedup_by.induct) auto

lemma distinct_dedup_by: "distinct (map k (dedup_by k seen xs))"
proof (induction k seen xs rule: dedup_by.induct)
  case (2 k seen x xs)
  then show ?case using keys_dedup_by[of k "k x # seen" xs] by auto
qed simp

lemma sorted_dedup_by: "sorted (map f xs) \<Longrightarrow> sorted (map f (dedup_by k seen xs))"
proof (induction k seen xs rule: dedup_by.induct)
  case (2 k seen x xs)
  then show ?case using set_dedup_by_subset[of k "k x # seen" xs] by auto
qed simp

lemma dedup_by_distinct:
  "distinct (map k xs) \<Longrightarrow> k ` set xs \<inter> set seen = {} \<Longrightarrow> dedup_by k seen xs = xs"
  by (induction k seen xs rule: dedup_by.induct) auto

lemma find_SomeD: "find P xs = Some x \<Longrightarrow> P x \<and> x \<in> set xs"
  by (metis find_Some_iff nth_mem)

lemma find_append: "find p (xs @ ys) = (case find p xs of None \<Rightarrow> find p ys | Some x \<Rightarrow> Some x)"
  by (induction xs) auto

lemma key_unused_iff: "(\<forall>x \<in> A. f x \<noteq> y) \<longleftrightarrow> y \<notin> f ` A"
  by auto

text \<open>Summing a column before and after one row changes.\<close>

lemma sum_list_update_where:
  fixes g :: "'r \<Rightarrow> int"
  assumes "distinct (map k rs)" and "r \<in> set rs"
  shows "sum_list (map g (update_where (\<lambda>x. k x = k r) f rs)) = sum_list (map g rs) - g r + g (f r)"
  using assms
proof (induction rs)
  case Nil
  then show ?case by simp
next
  case (Cons a rs)
  show ?case
  proof (cases "a = r")
    case True
    with Cons.prems(1) have "update_where (\<lambda>x. k x = k r) f rs = rs"
      by (auto simp: update_where_def image_iff intro!: map_idI)
    with True show ?thesis by simp
  next
    case False
    with Cons.prems have "r \<in> set rs" "distinct (map k rs)" "k a \<noteq> k r"
      by (auto simp: image_iff)
    with Cons.IH show ?thesis by simp
  qed
qed

lemma sum_list_map_nonneg: "(\<And>x. x \<in> set xs \<Longrightarrow> 0 \<le> (g x :: int)) \<Longrightarrow> 0 \<le> sum_list (map g xs)"
  by (induction xs) auto

lemma sum_list_map_member_le:
  "x \<in> set xs \<Longrightarrow> (\<And>y. y \<in> set xs \<Longrightarrow> 0 \<le> (g y :: int)) \<Longrightarrow> g x \<le> sum_list (map g xs)"
proof (induction xs)
  case Nil
  then show ?case by simp
next
  case (Cons a xs)
  have "0 \<le> sum_list (map g xs)"
    using Cons.prems(2) by (intro sum_list_map_nonneg) auto
  with Cons show ?case by (cases "x = a") (auto intro: add_increasing)
qed

lemma mset_sort_key_sum:
  fixes g :: "'r \<Rightarrow> int"
  shows "sum_list (map g (sort_key k xs)) = sum_list (map g xs)"
  by (metis mset_map mset_sort sum_mset_sum_list)

section \<open>Ordered maps\<close>

text \<open>A \<open>BTreeMap\<close> is its entries in ascending key order; \<open>entry(k)\<close> updates one of them.\<close>

fun bt_upsert :: "'k::linorder \<Rightarrow> ('v option \<Rightarrow> 'v) \<Rightarrow> ('k \<times> 'v) list \<Rightarrow> ('k \<times> 'v) list" where
  "bt_upsert k f [] = [(k, f None)]"
| "bt_upsert k f ((k', v) # m) =
     (if k = k' then (k, f (Some v)) # m
      else if k < k' then (k, f None) # (k', v) # m
      else (k', v) # bt_upsert k f m)"

lemma set_keys_bt_upsert: "set (map fst (bt_upsert k f m)) = insert k (set (map fst m))"
  by (induction k f m rule: bt_upsert.induct) auto

lemma sorted_bt_upsert:
  "sorted_wrt (<) (map fst m) \<Longrightarrow> sorted_wrt (<) (map fst (bt_upsert k f m))"
proof (induction k f m rule: bt_upsert.induct)
  case (1 k f)
  then show ?case by simp
next
  case (2 k f k' v m)
  then show ?case
    using set_keys_bt_upsert[of k f m] by auto
qed

lemma map_of_bt_upsert:
  "sorted_wrt (<) (map fst m) \<Longrightarrow> map_of (bt_upsert k f m) = (map_of m)(k \<mapsto> f (map_of m k))"
proof (induction k f m rule: bt_upsert.induct)
  case (1 k f)
  then show ?case by simp
next
  case (2 k f k' v m)
  have "k < k' \<Longrightarrow> map_of m k = None"
    using "2.prems" by (fastforce simp: map_of_eq_None_iff)
  with 2 show ?case by (auto simp: fun_eq_iff)
qed

lemma sum_bt_upsert:
  fixes g :: "'v \<Rightarrow> int"
  assumes "sorted_wrt (<) (map fst m)"
  shows "sum_list (map (g \<circ> snd) (bt_upsert k f m)) =
         sum_list (map (g \<circ> snd) m) + g (f (map_of m k))
           - (case map_of m k of None \<Rightarrow> 0 | Some v \<Rightarrow> g v)"
  using assms
proof (induction k f m rule: bt_upsert.induct)
  case (1 k f)
  then show ?case by simp
next
  case (2 k f k' v m)
  have "k < k' \<Longrightarrow> map_of m k = None"
    using "2.prems" by (fastforce simp: map_of_eq_None_iff)
  with 2 show ?case by auto
qed

lemma map_bt_upsert_existing:
  assumes "sorted_wrt (<) (map fst m)" "map_of m k = Some v0" "g (k, v) = g (k, v0)"
  shows "map g (bt_upsert k (\<lambda>_. v) m) = map g m"
  using assms
proof (induction m)
  case Nil
  then show ?case by simp
next
  case (Cons p m)
  have "k < fst p \<Longrightarrow> map_of m k = None"
    using Cons.prems(1) by (fastforce simp: map_of_eq_None_iff)
  with Cons show ?case by (cases p) (auto split: if_splits)
qed

lemma mset_bt_upsert_new:
  "map_of m k = None \<Longrightarrow> mset (bt_upsert k (\<lambda>_. v) m) = add_mset (k, v) (mset m)"
  by (induction m) (auto split: if_splits)

lemma set_bt_upsert_const: "set (bt_upsert k (\<lambda>_. v) m) \<subseteq> insert (k, v) (set m)"
  by (induction m) (auto split: if_splits)

end
