(* ===== verification/CoreErrors.thy ===== *)
theory CoreErrors
  imports Prelude
begin

text \<open>
  The error type every fallible operation of Herald returns
  (\<open>domain/src/common/entities/app_errors.rs\<close>) and the constructors the points code adds
  (\<open>domain/src/points/errors.rs\<close>).
\<close>

datatype core_error =
    NotFound
  | InvalidRealm string
  | InternalServerError string
  | Forbidden string
  | Unauthorized
  | BadRequest string
  | Conflict string
  | DatabaseError string
  | RateLimitExceeded
  | EmailVerificationFailed
  | PasswordResetFailed
  | BillingError string
  | SubscriptionNotFound string
  | InvalidSubscriptionStatus string
  | CreemApiError string
  | InvalidWebhookSignature
  | WebhookTimestampExpired
  | InvalidWebhookPayload
  | InvalidWebhookSecret
  | DuplicateWebhookEvent string
  | SerializationError string
  | EntitlementMappingNotFound
  | EntitlementMappingNotAttachedToBucket uuid
  | SubscriptionBucketNotResolved uuid
  | NoCoveredPointsPool uuid
  | GrantBucketRequired
  | PriceInfoMissing string

definition insufficient_points :: "i64 \<Rightarrow> i64 \<Rightarrow> core_error" where
  "insufficient_points required available =
     BadRequest (''Insufficient points balance. Required: '' @ show_int required @
                 '', Available: '' @ show_int available)"

definition invalid_amount :: "string \<Rightarrow> core_error" where
  "invalid_amount reason = BadRequest (''Invalid points amount: '' @ reason)"

definition concurrent_modification :: core_error where
  "concurrent_modification =
     Conflict ''Wallet was modified by another transaction. Please try again.''"

definition overflow_error :: "string \<Rightarrow> core_error" where
  "overflow_error reason = BadRequest (''Arithmetic overflow: '' @ reason)"

definition idempotency_processing :: core_error where
  "idempotency_processing =
     Conflict ''Request with this idempotency key is already being processed. Please wait.''"

end
