(* ===== verification/PointsEntities.thy ===== *)
theory PointsEntities
  imports CoreErrors
begin

text \<open>
  The data model of the points component (\<open>domain/src/points/entities.rs\<close>): checked
  arithmetic on amounts, the enums with their wire forms, and the rows of the points tables.
\<close>

section \<open>Safe arithmetic\<close>

definition safe_add :: "i64 \<Rightarrow> i64 \<Rightarrow> (core_error, i64) result" where
  "safe_add a b =
     ok_or (checked_add a b)
       (overflow_error (''Overflow in addition: '' @ show_int a @ '' + '' @ show_int b))"

text \<open>
  The difference is computed with the machine subtraction, which wraps: the guard only
  excludes a negative result.
\<close>

definition safe_sub :: "i64 \<Rightarrow> i64 \<Rightarrow> (core_error, i64) result" where
  "safe_sub a b =
     (if a < b
      then Inl (overflow_error (''Underflow in subtraction: '' @ show_int a @ '' - '' @ show_int b @
             '' = '' @ show_int (wrap_i64 (a - b)) @ '' (negative result not allowed)''))
      else Inr (wrap_i64 (a - b)))"

definition safe_mul :: "i64 \<Rightarrow> i64 \<Rightarrow> (core_error, i64) result" where
  "safe_mul a b =
     ok_or (checked_mul a b)
       (overflow_error (''Overflow in multiplication: '' @ show_int a @ '' * '' @ show_int b))"

lemma safe_add_ok_iff: "safe_add a b = Inr c \<longleftrightarrow> in_i64 (a + b) \<and> c = a + b"
  by (auto simp: safe_add_def checked_add_def)

lemma safe_mul_ok_iff: "safe_mul a b = Inr c \<longleftrightarrow> in_i64 (a * b) \<and> c = a * b"
  by (auto simp: safe_mul_def checked_mul_def)

lemma safe_sub_nonneg_operand:
  assumes "in_i64 a" "0 \<le> b"
  shows "safe_sub a b = Inr c \<longleftrightarrow> b \<le> a \<and> c = a - b"
proof (cases "a < b")
  case True
  then show ?thesis by (simp add: safe_sub_def)
next
  case False
  with assms have "in_i64 (a - b)" by (simp add: i64_bounds)
  with False show ?thesis by (auto simp: safe_sub_def wrap_i64_id)
qed

section \<open>Enums\<close>

named_theorems enum_simps \<open>definitions of the enums' printers and parsers\<close>

definition parse_enum :: "string \<Rightarrow> string \<Rightarrow> (string \<Rightarrow> 'a option) \<Rightarrow> (core_error, 'a) result" where
  "parse_enum s error_prefix variants =
     ok_or (variants s) (BadRequest (error_prefix @ '': '' @ s))"

datatype wallet_status = WalletActive | WalletFrozen | WalletClosed

definition wallet_status_as_str :: "wallet_status \<Rightarrow> string" where
  [enum_simps]: "wallet_status_as_str x = (case x of
       WalletActive \<Rightarrow> ''active''
     | WalletFrozen \<Rightarrow> ''frozen''
     | WalletClosed \<Rightarrow> ''closed'')"

definition wallet_status_from_str :: "string \<Rightarrow> (core_error, wallet_status) result" where
  [enum_simps]: "wallet_status_from_str s = parse_enum (to_lowercase s) ''Invalid wallet status'' (\<lambda>s.
     if s = ''active'' then Some WalletActive
     else if s = ''frozen'' then Some WalletFrozen
     else if s = ''closed'' then Some WalletClosed
     else None)"

datatype transaction_type =
    Recharge | Consume | SubscriptionGrant | SubscriptionRenewal | SubscriptionUpgrade
  | SubscriptionDowngrade | RegistrationGrant | FreePeriodicGrant | RefundRevoke
  | ExpireRevoke | CancelRevoke | Expiration | Refund | Grant

definition transaction_type_as_str :: "transaction_type \<Rightarrow> string" where
  [enum_simps]: "transaction_type_as_str x = (case x of
       Recharge \<Rightarrow> ''recharge''
     | Consume \<Rightarrow> ''consume''
     | SubscriptionGrant \<Rightarrow> ''subscription_grant''
     | SubscriptionRenewal \<Rightarrow> ''subscription_renewal''
     | SubscriptionUpgrade \<Rightarrow> ''subscription_upgrade''
     | SubscriptionDowngrade \<Rightarrow> ''subscription_downgrade''
     | RegistrationGrant \<Rightarrow> ''registration_grant''
     | FreePeriodicGrant \<Rightarrow> ''free_periodic_grant''
     | RefundRevoke \<Rightarrow> ''refund_revoke''
     | ExpireRevoke \<Rightarrow> ''expire_revoke''
     | CancelRevoke \<Rightarrow> ''cancel_revoke''
     | Expiration \<Rightarrow> ''expiration''
     | Refund \<Rightarrow> ''refund''
     | Grant \<Rightarrow> ''grant'')"

definition transaction_type_from_str :: "string \<Rightarrow> (core_error, transaction_type) result" where
  [enum_simps]: "transaction_type_from_str s = parse_enum (to_lowercase s) ''Invalid transaction type'' (\<lambda>s.
     if s = ''recharge'' then Some Recharge
     else if s = ''consume'' then Some Consume
     else if s = ''subscription_grant'' then Some SubscriptionGrant
     else if s = ''subscription_renewal'' then Some SubscriptionRenewal
     else if s = ''subscription_upgrade'' then Some SubscriptionUpgrade
     else if s = ''subscription_downgrade'' then Some SubscriptionDowngrade
     else if s = ''registration_grant'' then Some RegistrationGrant
     else if s = ''free_periodic_grant'' then Some FreePeriodicGrant
     else if s = ''refund_revoke'' then Some RefundRevoke
     else if s = ''expire_revoke'' then Some ExpireRevoke
     else if s = ''cancel_revoke'' then Some CancelRevoke
     else if s = ''expiration'' then Some Expiration
     else if s = ''refund'' then Some Refund
     else if s = ''grant'' then Some Grant
     else None)"

datatype recharge_type = RechargeSubscribe | RechargeRenewal

definition recharge_type_as_str :: "recharge_type \<Rightarrow> string" where
  [enum_simps]: "recharge_type_as_str x = (case x of
       RechargeSubscribe \<Rightarrow> ''subscribe''
     | RechargeRenewal \<Rightarrow> ''renewal'')"

definition recharge_type_from_str :: "string \<Rightarrow> (core_error, recharge_type) result" where
  [enum_simps]: "recharge_type_from_str s = parse_enum (to_lowercase s) ''Invalid recharge type'' (\<lambda>s.
     if s = ''subscribe'' then Some RechargeSubscribe
     else if s = ''renewal'' then Some RechargeRenewal
     else None)"

datatype credit_type =
  TopupCredit | SubscriptionCredit | RegistrationCredit | FreePeriodicCredit | GrantedCredit

definition credit_type_as_str :: "credit_type \<Rightarrow> string" where
  [enum_simps]: "credit_type_as_str x = (case x of
       TopupCredit \<Rightarrow> ''topup_credit''
     | SubscriptionCredit \<Rightarrow> ''subscription_credit''
     | RegistrationCredit \<Rightarrow> ''registration_credit''
     | FreePeriodicCredit \<Rightarrow> ''free_periodic_credit''
     | GrantedCredit \<Rightarrow> ''granted_credit'')"

definition credit_type_from_str :: "string \<Rightarrow> (core_error, credit_type) result" where
  [enum_simps]: "credit_type_from_str s = parse_enum (to_lowercase s) ''Invalid credit_type'' (\<lambda>s.
     if s = ''topup_credit'' then Some TopupCredit
     else if s = ''subscription_credit'' then Some SubscriptionCredit
     else if s = ''registration_credit'' then Some RegistrationCredit
     else if s = ''free_periodic_credit'' then Some FreePeriodicCredit
     else if s = ''granted_credit'' then Some GrantedCredit
     else None)"

datatype credit_source_type =
    SrcSubscriptionInitial | SrcSubscriptionRenewal | SrcSubscriptionUpgrade
  | SrcSubscriptionDowngrade | SrcTopup | SrcRegistration | SrcFreePeriodicGrant
  | SrcSystemGrant | SrcRefundRevoke | SrcExpireRevoke | SrcCancelRevoke | SrcUpgradeRevoke
  | SrcAdminGrant | SrcSdkGrant

definition credit_source_type_as_str :: "credit_source_type \<Rightarrow> string" where
  [enum_simps]: "credit_source_type_as_str x = (case x of
       SrcSubscriptionInitial \<Rightarrow> ''subscription_initial''
     | SrcSubscriptionRenewal \<Rightarrow> ''subscription_renewal''
     | SrcSubscriptionUpgrade \<Rightarrow> ''subscription_upgrade''
     | SrcSubscriptionDowngrade \<Rightarrow> ''subscription_downgrade''
     | SrcTopup \<Rightarrow> ''topup''
     | SrcRegistration \<Rightarrow> ''registration''
     | SrcFreePeriodicGrant \<Rightarrow> ''free_periodic_grant''
     | SrcSystemGrant \<Rightarrow> ''system_grant''
     | SrcRefundRevoke \<Rightarrow> ''refund_revoke''
     | SrcExpireRevoke \<Rightarrow> ''expire_revoke''
     | SrcCancelRevoke \<Rightarrow> ''cancel_revoke''
     | SrcUpgradeRevoke \<Rightarrow> ''upgrade_revoke''
     | SrcAdminGrant \<Rightarrow> ''admin_grant''
     | SrcSdkGrant \<Rightarrow> ''sdk_grant'')"

definition credit_source_type_from_str :: "string \<Rightarrow> (core_error, credit_source_type) result" where
  [enum_simps]: "credit_source_type_from_str s = parse_enum (to_lowercase s) ''Invalid source_type'' (\<lambda>s.
     if s = ''subscription_initial'' then Some SrcSubscriptionInitial
     else if s = ''subscription_renewal'' then Some SrcSubscriptionRenewal
     else if s = ''subscription_upgrade'' then Some SrcSubscriptionUpgrade
     else if s = ''subscription_downgrade'' then Some SrcSubscriptionDowngrade
     else if s = ''topup'' then Some SrcTopup
     else if s = ''registration'' then Some SrcRegistration
     else if s = ''free_periodic_grant'' then Some SrcFreePeriodicGrant
     else if s = ''system_grant'' then Some SrcSystemGrant
     else if s = ''refund_revoke'' then Some SrcRefundRevoke
     else if s = ''expire_revoke'' then Some SrcExpireRevoke
     else if s = ''cancel_revoke'' then Some SrcCancelRevoke
     else if s = ''upgrade_revoke'' then Some SrcUpgradeRevoke
     else if s = ''admin_grant'' then Some SrcAdminGrant
     else if s = ''sdk_grant'' then Some SrcSdkGrant
     else None)"

datatype credit_ledger_status = LedgerActive | LedgerRevoked | LedgerExpired | LedgerFullyUsed

definition credit_ledger_status_as_str :: "credit_ledger_status \<Rightarrow> string" where
  [enum_simps]: "credit_ledger_status_as_str x = (case x of
       LedgerActive \<Rightarrow> ''active''
     | LedgerRevoked \<Rightarrow> ''revoked''
     | LedgerExpired \<Rightarrow> ''expired''
     | LedgerFullyUsed \<Rightarrow> ''fully_used'')"

definition credit_ledger_status_from_str :: "string \<Rightarrow> (core_error, credit_ledger_status) result" where
  [enum_simps]: "credit_ledger_status_from_str s = parse_enum (to_lowercase s) ''Invalid ledger status'' (\<lambda>s.
     if s = ''active'' then Some LedgerActive
     else if s = ''revoked'' then Some LedgerRevoked
     else if s = ''expired'' then Some LedgerExpired
     else if s = ''fully_used'' then Some LedgerFullyUsed
     else None)"

datatype revocation_type = RevRefund | RevExpire | RevCancel | RevUpgrade

definition revocation_type_as_str :: "revocation_type \<Rightarrow> string" where
  [enum_simps]: "revocation_type_as_str x = (case x of
       RevRefund \<Rightarrow> ''refund_revoke''
     | RevExpire \<Rightarrow> ''expire_revoke''
     | RevCancel \<Rightarrow> ''cancel_revoke''
     | RevUpgrade \<Rightarrow> ''upgrade_revoke'')"

definition revocation_type_from_str :: "string \<Rightarrow> (core_error, revocation_type) result" where
  [enum_simps]: "revocation_type_from_str s = parse_enum (to_lowercase s) ''Invalid revocation type'' (\<lambda>s.
     if s = ''refund_revoke'' then Some RevRefund
     else if s = ''expire_revoke'' then Some RevExpire
     else if s = ''cancel_revoke'' then Some RevCancel
     else if s = ''upgrade_revoke'' then Some RevUpgrade
     else None)"

datatype idempotency_status = IdemPending | IdemProcessing | IdemCompleted | IdemFailed

definition idempotency_status_as_str :: "idempotency_status \<Rightarrow> string" where
  [enum_simps]: "idempotency_status_as_str x = (case x of
       IdemPending \<Rightarrow> ''pending''
     | IdemProcessing \<Rightarrow> ''processing''
     | IdemCompleted \<Rightarrow> ''completed''
     | IdemFailed \<Rightarrow> ''failed'')"

definition idempotency_status_from_str :: "string \<Rightarrow> (core_error, idempotency_status) result" where
  [enum_simps]: "idempotency_status_from_str s = parse_enum (to_lowercase s) ''Invalid idempotency status'' (\<lambda>s.
     if s = ''pending'' then Some IdemPending
     else if s = ''processing'' then Some IdemProcessing
     else if s = ''completed'' then Some IdemCompleted
     else if s = ''failed'' then Some IdemFailed
     else None)"

datatype quota_source_type =
  QuotaSubscriptionInitial | QuotaSubscriptionRenewal | QuotaSubscriptionUpgrade | QuotaFreePeriodicGrant

definition quota_source_type_as_str :: "quota_source_type \<Rightarrow> string" where
  [enum_simps]: "quota_source_type_as_str x = (case x of
       QuotaSubscriptionInitial \<Rightarrow> ''subscription_initial''
     | QuotaSubscriptionRenewal \<Rightarrow> ''subscription_renewal''
     | QuotaSubscriptionUpgrade \<Rightarrow> ''subscription_upgrade''
     | QuotaFreePeriodicGrant \<Rightarrow> ''free_periodic_grant'')"

definition quota_source_type_from_str :: "string \<Rightarrow> (core_error, quota_source_type) result" where
  [enum_simps]: "quota_source_type_from_str s = parse_enum (to_lowercase s) ''Invalid quota source_type'' (\<lambda>s.
     if s = ''subscription_initial'' then Some QuotaSubscriptionInitial
     else if s = ''subscription_renewal'' then Some QuotaSubscriptionRenewal
     else if s = ''subscription_upgrade'' then Some QuotaSubscriptionUpgrade
     else if s = ''free_periodic_grant'' then Some QuotaFreePeriodicGrant
     else None)"

datatype quota_entitlement_status = QuotaActive | QuotaRevoked | QuotaExpired

definition quota_entitlement_status_as_str :: "quota_entitlement_status \<Rightarrow> string" where
  [enum_simps]: "quota_entitlement_status_as_str x = (case x of
       QuotaActive \<Rightarrow> ''active''
     | QuotaRevoked \<Rightarrow> ''revoked''
     | QuotaExpired \<Rightarrow> ''expired'')"

definition quota_entitlement_status_from_str :: "string \<Rightarrow> (core_error, quota_entitlement_status) result" where
  [enum_simps]: "quota_entitlement_status_from_str s = parse_enum (to_lowercase s) ''Invalid quota entitlement status'' (\<lambda>s.
     if s = ''active'' then Some QuotaActive
     else if s = ''revoked'' then Some QuotaRevoked
     else if s = ''expired'' then Some QuotaExpired
     else None)"

lemma parse_enum_Inr_iff [enum_simps]: "parse_enum s p v = Inr x \<longleftrightarrow> v s = Some x"
  by (simp add: parse_enum_def ok_or_Inr_iff)

declare lower_char_def [enum_simps]

section \<open>Every enum honours the wire contract\<close>

interpretation wallet_status: string_enum wallet_status_as_str wallet_status_from_str
  by unfold_locales (auto simp: enum_simps split: if_splits wallet_status.splits)

interpretation transaction_type: string_enum transaction_type_as_str transaction_type_from_str
  by unfold_locales (auto simp: enum_simps split: if_splits transaction_type.splits)

interpretation recharge_type: string_enum recharge_type_as_str recharge_type_from_str
  by unfold_locales (auto simp: enum_simps split: if_splits recharge_type.splits)

interpretation credit_type: string_enum credit_type_as_str credit_type_from_str
  by unfold_locales (auto simp: enum_simps split: if_splits credit_type.splits)

interpretation credit_source_type: string_enum credit_source_type_as_str credit_source_type_from_str
  by unfold_locales (auto simp: enum_simps split: if_splits credit_source_type.splits)

interpretation credit_ledger_status: string_enum credit_ledger_status_as_str credit_ledger_status_from_str
  by unfold_locales (auto simp: enum_simps split: if_splits credit_ledger_status.splits)

interpretation revocation_type: string_enum revocation_type_as_str revocation_type_from_str
  by unfold_locales (auto simp: enum_simps split: if_splits revocation_type.splits)

interpretation idempotency_status: string_enum idempotency_status_as_str idempotency_status_from_str
  by unfold_locales (auto simp: enum_simps split: if_splits idempotency_status.splits)

interpretation quota_source_type: string_enum quota_source_type_as_str quota_source_type_from_str
  by unfold_locales (auto simp: enum_simps split: if_splits quota_source_type.splits)

interpretation quota_entitlement_status: string_enum quota_entitlement_status_as_str quota_entitlement_status_from_str
  by unfold_locales (auto simp: enum_simps split: if_splits quota_entitlement_status.splits)

section \<open>Classification of credit types\<close>

definition is_topup :: "credit_type \<Rightarrow> bool" where
  "is_topup t \<longleftrightarrow> t = TopupCredit"

definition is_subscription :: "credit_type \<Rightarrow> bool" where
  "is_subscription t \<longleftrightarrow> t = SubscriptionCredit"

definition is_free_credit :: "credit_type \<Rightarrow> bool" where
  "is_free_credit t \<longleftrightarrow> t = RegistrationCredit \<or> t = FreePeriodicCredit"

definition is_granted :: "credit_type \<Rightarrow> bool" where
  "is_granted t \<longleftrightarrow> t = GrantedCredit"

section \<open>Rows\<close>

text \<open>
  \<open>remaining_amount\<close> is a generated column (\<open>granted - used - revoked\<close>), so it is a
  function of the row and not a field of it.
\<close>

record points_credit_ledger =
  led_id :: uuid
  led_user_id :: uuid
  led_realm_id :: string
  led_bucket_id :: uuid
  led_credit_type :: credit_type
  led_source_type :: credit_source_type
  led_source_id :: string
  led_granted_amount :: i64
  led_used_amount :: i64
  led_revoked_amount :: i64
  led_expires_at :: "instant option"
  led_effective_at :: "instant option"
  led_status :: credit_ledger_status
  led_distribution_event_id :: "uuid option"
  led_distribution_rule_id :: "uuid option"
  led_created_at :: instant
  led_updated_at :: instant

definition remaining_amount :: "points_credit_ledger \<Rightarrow> i64" where
  "remaining_amount l = led_granted_amount l - led_used_amount l - led_revoked_amount l"

record points_consumption_allocation =
  alloc_id :: uuid
  alloc_transaction_id :: uuid
  alloc_ledger_id :: uuid
  alloc_wallet_id :: "uuid option"
  alloc_user_id :: uuid
  alloc_realm_id :: string
  alloc_bucket_id :: uuid
  alloc_allocated_amount :: i64
  alloc_ledger_remaining_after :: i64
  alloc_created_at :: instant

record points_revocation_record =
  rev_id :: uuid
  rev_ledger_id :: uuid
  rev_user_id :: uuid
  rev_realm_id :: string
  rev_revocation_type :: revocation_type
  rev_revoked_amount :: i64
  rev_reason :: string
  rev_reference_id :: "string option"
  rev_created_at :: instant

record points_wallet =
  wal_id :: uuid
  wal_user_id :: uuid
  wal_realm_id :: string
  wal_bucket_id :: "uuid option"
  wal_total_topup_granted :: i64
  wal_total_subscription_granted :: i64
  wal_total_recharged :: i64
  wal_total_consumed :: i64
  wal_status :: wallet_status
  wal_created_at :: instant
  wal_updated_at :: instant

record points_transaction =
  txn_id :: uuid
  txn_wallet_id :: uuid
  txn_user_id :: uuid
  txn_realm_id :: string
  txn_bucket_id :: uuid
  txn_transaction_type :: transaction_type
  txn_amount :: i64
  txn_balance_after :: i64
  txn_topup_balance_after :: "i64 option"
  txn_subscription_balance_after :: "i64 option"
  txn_credit_type :: "credit_type option"
  txn_description :: "string option"
  txn_client_app_id :: "uuid option"
  txn_subscription_id :: "uuid option"
  txn_external_ref_id :: "string option"
  txn_correlation_id :: "string option"
  txn_effective_at :: "instant option"
  txn_distribution_event_id :: "uuid option"
  txn_distribution_rule_id :: "uuid option"
  txn_created_at :: instant

record points_balance =
  bal_user_id :: uuid
  bal_balance :: i64
  bal_topup_balance :: i64
  bal_subscription_balance :: i64
  bal_granted_balance :: i64
  bal_registration_balance :: i64
  bal_free_periodic_balance :: i64
  bal_total_recharged :: i64
  bal_total_consumed :: i64
  bal_unit :: string
  bal_updated_at :: instant
  bal_expires_at :: "instant option"

record idempotency_key =
  idem_id :: uuid
  idem_realm_id :: string
  idem_key :: string
  idem_status :: idempotency_status
  idem_transaction_id :: "uuid option"
  idem_created_at :: instant
  idem_expires_at :: instant
  idem_updated_at :: instant

record quota_window =
  qw_window_seconds :: i64
  qw_limit :: i64
  qw_key :: string

record points_quota_entitlement =
  ent_id :: uuid
  ent_user_id :: uuid
  ent_realm_id :: string
  ent_bucket_id :: uuid
  ent_credit_type :: credit_type
  ent_source_type :: quota_source_type
  ent_source_id :: string
  ent_quota_windows :: "quota_window list"
  ent_effective_from :: instant
  ent_effective_until :: "instant option"
  ent_status :: quota_entitlement_status
  ent_idempotency_key :: string
  ent_distribution_event_id :: "uuid option"
  ent_distribution_rule_id :: "uuid option"
  ent_created_at :: instant
  ent_updated_at :: instant

record quota_window_view =
  qv_key :: string
  qv_limit :: i64
  qv_used :: i64
  qv_remaining :: i64
  qv_window_seconds :: i64
  qv_resets_at :: "instant option"
  qv_is_tightest :: bool
  qv_exhausted :: bool
  qv_effective_from :: instant
  qv_effective_until :: "instant option"

end
