(* ===== verification/PointsTables.thy ===== *)
theory PointsTables
  imports PointsEntities
begin

text \<open>
  The points tables and the in-transaction helpers of
  \<open>infra/src/points/postgres_repository.rs\<close>.  A table is the list of its rows, a query is
  a filter and a stable sort, and a statement that a \<open>CHECK\<close>, unique or foreign key
  constraint of \<open>0002_billing.sql\<close> refuses returns \<open>DatabaseError\<close>.  A helper
  takes the database of the open transaction and returns the changed one; an error aborts
  the transaction, so the caller's database stays the committed one.

  What the database and the libraries supply is an argument: \<open>env_uuid\<close> is the stream of
  \<open>Uuid::now_v7\<close> values (\<open>db_seq\<close> counts how many were drawn), \<open>env_uuid_str\<close> the
  hyphenated text of an identifier, \<open>env_now\<close> the reading of \<open>Utc::now()\<close> in the
  operation and \<open>env_sql_now\<close> the transaction timestamp \<open>NOW()\<close>.
\<close>

section \<open>The database\<close>

record env =
  env_uuid :: "nat \<Rightarrow> uuid"
  env_uuid_str :: "uuid \<Rightarrow> string"
  env_now :: instant
  env_sql_now :: instant

record credit_bucket =
  bkt_id :: uuid
  bkt_realm_id :: string
  bkt_enabled :: bool

record bucket_client_app =
  bca_bucket_id :: uuid
  bca_client_app_id :: uuid
  bca_realm_id :: string

record distribution_event_row =
  evt_id :: uuid
  evt_realm_id :: string
  evt_user_id :: uuid
  evt_trigger :: string
  evt_event_key :: string
  evt_source_id :: string
  evt_owner_type :: string
  evt_mapping_id :: "uuid option"
  evt_status :: string
  evt_result_count :: "int option"
  evt_completed_at :: "instant option"

record payment_refund =
  rfd_id :: uuid
  rfd_realm_id :: string
  rfd_payment_provider :: string
  rfd_payment_attempt_id :: uuid
  rfd_refund_id :: string
  rfd_amount :: i64
  rfd_original_payment_amount :: i64
  rfd_cumulative_refunded_after :: i64

record points_db =
  db_accounts :: "(uuid \<times> string) list"
  db_buckets :: "credit_bucket list"
  db_bucket_apps :: "bucket_client_app list"
  db_wallets :: "points_wallet list"
  db_ledgers :: "points_credit_ledger list"
  db_transactions :: "points_transaction list"
  db_allocations :: "points_consumption_allocation list"
  db_revocations :: "points_revocation_record list"
  db_idempotency :: "idempotency_key list"
  db_entitlements :: "points_quota_entitlement list"
  db_events :: "distribution_event_row list"
  db_refunds :: "payment_refund list"
  db_seq :: nat

type_synonym 'a tx = "(core_error, 'a \<times> points_db) result"

definition now_v7 :: "env \<Rightarrow> points_db \<Rightarrow> uuid \<times> points_db" where
  "now_v7 env db = (env_uuid env (db_seq db), db\<lparr>db_seq := Suc (db_seq db)\<rparr>)"

text \<open>What a caller sees: the changes are committed on success and dropped on an error.\<close>

definition run_tx :: "(points_db \<Rightarrow> 'a tx) \<Rightarrow> points_db \<Rightarrow> (core_error, 'a) result \<times> points_db" where
  "run_tx f db = (case f db of Inl e \<Rightarrow> (Inl e, db) | Inr (x, db') \<Rightarrow> (Inr x, db'))"

section \<open>Wallets\<close>

definition find_wallet_by_user_bucket :: "points_db \<Rightarrow> string \<Rightarrow> uuid \<Rightarrow> uuid \<Rightarrow> points_wallet option" where
  "find_wallet_by_user_bucket db realm_id user_id bucket_id =
     find (\<lambda>w. wal_realm_id w = realm_id \<and> wal_user_id w = user_id \<and> wal_bucket_id w = Some bucket_id)
       (db_wallets db)"

definition create_wallet_in_tx :: "env \<Rightarrow> points_db \<Rightarrow> string \<Rightarrow> uuid \<Rightarrow> uuid \<Rightarrow> points_wallet tx" where
  "create_wallet_in_tx env db realm_id user_id bucket_id =
     (let (i, db1) = now_v7 env db in
      and_then (ensure (\<exists>a \<in> set (db_accounts db). fst a = user_id)
                 (DatabaseError ''points_wallets_user_id_fkey'')) (\<lambda>_.
      and_then (ensure (\<exists>b \<in> set (db_buckets db). bkt_id b = bucket_id)
                 (DatabaseError ''points_wallets_bucket_id_fkey'')) (\<lambda>_.
      case find_wallet_by_user_bucket db1 realm_id user_id bucket_id of
        Some w \<Rightarrow> Inr (w, db1)
      | None \<Rightarrow>
          (let w = \<lparr>wal_id = i, wal_user_id = user_id, wal_realm_id = realm_id,
                    wal_bucket_id = Some bucket_id, wal_total_topup_granted = 0,
                    wal_total_subscription_granted = 0, wal_total_recharged = 0,
                    wal_total_consumed = 0, wal_status = WalletActive,
                    wal_created_at = env_sql_now env, wal_updated_at = env_sql_now env\<rparr>
           in Inr (w, db1\<lparr>db_wallets := db_wallets db1 @ [w]\<rparr>)))))"

definition ensure_wallet_in_tx :: "env \<Rightarrow> points_db \<Rightarrow> string \<Rightarrow> uuid \<Rightarrow> uuid \<Rightarrow> points_wallet tx" where
  "ensure_wallet_in_tx env db realm_id user_id bucket_id =
     (case find_wallet_by_user_bucket db realm_id user_id bucket_id of
        Some w \<Rightarrow> Inr (w, db)
      | None \<Rightarrow> create_wallet_in_tx env db realm_id user_id bucket_id)"

record wallet_delta =
  wd_total_recharged :: i64
  wd_total_consumed :: i64
  wd_total_topup_granted :: i64
  wd_total_subscription_granted :: i64

definition wallet_delta_grant :: "credit_type \<Rightarrow> i64 \<Rightarrow> wallet_delta" where
  "wallet_delta_grant credit_type amount =
     (let (topup, sub) = (case credit_type of
            TopupCredit \<Rightarrow> (amount, 0)
          | SubscriptionCredit \<Rightarrow> (0, amount)
          | _ \<Rightarrow> (0, 0))
      in \<lparr>wd_total_recharged = topup + sub, wd_total_consumed = 0,
          wd_total_topup_granted = topup, wd_total_subscription_granted = sub\<rparr>)"

definition consumed_delta :: "i64 \<Rightarrow> wallet_delta" where
  "consumed_delta n = \<lparr>wd_total_recharged = 0, wd_total_consumed = n,
                       wd_total_topup_granted = 0, wd_total_subscription_granted = 0\<rparr>"

definition add_wallet_delta :: "env \<Rightarrow> wallet_delta \<Rightarrow> points_wallet \<Rightarrow> points_wallet" where
  "add_wallet_delta env d w =
     w\<lparr>wal_total_recharged := wal_total_recharged w + wd_total_recharged d,
       wal_total_consumed := wal_total_consumed w + wd_total_consumed d,
       wal_total_topup_granted := wal_total_topup_granted w + wd_total_topup_granted d,
       wal_total_subscription_granted :=
         wal_total_subscription_granted w + wd_total_subscription_granted d,
       wal_updated_at := env_sql_now env\<rparr>"

definition wallet_check :: "points_wallet \<Rightarrow> bool" where
  "wallet_check w \<longleftrightarrow> 0 \<le> wal_total_recharged w \<and> 0 \<le> wal_total_consumed w \<and>
     0 \<le> wal_total_topup_granted w \<and> 0 \<le> wal_total_subscription_granted w"

definition apply_wallet_delta_in_tx :: "env \<Rightarrow> points_db \<Rightarrow> uuid \<Rightarrow> wallet_delta \<Rightarrow> points_wallet tx" where
  "apply_wallet_delta_in_tx env db wallet_id delta =
     and_then (ok_or (find (\<lambda>w. wal_id w = wallet_id) (db_wallets db)) NotFound) (\<lambda>w.
     (let w' = add_wallet_delta env delta w in
      and_then (ensure (wallet_check w') (DatabaseError ''points_wallets_check'')) (\<lambda>_.
        Inr (w', db\<lparr>db_wallets :=
          update_where (\<lambda>x. wal_id x = wallet_id) (add_wallet_delta env delta) (db_wallets db)\<rparr>))))"

section \<open>Ledgers\<close>

definition ledger_check :: "points_credit_ledger \<Rightarrow> bool" where
  "ledger_check l \<longleftrightarrow>
     0 < led_granted_amount l \<and> 0 \<le> led_used_amount l \<and> 0 \<le> led_revoked_amount l \<and>
     0 \<le> remaining_amount l \<and>
     (case (led_effective_at l, led_expires_at l) of (Some f, Some e) \<Rightarrow> f \<le> e | _ \<Rightarrow> True) \<and>
     (led_distribution_event_id l = None) = (led_distribution_rule_id l = None)"

text \<open>
  \<open>ORDER BY expires_at ASC NULLS LAST, created_at ASC\<close>; rows equal in both keep their
  table order.
\<close>

definition expiry_order :: "points_credit_ledger \<Rightarrow> (nat \<times> int) \<times> int" where
  "expiry_order l =
     ((case led_expires_at l of None \<Rightarrow> (1, 0) | Some e \<Rightarrow> (0, e)), led_created_at l)"

definition live_at :: "instant \<Rightarrow> points_credit_ledger \<Rightarrow> bool" where
  "live_at now l \<longleftrightarrow>
     led_status l = LedgerActive \<and> 0 < remaining_amount l \<and>
     (case led_expires_at l of None \<Rightarrow> True | Some e \<Rightarrow> now < e) \<and>
     (case led_effective_at l of None \<Rightarrow> True | Some f \<Rightarrow> f \<le> now)"

definition find_active_ledgers_by_expiration ::
  "env \<Rightarrow> points_db \<Rightarrow> string \<Rightarrow> uuid \<Rightarrow> uuid list \<Rightarrow> points_credit_ledger list" where
  "find_active_ledgers_by_expiration env db realm_id user_id bucket_ids =
     (if bucket_ids = [] then []
      else sort_key expiry_order
        (filter (\<lambda>l. led_realm_id l = realm_id \<and> led_user_id l = user_id \<and>
                     led_bucket_id l \<in> set bucket_ids \<and> live_at (env_sql_now env) l)
          (db_ledgers db)))"

definition find_active_ledgers_by_credit_type_and_bucket ::
  "points_db \<Rightarrow> string \<Rightarrow> uuid \<Rightarrow> uuid \<Rightarrow> credit_type \<Rightarrow> points_credit_ledger list" where
  "find_active_ledgers_by_credit_type_and_bucket db realm_id user_id bucket_id credit_type =
     sort_key led_created_at
       (filter (\<lambda>l. led_realm_id l = realm_id \<and> led_user_id l = user_id \<and>
                    led_bucket_id l = bucket_id \<and> led_credit_type l = credit_type \<and>
                    led_status l = LedgerActive \<and> 0 < remaining_amount l)
         (db_ledgers db))"

definition find_expired_ledgers :: "points_db \<Rightarrow> instant \<Rightarrow> nat \<Rightarrow> points_credit_ledger list" where
  "find_expired_ledgers db expiration_time limit =
     take limit (sort_key (\<lambda>l. the (led_expires_at l))
       (filter (\<lambda>l. (case led_expires_at l of None \<Rightarrow> False | Some e \<Rightarrow> e \<le> expiration_time) \<and>
                    led_status l = LedgerActive \<and> 0 < remaining_amount l)
         (db_ledgers db)))"

datatype ledger_update =
  Consumption i64 | Revocation i64 | SetExpiration instant | SetStatus credit_ledger_status

fun updated_ledger :: "ledger_update \<Rightarrow> points_credit_ledger \<Rightarrow> (core_error, points_credit_ledger) result" where
  "updated_ledger (Consumption amount) l =
     (let l' = l\<lparr>led_used_amount := led_used_amount l + amount\<rparr>; rem = remaining_amount l' in
      if rem < 0 then Inl concurrent_modification
      else Inr (l'\<lparr>led_status := (if rem = 0 then LedgerFullyUsed else led_status l)\<rparr>))"
| "updated_ledger (Revocation amount) l =
     (let l' = l\<lparr>led_revoked_amount := led_revoked_amount l + amount\<rparr>; rem = remaining_amount l' in
      if rem < 0 then Inl concurrent_modification
      else Inr (l'\<lparr>led_status := (if rem = 0 then LedgerRevoked else led_status l)\<rparr>))"
| "updated_ledger (SetExpiration expires_at) l = Inr (l\<lparr>led_expires_at := Some expires_at\<rparr>)"
| "updated_ledger (SetStatus status) l = Inr (l\<lparr>led_status := status\<rparr>)"

definition update_ledger_in_tx :: "env \<Rightarrow> points_db \<Rightarrow> uuid \<Rightarrow> ledger_update \<Rightarrow> points_credit_ledger tx" where
  "update_ledger_in_tx env db ledger_id updates =
     and_then (ok_or (find (\<lambda>l. led_id l = ledger_id) (db_ledgers db))
                 (BadRequest (''Ledger not found: '' @ env_uuid_str env ledger_id))) (\<lambda>l.
     and_then (updated_ledger updates l) (\<lambda>l0.
     (let l' = l0\<lparr>led_updated_at := env_sql_now env\<rparr> in
      and_then (ensure (ledger_check l') (DatabaseError ''points_credit_ledger_check'')) (\<lambda>_.
        Inr (l', db\<lparr>db_ledgers :=
          update_where (\<lambda>x. led_id x = ledger_id) (\<lambda>_. l') (db_ledgers db)\<rparr>)))))"

text \<open>The source types the ledger table admits: the revocation sources are not among them.\<close>

definition ledger_source_allowed :: "credit_source_type \<Rightarrow> bool" where
  "ledger_source_allowed t \<longleftrightarrow>
     t \<notin> {SrcRefundRevoke, SrcExpireRevoke, SrcCancelRevoke, SrcUpgradeRevoke}"

definition create_ledger_in_tx :: "points_db \<Rightarrow> points_credit_ledger \<Rightarrow> points_credit_ledger tx" where
  "create_ledger_in_tx db l =
     and_then (ensure (ledger_check l \<and> ledger_source_allowed (led_source_type l))
                (DatabaseError ''points_credit_ledger_check'')) (\<lambda>_.
     and_then (ensure (\<forall>x \<in> set (db_ledgers db). led_id x \<noteq> led_id l)
                (DatabaseError ''points_credit_ledger_pkey'')) (\<lambda>_.
     and_then (ensure (led_distribution_rule_id l = None \<or>
                 (\<forall>x \<in> set (db_ledgers db).
                    \<not> (led_distribution_rule_id x \<noteq> None \<and>
                       led_distribution_event_id x = led_distribution_event_id l \<and>
                       led_distribution_rule_id x = led_distribution_rule_id l)))
                (DatabaseError ''idx_points_credit_ledger_event_rule'')) (\<lambda>_.
       Inr (l, db\<lparr>db_ledgers := db_ledgers db @ [l]\<rparr>))))"

section \<open>Derived balances\<close>

definition credit_types :: "credit_type list" where
  "credit_types = [TopupCredit, SubscriptionCredit, RegistrationCredit, FreePeriodicCredit, GrantedCredit]"

definition available_ledgers ::
  "points_db \<Rightarrow> string \<Rightarrow> uuid \<Rightarrow> uuid list \<Rightarrow> instant \<Rightarrow> points_credit_ledger list" where
  "available_ledgers db realm_id user_id bucket_ids now =
     filter (\<lambda>l. led_realm_id l = realm_id \<and> led_user_id l = user_id \<and>
                 (bucket_ids = [] \<or> led_bucket_id l \<in> set bucket_ids) \<and> live_at now l)
       (db_ledgers db)"

text \<open>\<open>SELECT credit_type, SUM(remaining_amount) ... GROUP BY credit_type\<close>: a type with no row
  has no group.\<close>

definition compute_available_balance ::
  "points_db \<Rightarrow> string \<Rightarrow> uuid \<Rightarrow> uuid list \<Rightarrow> instant \<Rightarrow> (credit_type \<times> i64) list" where
  "compute_available_balance db realm_id user_id bucket_ids now =
     (let rows = available_ledgers db realm_id user_id bucket_ids now in
      map (\<lambda>t. (t, sum_list (map remaining_amount (filter (\<lambda>l. led_credit_type l = t) rows))))
        (filter (\<lambda>t. \<exists>l \<in> set rows. led_credit_type l = t) credit_types))"

definition derived_to_balance_snapshots :: "(credit_type \<times> i64) list \<Rightarrow> i64 \<times> i64 option \<times> i64 option" where
  "derived_to_balance_snapshots derived =
     foldl (\<lambda>(total, topup, subscription) (credit_type, amount).
              (total + amount,
               (if credit_type = TopupCredit
                then Some ((case topup of None \<Rightarrow> 0 | Some t \<Rightarrow> t) + amount) else topup),
               (if credit_type = SubscriptionCredit
                then Some ((case subscription of None \<Rightarrow> 0 | Some t \<Rightarrow> t) + amount) else subscription)))
       (0, Some 0, Some 0) derived"

section \<open>Transactions, allocations, revocation records\<close>

definition create_transaction_in_tx :: "points_db \<Rightarrow> points_transaction \<Rightarrow> points_transaction tx" where
  "create_transaction_in_tx db t =
     and_then (ensure (0 \<le> txn_balance_after t \<and>
                 (case txn_topup_balance_after t of None \<Rightarrow> True | Some b \<Rightarrow> 0 \<le> b) \<and>
                 (case txn_subscription_balance_after t of None \<Rightarrow> True | Some b \<Rightarrow> 0 \<le> b) \<and>
                 (txn_distribution_event_id t = None) = (txn_distribution_rule_id t = None))
                (DatabaseError ''points_transactions_check'')) (\<lambda>_.
     and_then (ensure (\<forall>x \<in> set (db_transactions db). txn_id x \<noteq> txn_id t)
                (DatabaseError ''points_transactions_pkey'')) (\<lambda>_.
     and_then (ensure (txn_external_ref_id t = None \<or>
                 (\<forall>x \<in> set (db_transactions db). \<not> (txn_user_id x = txn_user_id t \<and>
                    txn_external_ref_id x = txn_external_ref_id t)))
                (DatabaseError ''idx_transactions_external_ref'')) (\<lambda>_.
     (let row = t\<lparr>txn_effective_at := None\<rparr> in
       Inr (row, db\<lparr>db_transactions := db_transactions db @ [row]\<rparr>)))))"

definition create_consumption_allocation_in_tx ::
  "env \<Rightarrow> points_db \<Rightarrow> points_consumption_allocation \<Rightarrow> (core_error, points_db) result" where
  "create_consumption_allocation_in_tx env db a =
     and_then (ok_or (alloc_wallet_id a)
                (InternalServerError (''consumption allocation requires wallet_id (ledger='' @
                   env_uuid_str env (alloc_ledger_id a) @ '', transaction='' @
                   env_uuid_str env (alloc_transaction_id a) @ '')''))) (\<lambda>_.
     and_then (ensure (0 < alloc_allocated_amount a \<and> 0 \<le> alloc_ledger_remaining_after a)
                (DatabaseError ''points_consumption_allocations_check'')) (\<lambda>_.
       Inr (db\<lparr>db_allocations := db_allocations db @ [a]\<rparr>)))"

definition create_revocation_record_in_tx ::
  "points_db \<Rightarrow> points_revocation_record \<Rightarrow> (core_error, points_db) result" where
  "create_revocation_record_in_tx db r =
     and_then (ensure (0 < rev_revoked_amount r)
                (DatabaseError ''points_revocation_records_check'')) (\<lambda>_.
       Inr (db\<lparr>db_revocations := db_revocations db @ [r]\<rparr>))"

section \<open>Idempotency keys\<close>

definition check_completed_idempotency_in_tx :: "env \<Rightarrow> points_db \<Rightarrow> string \<Rightarrow> string \<Rightarrow> uuid option" where
  "check_completed_idempotency_in_tx env db realm_id key =
     Option.bind
       (find (\<lambda>k. idem_realm_id k = realm_id \<and> idem_key k = key \<and> idem_status k = IdemCompleted \<and>
                  env_sql_now env < idem_expires_at k)
          (db_idempotency db))
       idem_transaction_id"

definition record_completed_idempotency_in_tx ::
  "env \<Rightarrow> points_db \<Rightarrow> string \<Rightarrow> string \<Rightarrow> uuid \<Rightarrow> points_db" where
  "record_completed_idempotency_in_tx env db realm_id key transaction_id =
     (let (i, db1) = now_v7 env db; expires = env_sql_now env + secs (24 * 3600) in
      if \<exists>k \<in> set (db_idempotency db). idem_realm_id k = realm_id \<and> idem_key k = key
      then db1\<lparr>db_idempotency := update_where
             (\<lambda>k. idem_realm_id k = realm_id \<and> idem_key k = key)
             (\<lambda>k. k\<lparr>idem_transaction_id := Some transaction_id, idem_status := IdemCompleted,
                    idem_expires_at := expires, idem_updated_at := env_sql_now env\<rparr>)
             (db_idempotency db1)\<rparr>
      else db1\<lparr>db_idempotency := db_idempotency db1 @
             [\<lparr>idem_id = i, idem_realm_id = realm_id, idem_key = key, idem_status = IdemCompleted,
               idem_transaction_id = Some transaction_id, idem_created_at = env_sql_now env,
               idem_expires_at = expires, idem_updated_at = env_sql_now env\<rparr>]\<rparr>)"

section \<open>Quota windows\<close>

definition active_entitlements ::
  "points_db \<Rightarrow> string \<Rightarrow> uuid \<Rightarrow> uuid \<Rightarrow> credit_type \<Rightarrow> instant \<Rightarrow> points_quota_entitlement list" where
  "active_entitlements db realm_id user_id bucket_id credit_type now =
     filter (\<lambda>e. ent_realm_id e = realm_id \<and> ent_user_id e = user_id \<and>
                 ent_bucket_id e = bucket_id \<and> ent_credit_type e = credit_type \<and>
                 ent_status e = QuotaActive \<and> ent_effective_from e \<le> now \<and>
                 (case ent_effective_until e of None \<Rightarrow> True | Some u \<Rightarrow> now < u))
       (db_entitlements db)"

definition sum_consume_in_window ::
  "points_db \<Rightarrow> string \<Rightarrow> uuid \<Rightarrow> uuid \<Rightarrow> credit_type \<Rightarrow> instant \<Rightarrow> i64" where
  "sum_consume_in_window db realm_id user_id bucket_id credit_type window_start =
     sum_list (map (\<lambda>t. \<bar>txn_amount t\<bar>)
       (filter (\<lambda>t. txn_realm_id t = realm_id \<and> txn_user_id t = user_id \<and>
                    txn_bucket_id t = bucket_id \<and> txn_credit_type t = Some credit_type \<and>
                    txn_transaction_type t = Consume \<and> window_start \<le> txn_created_at t)
         (db_transactions db)))"

text \<open>The tightest window so far; \<open>None\<close> is the early return on a malformed window.\<close>

fun scan_windows :: "(quota_window \<Rightarrow> i64) \<Rightarrow> quota_window list \<Rightarrow> i64 option \<Rightarrow> i64 option option" where
  "scan_windows used [] tightest = Some tightest"
| "scan_windows used (w # ws) tightest =
     (if qw_window_seconds w \<le> 0 \<or> qw_limit w < 0 then None
      else (let rem = qw_limit w - used w in
            scan_windows used ws
              (Some (case tightest of None \<Rightarrow> rem | Some t \<Rightarrow> min t rem))))"

definition compute_window_spendable_in_tx ::
  "points_db \<Rightarrow> string \<Rightarrow> uuid \<Rightarrow> uuid \<Rightarrow> credit_type \<Rightarrow> instant \<Rightarrow> i64" where
  "compute_window_spendable_in_tx db realm_id user_id bucket_id credit_type now =
     (let rows = active_entitlements db realm_id user_id bucket_id credit_type now in
      if rows = [] then 0
      else case scan_windows
                  (\<lambda>w. sum_consume_in_window db realm_id user_id bucket_id credit_type
                         (now - secs (qw_window_seconds w)))
                  (concat (map ent_quota_windows rows)) None of
             None \<Rightarrow> 0
           | Some tightest \<Rightarrow> max 0 (case tightest of None \<Rightarrow> 0 | Some t \<Rightarrow> t))"

end
