(* ===== verification/PointsInvariant.thy ===== *)
theory PointsInvariant
  imports PointsTables
begin

text \<open>
  The integrity of the points tables: what the constraints of the schema and the status rules
  of the code keep true between transactions, the freshness of identifiers, and for every
  in-transaction helper what a successful call did.  The operations' theories rest on the
  \<open>_Inr_iff\<close> characterisations and on \<open>_wf\<close> preservation.
\<close>

section \<open>Well-formed rows and tables\<close>

text \<open>
  Status and amounts agree: an active row has something left, a fully used or revoked row
  has nothing left.  (An expired row keeps what it had when it expired.)
\<close>

definition status_ok :: "points_credit_ledger \<Rightarrow> bool" where
  "status_ok l \<longleftrightarrow>
     (led_status l = LedgerActive \<longrightarrow> 0 < remaining_amount l) \<and>
     (led_status l \<in> {LedgerFullyUsed, LedgerRevoked} \<longrightarrow> remaining_amount l = 0)"

definition ledger_ok :: "points_credit_ledger \<Rightarrow> bool" where
  "ledger_ok l \<longleftrightarrow> ledger_check l \<and> status_ok l"

definition wallet_key :: "points_wallet \<Rightarrow> string \<times> uuid \<times> uuid option" where
  "wallet_key w = (wal_realm_id w, wal_user_id w, wal_bucket_id w)"

definition ledgers_inv :: "points_credit_ledger list \<Rightarrow> bool" where
  "ledgers_inv ls \<longleftrightarrow> distinct (map led_id ls) \<and> (\<forall>l \<in> set ls. ledger_ok l)"

definition wallets_inv :: "points_wallet list \<Rightarrow> bool" where
  "wallets_inv ws \<longleftrightarrow> distinct (map wal_id ws) \<and> distinct (map wallet_key ws) \<and> (\<forall>w \<in> set ws. wallet_check w)"

definition db_inv :: "points_db \<Rightarrow> bool" where
  "db_inv db \<longleftrightarrow>
     ledgers_inv (db_ledgers db) \<and> wallets_inv (db_wallets db) \<and>
     distinct (map txn_id (db_transactions db)) \<and>
     (\<forall>t \<in> set (db_transactions db). 0 \<le> txn_balance_after t) \<and>
     distinct (map (\<lambda>k. (idem_realm_id k, idem_key k)) (db_idempotency db)) \<and>
     (\<forall>r \<in> set (db_revocations db). 0 < rev_revoked_amount r) \<and>
     (\<forall>a \<in> set (db_allocations db). 0 < alloc_allocated_amount a \<and> 0 \<le> alloc_ledger_remaining_after a)"

text \<open>
  \<open>Uuid::now_v7\<close> gives a new identifier at every call: the stream repeats nothing and what
  it has still to give is not in the tables.
\<close>

definition ids_fresh :: "env \<Rightarrow> points_db \<Rightarrow> bool" where
  "ids_fresh env db \<longleftrightarrow> inj (env_uuid env) \<and>
     (\<forall>n \<ge> db_seq db. env_uuid env n \<notin> led_id ` set (db_ledgers db) \<and>
        env_uuid env n \<notin> wal_id ` set (db_wallets db) \<and>
        env_uuid env n \<notin> txn_id ` set (db_transactions db))"

definition db_wf :: "env \<Rightarrow> points_db \<Rightarrow> bool" where
  "db_wf env db \<longleftrightarrow> db_inv db \<and> ids_fresh env db"

lemma ledger_ok_remaining_nonneg: "ledger_ok l \<Longrightarrow> 0 \<le> remaining_amount l"
  by (simp add: ledger_ok_def ledger_check_def)

lemma db_inv_remaining_nonneg: "db_inv db \<Longrightarrow> l \<in> set (db_ledgers db) \<Longrightarrow> 0 \<le> remaining_amount l"
  by (auto simp: db_inv_def ledgers_inv_def intro: ledger_ok_remaining_nonneg)

lemma now_v7_simps [table_simps]:
  "now_v7 env db = (i, db') \<longleftrightarrow> i = env_uuid env (db_seq db) \<and> db' = db\<lparr>db_seq := Suc (db_seq db)\<rparr>"
  by (auto simp: now_v7_def)

lemma db_inv_seq [simp]: "db_inv (db\<lparr>db_seq := n\<rparr>) = db_inv db"
  by (simp add: db_inv_def)

lemma ids_fresh_seq: "ids_fresh env db \<Longrightarrow> db_seq db \<le> n \<Longrightarrow> ids_fresh env (db\<lparr>db_seq := n\<rparr>)"
  by (simp add: ids_fresh_def)

lemma db_wf_now_v7: "db_wf env db \<Longrightarrow> now_v7 env db = (i, db') \<Longrightarrow> db_wf env db'"
  by (auto simp: db_wf_def now_v7_def intro: ids_fresh_seq)

section \<open>What a successful helper did\<close>

lemma find_wallet_Some:
  assumes "find_wallet_by_user_bucket db r u b = Some w"
  shows "w \<in> set (db_wallets db)" "wallet_key w = (r, u, Some b)"
  using find_SomeD[OF assms[unfolded find_wallet_by_user_bucket_def]]
  by (simp_all add: wallet_key_def)

lemma find_wallet_None:
  "find_wallet_by_user_bucket db r u b = None \<longleftrightarrow> (r, u, Some b) \<notin> wallet_key ` set (db_wallets db)"
  by (auto simp: find_wallet_by_user_bucket_def find_None_iff wallet_key_def)

text \<open>Wallet creation either finds the wallet or appends an empty active one.\<close>

lemma ensure_wallet_InrE:
  assumes "ensure_wallet_in_tx env db r u b = Inr (w, db')"
  obtains (existing) "db' = db" "w \<in> set (db_wallets db)" "wallet_key w = (r, u, Some b)"
  | (created) "(r, u, Some b) \<notin> wallet_key ` set (db_wallets db)" "wal_status w = WalletActive"
      "wallet_key w = (r, u, Some b)" "wal_id w = env_uuid env (db_seq db)" "wallet_check w"
      "db' = db\<lparr>db_seq := Suc (db_seq db), db_wallets := db_wallets db @ [w]\<rparr>"
proof (cases "find_wallet_by_user_bucket db r u b")
  case (Some v)
  with assms have "v = w" "db' = db" by (simp_all add: ensure_wallet_in_tx_def)
  with find_wallet_Some[OF Some] show ?thesis by (intro existing) auto
next
  case None
  then have "find_wallet_by_user_bucket (db\<lparr>db_seq := n\<rparr>) r u b = None" for n
    by (simp add: find_wallet_by_user_bucket_def)
  with assms None show ?thesis
    by (intro created)
      (auto simp: ensure_wallet_in_tx_def create_wallet_in_tx_def now_v7_def result_simps Let_def
        find_wallet_None wallet_key_def wallet_check_def)
qed

lemma ensure_wallet_wf:
  assumes "db_wf env db" and "ensure_wallet_in_tx env db r u b = Inr (w, db')"
  shows "db_wf env db'" "w \<in> set (db_wallets db')"
proof -
  from assms(2) have "db_wf env db' \<and> w \<in> set (db_wallets db')"
  proof (cases rule: ensure_wallet_InrE)
    case existing
    with assms(1) show ?thesis by simp
  next
    case created
    have "wal_id w \<notin> wal_id ` set (db_wallets db)"
      using assms(1) created(4) by (simp add: db_wf_def ids_fresh_def)
    moreover have "\<forall>n \<ge> Suc (db_seq db). env_uuid env n \<noteq> env_uuid env (db_seq db)"
      using assms(1) by (auto simp: db_wf_def ids_fresh_def dest: injD)
    ultimately show ?thesis
      using assms(1) created by (auto simp: db_wf_def db_inv_def ids_fresh_def wallets_inv_def)
  qed
  then show "db_wf env db'" "w \<in> set (db_wallets db')" by simp_all
qed

lemma add_wallet_delta_simps [simp]:
  "wal_id (add_wallet_delta env d w) = wal_id w"
  "wallet_key (add_wallet_delta env d w) = wallet_key w"
  "wal_status (add_wallet_delta env d w) = wal_status w"
  by (simp_all add: add_wallet_delta_def wallet_key_def)

lemma apply_wallet_delta_Inr_iff [result_simps]:
  "apply_wallet_delta_in_tx env db i d = Inr (w', db') \<longleftrightarrow>
     (\<exists>w. find (\<lambda>w. wal_id w = i) (db_wallets db) = Some w \<and> w' = add_wallet_delta env d w \<and>
          wallet_check w' \<and>
          db' = db\<lparr>db_wallets := update_where (\<lambda>x. wal_id x = i) (add_wallet_delta env d) (db_wallets db)\<rparr>)"
  by (auto simp: apply_wallet_delta_in_tx_def result_simps Let_def)

lemma wallets_inv_delta:
  assumes "wallets_inv ws" "find (\<lambda>w. wal_id w = i) ws = Some w" "wallet_check (add_wallet_delta env d w)"
  shows "wallets_inv (update_where (\<lambda>x. wal_id x = i) (add_wallet_delta env d) ws)"
proof -
  have "w \<in> set ws" "wal_id w = i" using find_SomeD[OF assms(2)] by auto
  then have "x = w" if "x \<in> set ws" "wal_id x = i" for x
    using distinct_key_unique[of wal_id ws x w] assms(1) that by (simp add: wallets_inv_def)
  with assms(1,3) show ?thesis
    by (auto simp: wallets_inv_def map_update_where_same set_update_where)
qed

lemma apply_wallet_delta_wf:
  assumes "db_wf env db" "apply_wallet_delta_in_tx env db i d = Inr (w', db')"
  shows "db_wf env db'"
  using assms wallets_inv_delta
  by (auto simp: result_simps db_wf_def db_inv_def ids_fresh_def set_update_where image_image
      image_iff)

lemma update_ledger_Inr_iff [result_simps]:
  "update_ledger_in_tx env db i upd = Inr (l', db') \<longleftrightarrow>
     (\<exists>l l0. find (\<lambda>l. led_id l = i) (db_ledgers db) = Some l \<and> updated_ledger upd l = Inr l0 \<and>
          l' = l0\<lparr>led_updated_at := env_sql_now env\<rparr> \<and> ledger_check l' \<and>
          db' = db\<lparr>db_ledgers := update_where (\<lambda>x. led_id x = i) (\<lambda>_. l') (db_ledgers db)\<rparr>)"
  by (auto simp: update_ledger_in_tx_def result_simps Let_def)

lemma remaining_amount_updates [simp]:
  "remaining_amount (l\<lparr>led_status := s\<rparr>) = remaining_amount l"
  "remaining_amount (l\<lparr>led_updated_at := t\<rparr>) = remaining_amount l"
  "remaining_amount (l\<lparr>led_expires_at := e\<rparr>) = remaining_amount l"
  "remaining_amount (l\<lparr>led_used_amount := led_used_amount l + n\<rparr>) = remaining_amount l - n"
  "remaining_amount (l\<lparr>led_revoked_amount := led_revoked_amount l + n\<rparr>) = remaining_amount l - n"
  by (simp_all add: remaining_amount_def)

lemma ledger_check_updated_at [simp]: "ledger_check (l\<lparr>led_updated_at := t\<rparr>) = ledger_check l"
  by (simp add: ledger_check_def)

lemma status_ok_updated_at [simp]: "status_ok (l\<lparr>led_updated_at := t\<rparr>) = status_ok l"
  by (simp add: status_ok_def)

text \<open>Identity columns no update touches.\<close>

definition ledger_origin :: "points_credit_ledger \<Rightarrow>
    (uuid \<times> uuid \<times> string \<times> uuid) \<times> credit_type \<times> credit_source_type \<times> string \<times> i64 \<times> instant option
      \<times> uuid option \<times> uuid option \<times> instant" where
  "ledger_origin l = ((led_id l, led_user_id l, led_realm_id l, led_bucket_id l), led_credit_type l,
     led_source_type l, led_source_id l, led_granted_amount l, led_effective_at l,
     led_distribution_event_id l, led_distribution_rule_id l, led_created_at l)"

lemma updated_ledger_origin: "updated_ledger upd l = Inr l' \<Longrightarrow> ledger_origin l' = ledger_origin l"
  by (cases upd) (auto simp: ledger_origin_def Let_def split: if_splits)

lemma updated_ledger_remaining:
  assumes "updated_ledger upd l = Inr l'"
  shows "remaining_amount l' = (case upd of Consumption n \<Rightarrow> remaining_amount l - n
           | Revocation n \<Rightarrow> remaining_amount l - n | _ \<Rightarrow> remaining_amount l)"
  using assms by (cases upd) (auto simp: Let_def split: if_splits)

definition keeps_status_ok :: "ledger_update \<Rightarrow> bool" where
  "keeps_status_ok upd \<longleftrightarrow>
     (case upd of SetStatus s \<Rightarrow> s = LedgerExpired | Consumption n \<Rightarrow> 0 < n | Revocation n \<Rightarrow> 0 < n | _ \<Rightarrow> True)"

lemma updated_ledger_ok:
  assumes "ledger_ok l" "updated_ledger upd l = Inr l'" "keeps_status_ok upd"
  shows "status_ok l'"
proof (cases upd)
  case (Consumption n)
  with assms show ?thesis
    by (auto simp: status_ok_def ledger_ok_def keeps_status_ok_def Let_def split: if_splits)
next
  case (Revocation n)
  with assms show ?thesis
    by (auto simp: status_ok_def ledger_ok_def keeps_status_ok_def Let_def split: if_splits)
next
  case (SetExpiration t)
  with assms show ?thesis
    by (auto simp: status_ok_def ledger_ok_def)
next
  case (SetStatus s)
  with assms show ?thesis
    by (auto simp: status_ok_def ledger_ok_def keeps_status_ok_def)
qed

lemma ledger_origin_id: "ledger_origin l = ledger_origin l' \<Longrightarrow> led_id l = led_id l'"
  by (simp add: ledger_origin_def)

lemma ledger_origin_updated_at [simp]: "ledger_origin (l\<lparr>led_updated_at := t\<rparr>) = ledger_origin l"
  by (simp add: ledger_origin_def)

text \<open>The row an update addresses, and the ones it leaves alone.\<close>

lemma update_ledger_effect:
  assumes "ledgers_inv (db_ledgers db)" "update_ledger_in_tx env db i upd = Inr (l', db')"
  obtains l l0 where "l \<in> set (db_ledgers db)" "led_id l = i" "updated_ledger upd l = Inr l0"
    "l' = l0\<lparr>led_updated_at := env_sql_now env\<rparr>" "ledger_origin l' = ledger_origin l"
    "db' = db\<lparr>db_ledgers := update_where (\<lambda>x. led_id x = led_id l) (\<lambda>_. l') (db_ledgers db)\<rparr>"
    "ledger_check l'"
proof -
  from assms(2) obtain l l0 where l: "find (\<lambda>l. led_id l = i) (db_ledgers db) = Some l"
      "updated_ledger upd l = Inr l0" "l' = l0\<lparr>led_updated_at := env_sql_now env\<rparr>" "ledger_check l'"
      "db' = db\<lparr>db_ledgers := update_where (\<lambda>x. led_id x = i) (\<lambda>_. l') (db_ledgers db)\<rparr>"
    by (auto simp: result_simps)
  from find_SomeD[OF l(1)] have "l \<in> set (db_ledgers db)" "led_id l = i" by auto
  moreover have "ledger_origin l' = ledger_origin l"
    using l(2,3) by (auto dest: updated_ledger_origin)
  ultimately show ?thesis using l that by auto
qed

lemma update_ledger_map_same:
  assumes "ledgers_inv (db_ledgers db)" "update_ledger_in_tx env db i upd = Inr (l', db')"
    and "\<And>l l'. ledger_origin l = ledger_origin l' \<Longrightarrow> g l = g l'"
  shows "map g (db_ledgers db') = map g (db_ledgers db)"
proof -
  from assms(1,2) obtain l where l: "l \<in> set (db_ledgers db)" "ledger_origin l' = ledger_origin l"
      "db' = db\<lparr>db_ledgers := update_where (\<lambda>x. led_id x = led_id l) (\<lambda>_. l') (db_ledgers db)\<rparr>"
    by (rule update_ledger_effect) auto
  have "g l' = g x" if "x \<in> set (db_ledgers db)" "led_id x = led_id l" for x
  proof -
    have "x = l"
      using distinct_key_unique[of led_id "db_ledgers db" x l] that assms(1) l(1)
      by (simp add: ledgers_inv_def)
    with l(2) show ?thesis by (simp add: assms(3)[of l' l])
  qed
  then show ?thesis
    unfolding l(3) by (auto simp: update_where_def)
qed

lemma update_ledger_inv:
  assumes "ledgers_inv (db_ledgers db)" "update_ledger_in_tx env db i upd = Inr (l', db')"
    "keeps_status_ok upd"
  shows "ledgers_inv (db_ledgers db')"
proof -
  have "map led_id (db_ledgers db') = map led_id (db_ledgers db)"
    by (rule update_ledger_map_same[OF assms(1,2) ledger_origin_id])
  moreover from assms(1,2) obtain l l0 where l: "l \<in> set (db_ledgers db)" "updated_ledger upd l = Inr l0"
      "l' = l0\<lparr>led_updated_at := env_sql_now env\<rparr>" "ledger_check l'"
      "db' = db\<lparr>db_ledgers := update_where (\<lambda>x. led_id x = led_id l) (\<lambda>_. l') (db_ledgers db)\<rparr>"
    by (rule update_ledger_effect) auto
  moreover have "status_ok l'"
    using updated_ledger_ok[OF _ l(2) assms(3)] l(1,3) assms(1) by (auto simp: ledgers_inv_def)
  ultimately show ?thesis
    using assms(1) unfolding ledgers_inv_def
    by (auto simp: set_update_where ledger_ok_def)
qed

lemma update_ledger_frame:
  assumes "update_ledger_in_tx env db i upd = Inr (l', db')"
  shows "db' = db\<lparr>db_ledgers := db_ledgers db'\<rparr>"
  using assms by (auto simp: result_simps)

lemma update_ledger_wf:
  assumes "db_wf env db" "update_ledger_in_tx env db i upd = Inr (l', db')" "keeps_status_ok upd"
  shows "db_wf env db'"
proof -
  have inv: "ledgers_inv (db_ledgers db)" using assms(1) by (simp add: db_wf_def db_inv_def)
  obtain ls where ls: "db' = db\<lparr>db_ledgers := ls\<rparr>"
    using update_ledger_frame[OF assms(2)] by blast
  have "ledgers_inv ls" using update_ledger_inv[OF inv assms(2,3)] ls by simp
  moreover have "map led_id ls = map led_id (db_ledgers db)"
    using update_ledger_map_same[OF inv assms(2), of led_id, OF ledger_origin_id] ls by simp
  then have ids: "led_id ` set ls = led_id ` set (db_ledgers db)"
    by (metis list.set_map)
  ultimately show ?thesis
    using assms(1) unfolding ls db_wf_def db_inv_def ids_fresh_def by (simp add: ids)
qed

lemma update_ledger_sum:
  fixes g :: "points_credit_ledger \<Rightarrow> int"
  assumes "ledgers_inv (db_ledgers db)" "update_ledger_in_tx env db i upd = Inr (l', db')"
  obtains l where "l \<in> set (db_ledgers db)" "led_id l = i"
    "sum_list (map g (db_ledgers db')) = sum_list (map g (db_ledgers db)) - g l + g l'"
proof -
  from assms obtain l where l: "l \<in> set (db_ledgers db)" "led_id l = i"
      "db' = db\<lparr>db_ledgers := update_where (\<lambda>x. led_id x = led_id l) (\<lambda>_. l') (db_ledgers db)\<rparr>"
    by (rule update_ledger_effect)
  have "sum_list (map g (db_ledgers db')) = sum_list (map g (db_ledgers db)) - g l + g l'"
    using sum_list_update_where[of led_id "db_ledgers db" l g "\<lambda>_. l'"] l assms(1)
    by (simp add: ledgers_inv_def)
  with l that show ?thesis by blast
qed

section \<open>Transactions, allocations, revocations and keys\<close>

lemma create_transaction_Inr_iff [result_simps]:
  "create_transaction_in_tx db t = Inr (t', db') \<longleftrightarrow>
     0 \<le> txn_balance_after t \<and>
     (case txn_topup_balance_after t of None \<Rightarrow> True | Some b \<Rightarrow> 0 \<le> b) \<and>
     (case txn_subscription_balance_after t of None \<Rightarrow> True | Some b \<Rightarrow> 0 \<le> b) \<and>
     (txn_distribution_event_id t = None) = (txn_distribution_rule_id t = None) \<and>
     txn_id t \<notin> txn_id ` set (db_transactions db) \<and>
     (txn_external_ref_id t = None \<or>
        (\<forall>x \<in> set (db_transactions db). \<not> (txn_user_id x = txn_user_id t \<and>
           txn_external_ref_id x = txn_external_ref_id t))) \<and>
     t' = t\<lparr>txn_effective_at := None\<rparr> \<and> db' = db\<lparr>db_transactions := db_transactions db @ [t']\<rparr>"
  unfolding create_transaction_in_tx_def key_unused_iff
  by (simp add: result_simps Let_def conj_ac) blast

lemma create_transaction_wf:
  assumes "db_wf env db" "create_transaction_in_tx db t = Inr (t', db')"
    "\<forall>n \<ge> db_seq db. env_uuid env n \<noteq> txn_id t"
  shows "db_wf env db'"
  using assms by (auto simp: result_simps db_wf_def db_inv_def ids_fresh_def)

lemma create_allocation_Inr_iff [result_simps]:
  "create_consumption_allocation_in_tx env db a = Inr db' \<longleftrightarrow>
     alloc_wallet_id a \<noteq> None \<and> 0 < alloc_allocated_amount a \<and> 0 \<le> alloc_ledger_remaining_after a \<and>
     db' = db\<lparr>db_allocations := db_allocations db @ [a]\<rparr>"
  by (auto simp: create_consumption_allocation_in_tx_def result_simps)

lemma create_allocation_wf:
  "db_wf env db \<Longrightarrow> create_consumption_allocation_in_tx env db a = Inr db' \<Longrightarrow> db_wf env db'"
  by (auto simp: result_simps db_wf_def db_inv_def ids_fresh_def)

lemma create_revocation_Inr_iff [result_simps]:
  "create_revocation_record_in_tx db r = Inr db' \<longleftrightarrow>
     0 < rev_revoked_amount r \<and> db' = db\<lparr>db_revocations := db_revocations db @ [r]\<rparr>"
  by (auto simp: create_revocation_record_in_tx_def result_simps)

lemma create_revocation_wf:
  "db_wf env db \<Longrightarrow> create_revocation_record_in_tx db r = Inr db' \<Longrightarrow> db_wf env db'"
  by (auto simp: result_simps db_wf_def db_inv_def ids_fresh_def)

lemma record_idempotency_frame:
  "record_completed_idempotency_in_tx env db realm k t =
     db\<lparr>db_seq := Suc (db_seq db),
        db_idempotency := db_idempotency (record_completed_idempotency_in_tx env db realm k t)\<rparr>"
  by (simp add: record_completed_idempotency_in_tx_def now_v7_def Let_def)

lemma record_idempotency_distinct:
  assumes "distinct (map (\<lambda>k. (idem_realm_id k, idem_key k)) (db_idempotency db))"
  shows "distinct (map (\<lambda>k. (idem_realm_id k, idem_key k))
           (db_idempotency (record_completed_idempotency_in_tx env db realm k t)))"
  using assms
  by (auto simp: record_completed_idempotency_in_tx_def now_v7_def Let_def map_update_where_same)

lemma record_idempotency_wf:
  assumes "db_wf env db"
  shows "db_wf env (record_completed_idempotency_in_tx env db realm k t)"
  using assms record_idempotency_distinct[of db env realm k t]
  by (subst record_idempotency_frame) (auto simp: db_wf_def db_inv_def ids_fresh_def)

lemma find_update_where_const:
  "\<exists>x \<in> set xs. p x \<Longrightarrow> (\<And>x. p x \<Longrightarrow> q (f x)) \<Longrightarrow> (\<And>x. \<not> p x \<Longrightarrow> \<not> q x) \<Longrightarrow>
     \<exists>x \<in> set xs. p x \<and> find q (update_where p f xs) = Some (f x)"
  by (induction xs) auto

text \<open>A recorded key is found, with its transaction, for the next 24 hours.\<close>

lemma check_after_record:
  assumes "env_sql_now env' < env_sql_now env + secs (24 * 3600)"
  shows "check_completed_idempotency_in_tx env'
           (record_completed_idempotency_in_tx env db realm k t) realm k = Some t"
proof (cases "\<exists>x \<in> set (db_idempotency db). idem_realm_id x = realm \<and> idem_key x = k")
  case True
  let ?p = "\<lambda>x. idem_realm_id x = realm \<and> idem_key x = k"
  let ?f = "\<lambda>x. x\<lparr>idem_transaction_id := Some t, idem_status := IdemCompleted,
    idem_expires_at := env_sql_now env + secs (24 * 3600), idem_updated_at := env_sql_now env\<rparr>"
  let ?q = "\<lambda>x. idem_realm_id x = realm \<and> idem_key x = k \<and> idem_status x = IdemCompleted \<and>
    env_sql_now env' < idem_expires_at x"
  obtain x where "find ?q (update_where ?p ?f (db_idempotency db)) = Some (?f x)"
    using find_update_where_const[of "db_idempotency db" ?p ?q ?f] True assms by auto
  with True show ?thesis
    by (simp add: check_completed_idempotency_in_tx_def record_completed_idempotency_in_tx_def
        now_v7_def Let_def)
next
  case False
  then have "find (\<lambda>x. idem_realm_id x = realm \<and> idem_key x = k \<and> P x) (db_idempotency db) = None" for P
    by (auto simp: find_None_iff)
  with False assms show ?thesis
    by (auto simp: check_completed_idempotency_in_tx_def record_completed_idempotency_in_tx_def
        now_v7_def Let_def find_append)
qed

section \<open>Derived balances\<close>

definition available_total :: "points_db \<Rightarrow> string \<Rightarrow> uuid \<Rightarrow> uuid list \<Rightarrow> instant \<Rightarrow> i64" where
  "available_total db realm_id user_id bucket_ids now =
     sum_list (map remaining_amount (available_ledgers db realm_id user_id bucket_ids now))"

lemma available_ledgers_positive:
  "l \<in> set (available_ledgers db r u bs now) \<Longrightarrow> 0 < remaining_amount l"
  by (auto simp: available_ledgers_def live_at_def)

lemma available_total_nonneg: "0 \<le> available_total db r u bs now"
  unfolding available_total_def
  by (intro sum_list_map_nonneg) (auto dest: available_ledgers_positive)

lemma sum_by_credit_type:
  fixes g :: "points_credit_ledger \<Rightarrow> int"
  shows "sum_list (map (\<lambda>t. sum_list (map g (filter (\<lambda>l. led_credit_type l = t) xs))) credit_types) =
         sum_list (map g xs)"
proof (induction xs)
  case Nil
  then show ?case by (simp add: credit_types_def)
next
  case (Cons l xs)
  then show ?case by (cases "led_credit_type l") (simp_all add: credit_types_def)
qed

lemma sum_list_filter_zero:
  "(\<And>x. x \<in> set xs \<Longrightarrow> \<not> p x \<Longrightarrow> (f x :: int) = 0) \<Longrightarrow>
     sum_list (map f (filter p xs)) = sum_list (map f xs)"
  by (induction xs) auto

lemma compute_available_balance_total:
  "sum_list (map snd (compute_available_balance db r u bs now)) = available_total db r u bs now"
proof -
  let ?rows = "available_ledgers db r u bs now"
  let ?f = "\<lambda>t. sum_list (map remaining_amount (filter (\<lambda>l. led_credit_type l = t) ?rows))"
  have "sum_list (map snd (compute_available_balance db r u bs now)) =
      sum_list (map ?f (filter (\<lambda>t. \<exists>l \<in> set ?rows. led_credit_type l = t) credit_types))"
    by (simp add: compute_available_balance_def Let_def comp_def)
  also have "\<dots> = sum_list (map ?f credit_types)"
  proof (rule sum_list_filter_zero)
    fix t assume "\<not> (\<exists>l \<in> set ?rows. led_credit_type l = t)"
    then have "filter (\<lambda>l. led_credit_type l = t) ?rows = []"
      by (auto simp: filter_empty_conv)
    then show "?f t = 0" by simp
  qed
  also have "\<dots> = available_total db r u bs now"
    by (simp add: sum_by_credit_type available_total_def)
  finally show ?thesis .
qed

lemma compute_available_balance_nonneg:
  "(t, n) \<in> set (compute_available_balance db r u bs now) \<Longrightarrow> 0 \<le> n"
  by (auto simp: compute_available_balance_def Let_def intro!: sum_list_map_nonneg
      dest!: available_ledgers_positive)

text \<open>The three snapshots are the total and the sums of the two snapshotted types.\<close>

lemma snapshot_fold:
  "foldl (\<lambda>(total, topup, subscription) (credit_type, amount).
            (total + amount,
             (if credit_type = TopupCredit
              then Some ((case topup of None \<Rightarrow> 0 | Some t \<Rightarrow> t) + amount) else topup),
             (if credit_type = SubscriptionCredit
              then Some ((case subscription of None \<Rightarrow> 0 | Some t \<Rightarrow> t) + amount) else subscription)))
     (a, Some b, Some c) d =
   (a + sum_list (map snd d),
    Some (b + sum_list (map snd (filter (\<lambda>p. fst p = TopupCredit) d))),
    Some (c + sum_list (map snd (filter (\<lambda>p. fst p = SubscriptionCredit) d))))"
proof (induction d arbitrary: a b c)
  case Nil
  then show ?case by simp
next
  case (Cons p d)
  obtain t n where p: "p = (t, n)" by (cases p)
  show ?case unfolding p by (cases t) (simp_all add: Cons.IH algebra_simps)
qed

lemma derived_to_balance_snapshots_eq:
  "derived_to_balance_snapshots d =
     (sum_list (map snd d), Some (sum_list (map snd (filter (\<lambda>p. fst p = TopupCredit) d))),
      Some (sum_list (map snd (filter (\<lambda>p. fst p = SubscriptionCredit) d))))"
  unfolding derived_to_balance_snapshots_def by (simp add: snapshot_fold)

lemma snapshots_nonneg:
  assumes "derived_to_balance_snapshots (compute_available_balance db r u bs now) = (b, t, s)"
  shows "0 \<le> b" "\<exists>t'. t = Some t' \<and> 0 \<le> t'" "\<exists>s'. s = Some s' \<and> 0 \<le> s'"
  using assms compute_available_balance_nonneg[of _ _ db r u bs now]
  by (auto simp: derived_to_balance_snapshots_eq intro!: sum_list_map_nonneg)

end
