(* ===== verification/PointsConsume.thy ===== *)
theory PointsConsume
  imports PointsTables
begin

text \<open>
  Consumption: the pure planners of \<open>domain/src/points/service.rs\<close> and
  \<open>infra/src/points/postgres_repository.rs\<close>, and the whole of
  \<open>consume_points_atomic\<close>: idempotent replay, coverage, wallet locks, window-first split,
  allocation over the pool ledgers in expiry order, the transactions, allocations and the
  idempotency record it writes.
\<close>

section \<open>Planners\<close>

datatype mixed_consume_plan = PlanOk i64 i64 | PlanInsufficient

definition plan_mixed_consume :: "i64 \<Rightarrow> i64 \<Rightarrow> i64 \<Rightarrow> mixed_consume_plan" where
  "plan_mixed_consume window_available pool_available amount =
     (let window_avail = max window_available 0; pool_avail = max pool_available 0 in
      if amount > window_avail + pool_avail then PlanInsufficient
      else (let window_part = min amount window_avail in PlanOk window_part (amount - window_part)))"

record window_credit_split =
  sub_part :: i64
  free_part :: i64
  window_remainder :: i64

definition split_window_part_by_credit_type :: "i64 \<Rightarrow> i64 \<Rightarrow> i64 \<Rightarrow> window_credit_split" where
  "split_window_part_by_credit_type window_part subscription_spendable free_spendable =
     (let sub_spendable = max subscription_spendable 0;
          free_spend = max free_spendable 0;
          sub = min window_part sub_spendable;
          free = min (window_part - sub) free_spend
      in \<lparr>sub_part = sub, free_part = free, window_remainder = window_part - sub - free\<rparr>)"

record consume_plan =
  cp_allocations :: "(nat \<times> i64) list"
  cp_fully_covers :: bool

text \<open>The loop over the locked ledgers: the allocations still to push and what stays uncovered.\<close>

fun plan_allocation_loop :: "nat \<Rightarrow> points_credit_ledger list \<Rightarrow> i64 \<Rightarrow> (nat \<times> i64) list \<times> i64" where
  "plan_allocation_loop index [] remaining = ([], remaining)"
| "plan_allocation_loop index (l # ls) remaining =
     (if remaining \<le> 0 then ([], remaining)
      else if remaining_amount l \<le> 0 then plan_allocation_loop (Suc index) ls remaining
      else (let take = min (remaining_amount l) remaining;
                (allocs, rest) = plan_allocation_loop (Suc index) ls (remaining - take)
            in ((index, take) # allocs, rest)))"

definition plan_consume_allocation :: "points_credit_ledger list \<Rightarrow> i64 \<Rightarrow> consume_plan" where
  "plan_consume_allocation ledgers amount =
     (let (allocs, rest) = plan_allocation_loop 0 ledgers amount
      in \<lparr>cp_allocations = allocs, cp_fully_covers = rest \<le> 0\<rparr>)"

section \<open>Replay\<close>

definition replay_consume_by_primary ::
  "points_db \<Rightarrow> string \<Rightarrow> uuid \<Rightarrow> (core_error, points_transaction list) result" where
  "replay_consume_by_primary db realm_id primary_txn_id =
     and_then (ok_or (find (\<lambda>t. txn_realm_id t = realm_id \<and> txn_id t = primary_txn_id)
                        (db_transactions db)) NotFound) (\<lambda>primary.
     case txn_correlation_id primary of
       None \<Rightarrow> Inr [primary]
     | Some correlation_id \<Rightarrow>
         Inr (sort_key (\<lambda>t. (txn_bucket_id t, txn_created_at t))
           (filter (\<lambda>t. txn_realm_id t = realm_id \<and> txn_correlation_id t = Some correlation_id)
             (db_transactions db))))"

section \<open>The consume transaction\<close>

definition find_covered_bucket_ids_in_tx :: "points_db \<Rightarrow> string \<Rightarrow> uuid \<Rightarrow> uuid list" where
  "find_covered_bucket_ids_in_tx db realm_id client_app_id =
     sort (map bca_bucket_id
       (filter (\<lambda>a. bca_realm_id a = realm_id \<and> bca_client_app_id a = client_app_id \<and>
                    (\<exists>b \<in> set (db_buckets db). bkt_id b = bca_bucket_id a))
         (db_bucket_apps db)))"

definition lock_bucket_wallet ::
  "env \<Rightarrow> string \<Rightarrow> uuid \<Rightarrow> (uuid \<times> uuid) list \<times> points_db \<Rightarrow> uuid
     \<Rightarrow> (core_error, (uuid \<times> uuid) list \<times> points_db) result" where
  "lock_bucket_wallet env realm_id user_id s bucket_id =
     (case s of (bucket_wallets, db) \<Rightarrow>
      and_then (ensure_wallet_in_tx env db realm_id user_id bucket_id) (\<lambda>(wallet, db').
      and_then (ensure (wal_status wallet = WalletActive)
                 (BadRequest (''Cannot consume points from '' @
                    wallet_status_as_str (wal_status wallet) @ '' wallet''))) (\<lambda>_.
        Inr (bt_upsert bucket_id (\<lambda>_. wal_id wallet) bucket_wallets, db'))))"

definition bucket_window_headroom :: "points_db \<Rightarrow> string \<Rightarrow> uuid \<Rightarrow> instant \<Rightarrow> uuid \<Rightarrow> i64" where
  "bucket_window_headroom db realm_id user_id now bucket_id =
     compute_window_spendable_in_tx db realm_id user_id bucket_id SubscriptionCredit now +
     compute_window_spendable_in_tx db realm_id user_id bucket_id FreePeriodicCredit now"

text \<open>Per touched bucket: its wallet, the amount taken from its ledgers and the transaction id.\<close>

type_synonym bucket_totals = "(uuid \<times> uuid \<times> i64 \<times> uuid) list"

definition consume_pool_step ::
  "env \<Rightarrow> string \<Rightarrow> uuid \<Rightarrow> instant \<Rightarrow> (uuid \<times> uuid) list \<Rightarrow> points_credit_ledger list
     \<Rightarrow> bucket_totals \<times> points_consumption_allocation list \<times> points_db \<Rightarrow> nat \<times> i64
     \<Rightarrow> (core_error, bucket_totals \<times> points_consumption_allocation list \<times> points_db) result" where
  "consume_pool_step env realm_id user_id now bucket_wallets ledgers s planned =
     (case (s, planned) of ((per_bucket, allocations, db), (ledger_index, amount)) \<Rightarrow>
      (let ledger = ledgers ! ledger_index; bucket_id = led_bucket_id ledger in
       and_then (update_ledger_in_tx env db (led_id ledger) (Consumption amount)) (\<lambda>(upd, db1).
       and_then (ok_or (map_of bucket_wallets bucket_id)
                  (InternalServerError ''bucket_wallets covers every covered bucket (Step 4b)'')) (\<lambda>wallet_id.
       (let (tot, tid, db2) =
              (case map_of per_bucket bucket_id of
                 Some (_, tot, tid) \<Rightarrow> (tot, tid, db1)
               | None \<Rightarrow> (let (t, db2) = now_v7 env db1 in (0, t, db2)));
            (a, db3) = now_v7 env db2
        in Inr (bt_upsert bucket_id (\<lambda>_. (wallet_id, tot + amount, tid)) per_bucket,
                allocations @ [\<lparr>alloc_id = a, alloc_transaction_id = tid,
                   alloc_ledger_id = led_id upd, alloc_wallet_id = Some wallet_id,
                   alloc_user_id = user_id, alloc_realm_id = realm_id, alloc_bucket_id = bucket_id,
                   alloc_allocated_amount = amount,
                   alloc_ledger_remaining_after = remaining_amount upd,
                   alloc_created_at = now\<rparr>],
                db3))))))"

record consume_request =
  cr_realm_id :: string
  cr_user_id :: uuid
  cr_client_app_id :: uuid
  cr_amount :: i64
  cr_description :: "string option"
  cr_idempotency_key :: "string option"

text \<open>One consume row of a bucket: the wallet counter, the balance snapshot and the row itself.\<close>

definition write_consume_transaction ::
  "env \<Rightarrow> consume_request \<Rightarrow> string \<Rightarrow> points_db \<Rightarrow> uuid \<Rightarrow> uuid \<Rightarrow> uuid \<Rightarrow> credit_type option \<Rightarrow> i64
     \<Rightarrow> points_transaction tx" where
  "write_consume_transaction env req correlation_id db tid wallet_id bucket_id credit_type amount =
     and_then (apply_wallet_delta_in_tx env db wallet_id (consumed_delta amount)) (\<lambda>(_, db1).
     (let (balance_after, topup_after, subscription_after) =
            derived_to_balance_snapshots
              (compute_available_balance db1 (cr_realm_id req) (cr_user_id req) [bucket_id] (env_now env))
      in create_transaction_in_tx db1
           \<lparr>txn_id = tid, txn_wallet_id = wallet_id, txn_user_id = cr_user_id req,
            txn_realm_id = cr_realm_id req, txn_bucket_id = bucket_id,
            txn_transaction_type = Consume, txn_amount = - amount, txn_balance_after = balance_after,
            txn_topup_balance_after = topup_after,
            txn_subscription_balance_after = subscription_after, txn_credit_type = credit_type,
            txn_description = cr_description req, txn_client_app_id = Some (cr_client_app_id req),
            txn_subscription_id = None, txn_external_ref_id = None,
            txn_correlation_id = Some correlation_id, txn_effective_at = None,
            txn_distribution_event_id = None, txn_distribution_rule_id = None,
            txn_created_at = env_now env\<rparr>))"

definition consume_window_part ::
  "env \<Rightarrow> consume_request \<Rightarrow> string \<Rightarrow> uuid \<Rightarrow> uuid
     \<Rightarrow> i64 \<times> points_transaction list \<times> points_db \<Rightarrow> credit_type \<times> i64
     \<Rightarrow> (core_error, i64 \<times> points_transaction list \<times> points_db) result" where
  "consume_window_part env req correlation_id wallet_id bucket_id s p =
     (case (s, p) of ((consumed, transactions, db), (credit_type, part)) \<Rightarrow>
      if part \<le> 0 then Inr s
      else (let (i, db1) = now_v7 env db in
        and_then (write_consume_transaction env req correlation_id db1 i wallet_id bucket_id
                    (Some credit_type) part) (\<lambda>(t, db2).
          Inr (consumed + part, transactions @ [t], db2))))"

text \<open>
  One bucket of the window loop; the state is what is left of \<open>window_part\<close>, the sum of
  \<open>window_per_bucket\<close>, the transactions written and the database.
\<close>

definition consume_window_step ::
  "env \<Rightarrow> consume_request \<Rightarrow> string \<Rightarrow> (uuid \<times> uuid) list
     \<Rightarrow> i64 \<times> i64 \<times> points_transaction list \<times> points_db \<Rightarrow> uuid
     \<Rightarrow> (core_error, i64 \<times> i64 \<times> points_transaction list \<times> points_db) result" where
  "consume_window_step env req correlation_id bucket_wallets s bucket_id =
     (case s of (window_remaining, consumed, transactions, db) \<Rightarrow>
      if window_remaining \<le> 0 then Inr s
      else (let sub_spendable = compute_window_spendable_in_tx db (cr_realm_id req) (cr_user_id req)
                  bucket_id SubscriptionCredit (env_now env);
                free_spendable = compute_window_spendable_in_tx db (cr_realm_id req) (cr_user_id req)
                  bucket_id FreePeriodicCredit (env_now env);
                split = split_window_part_by_credit_type window_remaining sub_spendable free_spendable
        in and_then (ok_or (map_of bucket_wallets bucket_id)
                (InternalServerError ''bucket_wallets covers every covered bucket (Step 4b)'')) (\<lambda>wallet_id.
           and_then (try_fold (consume_window_part env req correlation_id wallet_id bucket_id)
                (consumed, transactions, db)
                [(SubscriptionCredit, sub_part split), (FreePeriodicCredit, free_part split)])
             (\<lambda>(consumed', transactions', db'). Inr (window_remainder split, consumed', transactions', db')))))"

definition consume_pool_transaction ::
  "env \<Rightarrow> consume_request \<Rightarrow> string \<Rightarrow> points_transaction list \<times> points_db \<Rightarrow> uuid \<times> uuid \<times> i64 \<times> uuid
     \<Rightarrow> (core_error, points_transaction list \<times> points_db) result" where
  "consume_pool_transaction env req correlation_id s entry =
     (case (s, entry) of ((transactions, db), (bucket_id, wallet_id, tot, tid)) \<Rightarrow>
      and_then (write_consume_transaction env req correlation_id db tid wallet_id bucket_id None tot)
        (\<lambda>(t, db'). Inr (transactions @ [t], db')))"

text \<open>Steps 4 to 8, after the replay check and with the covered buckets known.\<close>

definition consume_fresh :: "env \<Rightarrow> consume_request \<Rightarrow> string \<Rightarrow> uuid list \<Rightarrow> points_db \<Rightarrow> points_transaction list tx" where
  "consume_fresh env req correlation_id covered db0 =
     and_then (try_fold (lock_bucket_wallet env (cr_realm_id req) (cr_user_id req)) ([], db0) covered)
       (\<lambda>(bucket_wallets, db1).
     (let ledgers = find_active_ledgers_by_expiration env db1 (cr_realm_id req) (cr_user_id req) covered;
          pool_available = sum_list (map remaining_amount ledgers);
          window_avail_total = sum_list (map
            (bucket_window_headroom db1 (cr_realm_id req) (cr_user_id req) (env_now env)) covered)
      in case plan_mixed_consume window_avail_total pool_available (cr_amount req) of
           PlanInsufficient \<Rightarrow>
             Inl (insufficient_points (cr_amount req) (window_avail_total + pool_available))
         | PlanOk window_part pool_part \<Rightarrow>
     (let plan = plan_consume_allocation ledgers pool_part in
      and_then (ensure (\<not> (0 < pool_part \<and> \<not> cp_fully_covers plan))
                 (InternalServerError (''pool consume allocation drift: planned '' @ show_int pool_part @
                    '' but ledgers cover < pool_part''))) (\<lambda>_.
      and_then (try_fold (consume_pool_step env (cr_realm_id req) (cr_user_id req) (env_now env)
                   bucket_wallets ledgers) ([], [], db1) (cp_allocations plan))
        (\<lambda>(per_bucket, allocations, db2).
      (let pool_consumed_total = sum_list (map (\<lambda>(b, w, tot, t). tot) per_bucket) in
      and_then (ensure (pool_consumed_total = pool_part)
                 (InternalServerError (''consume pool allocation drift: planned '' @ show_int pool_part @
                    '' but accumulated '' @ show_int pool_consumed_total))) (\<lambda>_.
      and_then (try_fold (consume_window_step env req correlation_id bucket_wallets)
                  (window_part, 0, [], db2) covered)
        (\<lambda>(_, window_consumed_total, transactions, db3).
      and_then (ensure (window_consumed_total = window_part)
                 (InternalServerError (''consume window allocation drift: planned '' @ show_int window_part @
                    '' but accumulated '' @ show_int window_consumed_total))) (\<lambda>_.
      and_then (try_fold (consume_pool_transaction env req correlation_id) (transactions, db3) per_bucket)
        (\<lambda>(transactions', db4).
      and_then (try_fold (create_consumption_allocation_in_tx env) db4 allocations) (\<lambda>db5.
        Inr (transactions', db5))))))))))))"

definition consume_points_atomic :: "env \<Rightarrow> consume_request \<Rightarrow> points_db \<Rightarrow> points_transaction list tx" where
  "consume_points_atomic env req db =
     (case Option.bind (cr_idempotency_key req)
             (check_completed_idempotency_in_tx env db (cr_realm_id req)) of
        Some primary_txn_id \<Rightarrow>
          and_then (replay_consume_by_primary db (cr_realm_id req) primary_txn_id)
            (\<lambda>replayed. Inr (replayed, db))
      | None \<Rightarrow>
     (let (c, db0) = now_v7 env db;
          correlation_id = env_uuid_str env c;
          covered = find_covered_bucket_ids_in_tx db0 (cr_realm_id req) (cr_client_app_id req)
      in if covered = [] then Inl (NoCoveredPointsPool (cr_client_app_id req))
      else and_then (consume_fresh env req correlation_id covered db0) (\<lambda>(transactions, db').
        case cr_idempotency_key req of
          None \<Rightarrow> Inr (transactions, db')
        | Some key \<Rightarrow>
            (case transactions of
               [] \<Rightarrow> Inl (InternalServerError ''consume produced no transactions'')
             | t # _ \<Rightarrow> Inr (transactions,
                 record_completed_idempotency_in_tx env db' (cr_realm_id req) key (txn_id t))))))"

section \<open>What the planners promise\<close>

lemma plan_mixed_consume_Ok_iff:
  "plan_mixed_consume wa pa amount = PlanOk w p \<longleftrightarrow>
     amount \<le> max wa 0 + max pa 0 \<and> w = min amount (max wa 0) \<and> p = amount - w"
  by (auto simp: plan_mixed_consume_def Let_def)

lemma plan_mixed_consume_Insufficient_iff:
  "plan_mixed_consume wa pa amount = PlanInsufficient \<longleftrightarrow> max wa 0 + max pa 0 < amount"
  by (auto simp: plan_mixed_consume_def Let_def)

lemma split_window_parts:
  fixes wp sub free :: int
  assumes "0 \<le> wp"
  defines "s \<equiv> split_window_part_by_credit_type wp sub free"
  shows "0 \<le> sub_part s" "sub_part s \<le> max sub 0" "0 \<le> free_part s" "free_part s \<le> max free 0"
    "sub_part s + free_part s + window_remainder s = wp"
    "window_remainder s = max 0 (wp - (max sub 0 + max free 0))"
    "0 < free_part s \<Longrightarrow> sub_part s = max sub 0"
  using assms by (auto simp: split_window_part_by_credit_type_def Let_def min_def max_def split: if_splits)

text \<open>
  The reference allocation: ledger \<open>i\<close> gives whatever of the request the ledgers before it
  could not cover, up to its own remaining amount.
\<close>

definition pool_capacity :: "points_credit_ledger list \<Rightarrow> i64" where
  "pool_capacity ls = sum_list (map (\<lambda>l. max 0 (remaining_amount l)) ls)"

definition greedy_take :: "points_credit_ledger list \<Rightarrow> i64 \<Rightarrow> nat \<Rightarrow> i64" where
  "greedy_take ls amount i =
     min (max 0 (remaining_amount (ls ! i))) (max 0 (amount - pool_capacity (take i ls)))"

lemma pool_capacity_simps [simp]:
  "pool_capacity [] = 0"
  "pool_capacity (l # ls) = max 0 (remaining_amount l) + pool_capacity ls"
  "pool_capacity (xs @ ys) = pool_capacity xs + pool_capacity ys"
  by (simp_all add: pool_capacity_def)

lemma pool_capacity_nonneg [simp]: "0 \<le> pool_capacity ls"
  by (induction ls) auto

lemma pool_capacity_positive:
  "(\<And>l. l \<in> set ls \<Longrightarrow> 0 \<le> remaining_amount l) \<Longrightarrow>
     pool_capacity ls = sum_list (map remaining_amount ls)"
  by (induction ls) auto

lemma plan_allocation_loop_rest:
  "snd (plan_allocation_loop i ls amount) = (if amount \<le> 0 then amount else max 0 (amount - pool_capacity ls))"
proof (induction i ls amount rule: plan_allocation_loop.induct)
  case (1 index remaining)
  then show ?case by simp
next
  case (2 index l ls remaining)
  then show ?case
    using pool_capacity_nonneg[of ls]
    by (auto simp: Let_def split_beta min_def max_def simp del: pool_capacity_nonneg)
qed

lemma plan_allocation_loop_sum:
  "sum_list (map snd (fst (plan_allocation_loop i ls amount))) =
     amount - snd (plan_allocation_loop i ls amount)"
  by (induction i ls amount rule: plan_allocation_loop.induct) (auto simp: Let_def split_beta)

lemma plan_allocation_loop_member:
  "(j, a) \<in> set (fst (plan_allocation_loop i ls amount)) \<Longrightarrow>
     i \<le> j \<and> j < i + length ls \<and> 0 < a \<and> a \<le> remaining_amount (ls ! (j - i))"
proof (induction i ls amount rule: plan_allocation_loop.induct)
  case (1 index remaining)
  then show ?case by simp
next
  case (2 index l ls remaining)
  then show ?case
    by (fastforce simp: Let_def split_beta nth_Cons' split: if_splits)
qed

lemma plan_allocation_loop_distinct:
  "distinct (map fst (fst (plan_allocation_loop i ls amount)))"
proof (induction i ls amount rule: plan_allocation_loop.induct)
  case (1 index remaining)
  then show ?case by simp
next
  case (2 index l ls remaining)
  have "index \<notin> fst ` set (fst (plan_allocation_loop (Suc index) ls r))" for r
    by (fastforce dest: plan_allocation_loop_member)
  with 2 show ?case
    by (auto simp: Let_def split_beta)
qed

lemma greedy_loop_exhausted:
  "amount \<le> 0 \<Longrightarrow> filter (\<lambda>x. 0 < snd x) (map (\<lambda>i. (n + i, greedy_take ls amount i)) [0..<length ls]) = []"
proof -
  assume "amount \<le> 0"
  then have "amount - pool_capacity (take i ls) \<le> 0" for i
    using pool_capacity_nonneg[of "take i ls"] by linarith
  then have "greedy_take ls amount i \<le> 0" for i
    by (simp add: greedy_take_def)
  then show ?thesis
    by (auto simp: filter_empty_conv not_less)
qed

lemma plan_allocation_loop_greedy:
  "fst (plan_allocation_loop n ls amount) =
     filter (\<lambda>x. 0 < snd x) (map (\<lambda>i. (n + i, greedy_take ls amount i)) [0..<length ls])"
proof (induction n ls amount rule: plan_allocation_loop.induct)
  case (1 index remaining)
  then show ?case by simp
next
  case (2 index l ls remaining)
  have shift: "map (\<lambda>i. (index + i, greedy_take (l # ls) remaining i)) [0..<length (l # ls)] =
      (index, greedy_take (l # ls) remaining 0) #
      map (\<lambda>i. (Suc index + i, greedy_take ls (remaining - max 0 (remaining_amount l)) i)) [0..<length ls]"
    by (simp add: upt_conv_Cons map_Suc_upt[symmetric] greedy_take_def algebra_simps del: upt_Suc)
  consider "remaining \<le> 0" | "0 < remaining" "remaining_amount l \<le> 0"
    | "0 < remaining" "0 < remaining_amount l" by linarith
  then show ?case
  proof cases
    case 1
    then show ?thesis
      using greedy_loop_exhausted[of remaining index "l # ls"] by simp
  next
    case 2
    then have "max 0 (remaining_amount l) = 0" by simp
    with 2 "2.IH"(1) show ?thesis
      unfolding shift by (simp add: greedy_take_def)
  next
    case 3
    have "fst (plan_allocation_loop (Suc index) ls (remaining - min (remaining_amount l) remaining)) =
        filter (\<lambda>x. 0 < snd x)
          (map (\<lambda>i. (Suc index + i, greedy_take ls (remaining - remaining_amount l) i)) [0..<length ls])"
    proof (cases "remaining_amount l \<le> remaining")
      case True
      with 3 "2.IH"(2) show ?thesis by (simp add: min_def)
    next
      case False
      then have "remaining - remaining_amount l - pool_capacity (take i ls) \<le> 0" for i
        using pool_capacity_nonneg[of "take i ls"] by linarith
      then have "greedy_take ls (remaining - remaining_amount l) i \<le> 0" for i
        by (simp add: greedy_take_def)
      with False 3 show ?thesis
        by (cases ls) (auto simp: min_def filter_empty_conv not_less)
    qed
    moreover from 3 have "greedy_take (l # ls) remaining 0 = min (remaining_amount l) remaining"
      by (simp add: greedy_take_def)
    moreover from 3 have "max 0 (remaining_amount l) = remaining_amount l" by simp
    ultimately show ?thesis
      using 3 unfolding shift by (simp add: Let_def split_beta)
  qed
qed

lemma plan_consume_allocation_simps:
  "cp_allocations (plan_consume_allocation ls amount) = fst (plan_allocation_loop 0 ls amount)"
  "cp_fully_covers (plan_consume_allocation ls amount) \<longleftrightarrow> snd (plan_allocation_loop 0 ls amount) \<le> 0"
  by (simp_all add: plan_consume_allocation_def split_beta Let_def)

lemma plan_covers_iff: "cp_fully_covers (plan_consume_allocation ls amount) \<longleftrightarrow> amount \<le> pool_capacity ls \<or> amount \<le> 0"
  by (auto simp: plan_consume_allocation_simps plan_allocation_loop_rest)

end
