(* ===== verification/PointsConsumeCorrect.thy ===== *)
theory PointsConsumeCorrect
  imports PointsInvariant PointsConsume
begin

text \<open>
  Correctness of \<open>consume_points_atomic\<close>: what each phase of the transaction reads and
  writes, and from that the conservation of points, the isolation of other rows, the window
  limits, the absence of the drift errors and the idempotent replay.
\<close>

section \<open>Tables a consume never writes\<close>

definition untouched where
  "untouched db = (db_accounts db, db_buckets db, db_bucket_apps db, db_entitlements db, db_events db,
     db_refunds db, db_revocations db, db_idempotency db)"

lemma untouched_updates [simp]:
  "untouched (db\<lparr>db_seq := n\<rparr>) = untouched db"
  "untouched (db\<lparr>db_wallets := ws\<rparr>) = untouched db"
  "untouched (db\<lparr>db_ledgers := ls\<rparr>) = untouched db"
  "untouched (db\<lparr>db_transactions := ts\<rparr>) = untouched db"
  "untouched (db\<lparr>db_allocations := as\<rparr>) = untouched db"
  by (simp_all add: untouched_def)

section \<open>Phase 1: wallets\<close>

definition locked :: "points_db \<Rightarrow> string \<Rightarrow> uuid \<Rightarrow> (uuid \<times> uuid) list \<Rightarrow> uuid \<Rightarrow> bool" where
  "locked db r u bw b \<longleftrightarrow> (\<exists>w \<in> set (db_wallets db).
     map_of bw b = Some (wal_id w) \<and> wallet_key w = (r, u, Some b) \<and> wal_status w = WalletActive)"

lemma lock_bucket_wallet_step:
  assumes "lock_bucket_wallet env r u (bw, db) b = Inr (bw', db')"
    and "db_wf env db" "sorted_wrt (<) (map fst bw)"
  shows "db_wf env db'" "sorted_wrt (<) (map fst bw')" "locked db' r u bw' b"
    "\<And>b'. b' \<noteq> b \<Longrightarrow> locked db r u bw b' \<Longrightarrow> locked db' r u bw' b'"
    "untouched db' = untouched db" "db_ledgers db' = db_ledgers db"
    "db_transactions db' = db_transactions db" "db_allocations db' = db_allocations db"
    "db_seq db \<le> db_seq db'" "set (map fst bw') = insert b (set (map fst bw))"
proof -
  from assms(1) obtain w where w: "ensure_wallet_in_tx env db r u b = Inr (w, db')"
      "wal_status w = WalletActive" "bw' = bt_upsert b (\<lambda>_. wal_id w) bw"
    by (auto simp: lock_bucket_wallet_def result_simps)
  show "db_wf env db'" using ensure_wallet_wf(1)[OF assms(2) w(1)] .
  show "sorted_wrt (<) (map fst bw')"
    unfolding w(3) by (rule sorted_bt_upsert[OF assms(3)])
  show keys: "set (map fst bw') = insert b (set (map fst bw))"
    unfolding w(3) by (rule set_keys_bt_upsert)
  have key: "wallet_key w = (r, u, Some b)"
    using w(1) by (cases rule: ensure_wallet_InrE) auto
  with w ensure_wallet_wf(2)[OF assms(2) w(1)] show "locked db' r u bw' b"
    by (auto simp: locked_def map_of_bt_upsert[OF assms(3)])
  have sub: "set (db_wallets db) \<subseteq> set (db_wallets db')"
    using w(1) by (cases rule: ensure_wallet_InrE) auto
  then show "\<And>b'. b' \<noteq> b \<Longrightarrow> locked db r u bw b' \<Longrightarrow> locked db' r u bw' b'"
    unfolding locked_def w(3) by (auto simp: map_of_bt_upsert[OF assms(3)])
  show "untouched db' = untouched db" "db_ledgers db' = db_ledgers db"
    "db_transactions db' = db_transactions db" "db_allocations db' = db_allocations db"
    "db_seq db \<le> db_seq db'"
    using w(1) by (cases rule: ensure_wallet_InrE; simp add: untouched_def)+
qed

lemma lock_wallets_effect:
  assumes "try_fold (lock_bucket_wallet env r u) (bw0, db0) bs = Inr (bw, db)"
    and "db_wf env db0" "sorted_wrt (<) (map fst bw0)"
  shows "db_wf env db \<and> untouched db = untouched db0 \<and> db_ledgers db = db_ledgers db0 \<and>
    db_transactions db = db_transactions db0 \<and> db_allocations db = db_allocations db0 \<and>
    db_seq db0 \<le> db_seq db \<and> (\<forall>b \<in> set bs. locked db r u bw b) \<and>
    (\<forall>b. locked db0 r u bw0 b \<longrightarrow> locked db r u bw b)"
  using assms
proof (induction bs arbitrary: bw0 db0)
  case Nil
  then show ?case by simp
next
  case (Cons b bs)
  from Cons.prems(1) obtain bw1 db1 where
    step: "lock_bucket_wallet env r u (bw0, db0) b = Inr (bw1, db1)" and
    rest: "try_fold (lock_bucket_wallet env r u) (bw1, db1) bs = Inr (bw, db)"
    by (auto simp: result_simps)
  note s = lock_bucket_wallet_step[OF step Cons.prems(2,3)]
  from Cons.IH[OF rest s(1,2)] s show ?case
    by (metis le_trans set_ConsD)
qed

section \<open>Phase 2: the pool ledgers\<close>

definition totals :: "bucket_totals \<Rightarrow> i64" where
  "totals pb = sum_list (map (\<lambda>(b, w, tot, t). tot) pb)"

definition ledger_sum :: "points_db \<Rightarrow> i64" where
  "ledger_sum db = sum_list (map remaining_amount (db_ledgers db))"

text \<open>
  The bookkeeping of the pool loop: each touched bucket has its locked wallet, a positive
  total and a transaction id drawn in this consume, and the allocations are insertable.
\<close>

definition pool_acc_ok ::
  "env \<Rightarrow> nat \<Rightarrow> (uuid \<times> uuid) list \<Rightarrow> bucket_totals \<times> points_consumption_allocation list \<times> points_db \<Rightarrow> bool" where
  "pool_acc_ok env n0 bw s \<longleftrightarrow> (case s of (pb, allocs, db) \<Rightarrow>
     sorted_wrt (<) (map fst pb) \<and>
     (\<forall>(b, w, tot, t) \<in> set pb. map_of bw b = Some w \<and> 0 < tot \<and>
        (\<exists>n. n0 \<le> n \<and> n < db_seq db \<and> t = env_uuid env n)) \<and>
     distinct (map (\<lambda>(b, w, tot, t). t) pb) \<and>
     (\<forall>a \<in> set allocs. alloc_wallet_id a \<noteq> None \<and> 0 < alloc_allocated_amount a \<and>
        0 \<le> alloc_ledger_remaining_after a) \<and>
     sum_list (map alloc_allocated_amount allocs) = totals pb \<and> n0 \<le> db_seq db)"

lemma totals_upsert:
  assumes "sorted_wrt (<) (map fst pb)"
  shows "totals (bt_upsert b (\<lambda>_. (w, tot, t)) pb) =
    totals pb + tot - (case map_of pb b of None \<Rightarrow> 0 | Some (w0, tot0, t0) \<Rightarrow> tot0)"
proof -
  have "totals m = sum_list (map ((\<lambda>(w, tot, t). tot) \<circ> snd) m)" for m
    by (auto simp: totals_def intro!: arg_cong[where f = sum_list])
  then show ?thesis
    using sum_bt_upsert[OF assms, of "\<lambda>(w, tot, t). tot" b "\<lambda>_. (w, tot, t)"]
    by (auto split: option.splits)
qed

text \<open>The accumulator after one iteration, from the two ways a bucket is met.\<close>

lemma consume_pool_step_acc:
  assumes "consume_pool_step env r u now bw ls (pb, allocs, db) (i, amount) = Inr (pb', allocs', db')"
  obtains w tot t n upd dbu where
    "update_ledger_in_tx env db (led_id (ls ! i)) (Consumption amount) = Inr (upd, dbu)"
    "map_of bw (led_bucket_id (ls ! i)) = Some w"
    "pb' = bt_upsert (led_bucket_id (ls ! i)) (\<lambda>_. (w, tot + amount, t)) pb"
    "db' = dbu\<lparr>db_seq := Suc n\<rparr>" "db_seq db \<le> n"
    "(\<exists>w0. map_of pb (led_bucket_id (ls ! i)) = Some (w0, tot, t)) \<or>
     (map_of pb (led_bucket_id (ls ! i)) = None \<and> tot = 0 \<and> t = env_uuid env (db_seq db) \<and> db_seq db < n)"
    "\<exists>a. allocs' = allocs @ [a] \<and> alloc_wallet_id a = Some w \<and> alloc_allocated_amount a = amount \<and>
         alloc_ledger_remaining_after a = remaining_amount upd"
proof -
  from assms obtain upd dbu w where u:
      "update_ledger_in_tx env db (led_id (ls ! i)) (Consumption amount) = Inr (upd, dbu)"
      "map_of bw (led_bucket_id (ls ! i)) = Some w"
    by (auto simp: consume_pool_step_def Let_def result_simps split: option.splits)
  from update_ledger_frame[OF u(1)] have seq: "db_seq dbu = db_seq db"
    by (metis points_db.select_convs(13) points_db.surjective points_db.update_convs(5))
  show ?thesis
  proof (cases "map_of pb (led_bucket_id (ls ! i))")
    case None
    with assms u seq show ?thesis
      by (intro that[of upd dbu w 0 "env_uuid env (db_seq db)" "Suc (db_seq db)"])
        (auto simp: consume_pool_step_def Let_def now_v7_def)
  next
    case (Some v)
    obtain w0 tot t where v: "v = (w0, tot, t)" by (cases v)
    with assms u seq Some show ?thesis
      by (intro that[of upd dbu w tot t "db_seq db"])
        (auto simp: consume_pool_step_def Let_def now_v7_def)
  qed
qed

text \<open>One iteration: exactly one ledger row loses \<open>amount\<close>; nothing else but \<open>db_seq\<close> changes.\<close>

lemma consume_pool_step_db:
  assumes "consume_pool_step env r u now bw ls (pb, allocs, db) (i, amount) = Inr (pb', allocs', db')"
    and "db_wf env db" "0 < amount"
  obtains upd dbu n where
    "update_ledger_in_tx env db (led_id (ls ! i)) (Consumption amount) = Inr (upd, dbu)"
    "db' = dbu\<lparr>db_seq := n\<rparr>" "db_seq db \<le> n" "db_wf env db'" "untouched db' = untouched db"
    "db_wallets db' = db_wallets db" "db_transactions db' = db_transactions db"
    "db_allocations db' = db_allocations db" "ledger_sum db' = ledger_sum db - amount"
    "0 \<le> remaining_amount upd"
proof -
  from assms(1) obtain upd dbu n where u:
      "update_ledger_in_tx env db (led_id (ls ! i)) (Consumption amount) = Inr (upd, dbu)"
      "db' = dbu\<lparr>db_seq := n\<rparr>" "db_seq db \<le> n"
    by (rule consume_pool_step_acc) (metis le_SucI)
  have inv: "ledgers_inv (db_ledgers db)" using assms(2) by (simp add: db_wf_def db_inv_def)
  obtain lsu where lsu: "dbu = db\<lparr>db_ledgers := lsu\<rparr>"
    using update_ledger_frame[OF u(1)] by blast
  have "db_wf env dbu"
    using update_ledger_wf[OF assms(2) u(1)] assms(3) by (simp add: keeps_status_ok_def)
  then have wf: "db_wf env db'"
    using u(2,3) lsu by (auto simp: db_wf_def intro: ids_fresh_seq)
  from inv u(1) obtain l l0 where l: "l \<in> set (db_ledgers db)" "led_id l = led_id (ls ! i)"
      "updated_ledger (Consumption amount) l = Inr l0" "upd = l0\<lparr>led_updated_at := env_sql_now env\<rparr>"
      "ledger_check upd"
    by (rule update_ledger_effect)
  have rem: "remaining_amount upd = remaining_amount l - amount"
    using updated_ledger_remaining[OF l(3)] l(4) by simp
  from update_ledger_sum[OF inv u(1), where g = remaining_amount] obtain l1 where l1:
      "l1 \<in> set (db_ledgers db)" "led_id l1 = led_id (ls ! i)"
      "sum_list (map remaining_amount (db_ledgers dbu)) =
         sum_list (map remaining_amount (db_ledgers db)) - remaining_amount l1 + remaining_amount upd"
    by blast
  have "l1 = l"
    using distinct_key_unique[of led_id "db_ledgers db" l1 l] inv l(1,2) l1(1,2)
    by (simp add: ledgers_inv_def)
  with l1(3) rem have "ledger_sum dbu = ledger_sum db - amount"
    by (simp add: ledger_sum_def)
  moreover have "0 \<le> remaining_amount upd" using l(5) by (simp add: ledger_check_def)
  ultimately show ?thesis
    using that[OF u wf] u(2) lsu by (simp add: ledger_sum_def untouched_def)
qed

lemma pool_txn_ids_distinct:
  assumes "sorted_wrt (<) (map fst pb)" "distinct (map (\<lambda>(b, w, tot, t). t) pb)"
    and "(\<exists>w0. map_of pb b = Some (w0, tot, t)) \<or>
         (map_of pb b = None \<and> (\<forall>(b', w', tot', t') \<in> set pb. t' \<noteq> t))"
  shows "distinct (map (\<lambda>(b, w, tot, t). t) (bt_upsert b (\<lambda>_. (w, n, t)) pb))"
  using assms(3)
proof
  assume "\<exists>w0. map_of pb b = Some (w0, tot, t)"
  then obtain w0 where "map_of pb b = Some (w0, tot, t)" ..
  from map_bt_upsert_existing[OF assms(1) this, where g = "\<lambda>(b, w, tot, t). t"] assms(2)
  show ?thesis by simp
next
  assume new: "map_of pb b = None \<and> (\<forall>(b', w', tot', t') \<in> set pb. t' \<noteq> t)"
  have "mset (map (\<lambda>(b, w, tot, t). t) (bt_upsert b (\<lambda>_. (w, n, t)) pb)) =
      mset (t # map (\<lambda>(b, w, tot, t). t) pb)"
    using mset_bt_upsert_new[of pb b "(w, n, t)"] new by simp
  moreover have "distinct (t # map (\<lambda>(b, w, tot, t). t) pb)"
    using new assms(2) by auto
  ultimately show ?thesis
    by (metis mset_eq_imp_distinct_iff)
qed

lemma consume_pool_step_ok:
  assumes "consume_pool_step env r u now bw ls (pb, allocs, db) (i, amount) = Inr (pb', allocs', db')"
    and "db_wf env db" "0 < amount" "pool_acc_ok env n0 bw (pb, allocs, db)"
  shows "pool_acc_ok env n0 bw (pb', allocs', db')" "totals pb' = totals pb + amount"
proof -
  let ?b = "led_bucket_id (ls ! i)"
  obtain upd where upd: "0 \<le> remaining_amount upd"
    "\<exists>dbu. update_ledger_in_tx env db (led_id (ls ! i)) (Consumption amount) = Inr (upd, dbu)"
    using consume_pool_step_db[OF assms(1-3)] by metis
  from assms(1) obtain w tot t n where acc:
      "map_of bw ?b = Some w" "pb' = bt_upsert ?b (\<lambda>_. (w, tot + amount, t)) pb"
      "db_seq db' = Suc n" "db_seq db \<le> n"
      "(\<exists>w0. map_of pb ?b = Some (w0, tot, t)) \<or>
       (map_of pb ?b = None \<and> tot = 0 \<and> t = env_uuid env (db_seq db) \<and> db_seq db < n)"
      "\<exists>a. allocs' = allocs @ [a] \<and> alloc_wallet_id a = Some w \<and> alloc_allocated_amount a = amount \<and>
           alloc_ledger_remaining_after a = remaining_amount upd"
    by (rule consume_pool_step_acc) (use upd(2) in force)
  note ok = assms(4)[unfolded pool_acc_ok_def, simplified]
  have inj: "inj (env_uuid env)" using assms(2) by (simp add: db_wf_def ids_fresh_def)
  have srt: "sorted_wrt (<) (map fst pb)" using ok by simp
  have tot: "0 \<le> tot" and tid: "\<exists>m. n0 \<le> m \<and> m < db_seq db' \<and> t = env_uuid env m"
    using acc(3-5) ok by (fastforce dest: map_of_SomeD)+
  show sum: "totals pb' = totals pb + amount"
    using totals_upsert[OF srt] acc(2,5) by auto
  have "distinct (map (\<lambda>(b, w, tot, t). t) pb')"
    unfolding acc(2)
  proof (rule pool_txn_ids_distinct[OF srt])
    show "distinct (map (\<lambda>(b, w, tot, t). t) pb)" using ok by simp
    have "\<forall>(b', w', tot', t') \<in> set pb. t' \<noteq> env_uuid env (db_seq db)"
      using ok inj by (fastforce dest: injD)
    with acc(5) show "(\<exists>w0. map_of pb ?b = Some (w0, tot, t)) \<or>
        (map_of pb ?b = None \<and> (\<forall>(b', w', tot', t') \<in> set pb. t' \<noteq> t))"
      by auto
  qed
  moreover have "map_of bw b' = Some w' \<and> 0 < tot' \<and> (\<exists>m. n0 \<le> m \<and> m < db_seq db' \<and> t' = env_uuid env m)"
    if "(b', w', tot', t') \<in> set pb'" for b' w' tot' t'
  proof -
    from that acc(2) set_bt_upsert_const[of ?b "(w, tot + amount, t)" pb]
    have "(b', w', tot', t') = (?b, w, tot + amount, t) \<or> (b', w', tot', t') \<in> set pb" by blast
    then show ?thesis
    proof
      assume "(b', w', tot', t') = (?b, w, tot + amount, t)"
      with acc(1) tot tid assms(3) show ?thesis by simp
    next
      assume "(b', w', tot', t') \<in> set pb"
      with ok acc(3,4) show ?thesis by (fastforce intro: less_le_trans)
    qed
  qed
  moreover have "sorted_wrt (<) (map fst pb')"
    unfolding acc(2) by (rule sorted_bt_upsert[OF srt])
  ultimately show "pool_acc_ok env n0 bw (pb', allocs', db')"
    using ok acc(3,4,6) assms(3) upd(1) sum by (auto simp: pool_acc_ok_def)
qed

text \<open>The whole pool loop.\<close>

lemma consume_pool_effect:
  assumes "try_fold (consume_pool_step env r u now bw ls) (pb, allocs, db) plan = Inr (pb', allocs', db')"
    and "db_wf env db" "pool_acc_ok env n0 bw (pb, allocs, db)" "\<forall>(i, a) \<in> set plan. 0 < a"
  shows "db_wf env db' \<and> pool_acc_ok env n0 bw (pb', allocs', db') \<and> untouched db' = untouched db \<and>
    db_wallets db' = db_wallets db \<and> db_transactions db' = db_transactions db \<and>
    db_allocations db' = db_allocations db \<and> db_seq db \<le> db_seq db' \<and>
    ledger_sum db' = ledger_sum db - sum_list (map snd plan) \<and>
    totals pb' = totals pb + sum_list (map snd plan)"
  using assms
proof (induction plan arbitrary: pb allocs db)
  case Nil
  then show ?case by simp
next
  case (Cons p plan)
  obtain i a where p: "p = (i, a)" by (cases p)
  from Cons.prems(1) obtain pb1 allocs1 db1 where
    step: "consume_pool_step env r u now bw ls (pb, allocs, db) (i, a) = Inr (pb1, allocs1, db1)" and
    rest: "try_fold (consume_pool_step env r u now bw ls) (pb1, allocs1, db1) plan = Inr (pb', allocs', db')"
    unfolding p by (auto simp: result_simps)
  have a: "0 < a" using Cons.prems(4) p by simp
  note ok = consume_pool_step_ok[OF step Cons.prems(2) a Cons.prems(3)]
  from consume_pool_step_db[OF step Cons.prems(2) a]
  have db1: "db_wf env db1" "untouched db1 = untouched db" "db_wallets db1 = db_wallets db"
      "db_transactions db1 = db_transactions db" "db_allocations db1 = db_allocations db"
      "ledger_sum db1 = ledger_sum db - a" "db_seq db \<le> db_seq db1"
    by (metis points_db.select_convs(13) points_db.surjective points_db.update_convs(13))+
  from Cons.IH[OF rest db1(1) ok(1)] Cons.prems(4) db1 ok(2) show ?case
    unfolding p by auto
qed

section \<open>Phase 3: the window transactions\<close>

text \<open>What every row a consume writes has in common.\<close>

definition consume_row :: "env \<Rightarrow> consume_request \<Rightarrow> string \<Rightarrow> points_transaction \<Rightarrow> bool" where
  "consume_row env req c t \<longleftrightarrow>
     txn_transaction_type t = Consume \<and> txn_user_id t = cr_user_id req \<and>
     txn_realm_id t = cr_realm_id req \<and> txn_client_app_id t = Some (cr_client_app_id req) \<and>
     txn_description t = cr_description req \<and> txn_correlation_id t = Some c \<and>
     txn_created_at t = env_now env \<and> txn_external_ref_id t = None \<and> txn_amount t < 0"

definition spent :: "points_transaction list \<Rightarrow> i64" where
  "spent ts = sum_list (map (\<lambda>t. - txn_amount t) ts)"

lemma spent_simps [simp]: "spent [] = 0" "spent (ts @ us) = spent ts + spent us" "spent [t] = - txn_amount t"
  by (simp_all add: spent_def)

definition wallet_ids :: "points_db \<Rightarrow> (uuid \<times> string \<times> uuid \<times> uuid option) list" where
  "wallet_ids db = map (\<lambda>w. (wal_id w, wallet_key w)) (db_wallets db)"

lemma apply_wallet_delta_ids:
  "apply_wallet_delta_in_tx env db i d = Inr (w', db') \<Longrightarrow> wallet_ids db' = wallet_ids db"
  by (auto simp: result_simps wallet_ids_def map_update_where_same)

lemma write_consume_transaction_effect:
  assumes "write_consume_transaction env req c db tid w b ct amt = Inr (t, db')"
    and "db_wf env db" "0 < amt" "\<forall>n \<ge> db_seq db. env_uuid env n \<noteq> tid"
  shows "db_wf env db'" "consume_row env req c t" "txn_id t = tid" "txn_bucket_id t = b"
    "txn_credit_type t = ct" "txn_amount t = - amt" "txn_wallet_id t = w"
    "db_transactions db' = db_transactions db @ [t]" "untouched db' = untouched db"
    "db_ledgers db' = db_ledgers db" "db_allocations db' = db_allocations db"
    "db_seq db' = db_seq db" "wallet_ids db' = wallet_ids db"
    "txn_balance_after t = available_total db' (cr_realm_id req) (cr_user_id req) [b] (env_now env)"
proof -
  from assms(1) obtain w' db1 where d: "apply_wallet_delta_in_tx env db w (consumed_delta amt) = Inr (w', db1)"
    by (auto simp: write_consume_transaction_def result_simps)
  obtain ws where ws: "db1 = db\<lparr>db_wallets := ws\<rparr>" using d by (auto simp: result_simps)
  obtain ba ta sa where snap: "derived_to_balance_snapshots
      (compute_available_balance db1 (cr_realm_id req) (cr_user_id req) [b] (env_now env)) = (ba, ta, sa)"
    by (metis prod_cases3)
  from assms(1) d snap have t: "create_transaction_in_tx db1
      \<lparr>txn_id = tid, txn_wallet_id = w, txn_user_id = cr_user_id req,
       txn_realm_id = cr_realm_id req, txn_bucket_id = b,
       txn_transaction_type = Consume, txn_amount = - amt, txn_balance_after = ba,
       txn_topup_balance_after = ta,
       txn_subscription_balance_after = sa, txn_credit_type = ct,
       txn_description = cr_description req, txn_client_app_id = Some (cr_client_app_id req),
       txn_subscription_id = None, txn_external_ref_id = None,
       txn_correlation_id = Some c, txn_effective_at = None,
       txn_distribution_event_id = None, txn_distribution_rule_id = None,
       txn_created_at = env_now env\<rparr> = Inr (t, db')"
    by (simp add: write_consume_transaction_def)
  show "db_wf env db'"
    using create_transaction_wf[OF apply_wallet_delta_wf[OF assms(2) d] t] assms(4) ws by simp
  have ba: "ba = available_total db1 (cr_realm_id req) (cr_user_id req) [b] (env_now env)"
    using snap by (simp add: derived_to_balance_snapshots_eq compute_available_balance_total)
  have wids: "wallet_ids db1 = wallet_ids db" by (rule apply_wallet_delta_ids[OF d])
  from t assms(3) ws wids ba show "consume_row env req c t" "txn_id t = tid" "txn_bucket_id t = b"
    "txn_credit_type t = ct" "txn_amount t = - amt" "txn_wallet_id t = w"
    "db_transactions db' = db_transactions db @ [t]" "untouched db' = untouched db"
    "db_ledgers db' = db_ledgers db" "db_allocations db' = db_allocations db"
    "db_seq db' = db_seq db" "wallet_ids db' = wallet_ids db"
    "txn_balance_after t = available_total db' (cr_realm_id req) (cr_user_id req) [b] (env_now env)"
    by (auto simp: result_simps consume_row_def wallet_ids_def available_total_def available_ledgers_def
        untouched_def)
qed

text \<open>
  The rows written since \<open>db0\<close>: they extend the transaction table, their ids were drawn
  since then, and nothing but wallets, transactions and the id counter has changed.
\<close>

definition rows_written :: "env \<Rightarrow> consume_request \<Rightarrow> string \<Rightarrow> points_db \<Rightarrow> points_transaction list \<Rightarrow> points_db \<Rightarrow> bool" where
  "rows_written env req c db0 ts db \<longleftrightarrow>
     db_wf env db \<and> untouched db = untouched db0 \<and> db_ledgers db = db_ledgers db0 \<and>
     db_allocations db = db_allocations db0 \<and> wallet_ids db = wallet_ids db0 \<and>
     db_seq db0 \<le> db_seq db \<and> db_transactions db = db_transactions db0 @ ts \<and>
     (\<forall>t \<in> set ts. consume_row env req c t)"

definition window_acc ::
  "env \<Rightarrow> consume_request \<Rightarrow> string \<Rightarrow> points_db \<Rightarrow> i64 \<times> points_transaction list \<times> points_db \<Rightarrow> bool" where
  "window_acc env req c db0 s \<longleftrightarrow> (case s of (consumed, ts, db) \<Rightarrow>
     rows_written env req c db0 ts db \<and> consumed = spent ts \<and>
     (\<forall>t \<in> set ts. txn_credit_type t \<in> {Some SubscriptionCredit, Some FreePeriodicCredit} \<and>
        (\<exists>n. db_seq db0 \<le> n \<and> n < db_seq db \<and> txn_id t = env_uuid env n)))"

lemma db_wf_inj: "db_wf env db \<Longrightarrow> inj (env_uuid env)"
  by (simp add: db_wf_def ids_fresh_def)

lemma consume_window_part_acc:
  assumes "consume_window_part env req c w b s (ct, part) = Inr s'"
    and "ct \<in> {SubscriptionCredit, FreePeriodicCredit}" "window_acc env req c db0 s"
  shows "window_acc env req c db0 s'"
proof -
  obtain consumed ts db where s: "s = (consumed, ts, db)" by (cases s)
  show ?thesis
  proof (cases "part \<le> 0")
    case True
    with assms s show ?thesis by (simp add: consume_window_part_def)
  next
    case False
    let ?db = "db\<lparr>db_seq := Suc (db_seq db)\<rparr>"
    from assms(1) s False obtain t db' where
      t: "write_consume_transaction env req c ?db (env_uuid env (db_seq db)) w b (Some ct) part = Inr (t, db')" and
      s': "s' = (consumed + part, ts @ [t], db')"
      by (auto simp: consume_window_part_def now_v7_def result_simps)
    have acc: "rows_written env req c db0 ts db" using assms(3) s by (simp add: window_acc_def)
    then have wf: "db_wf env db" by (simp add: rows_written_def)
    have wf1: "db_wf env ?db"
      by (rule db_wf_now_v7[OF wf]) (simp add: now_v7_def)
    have new: "\<forall>n \<ge> db_seq ?db. env_uuid env n \<noteq> env_uuid env (db_seq db)"
      using db_wf_inj[OF wf] by (auto simp: inj_eq)
    note e = write_consume_transaction_effect[OF t wf1 _ new]
    have "rows_written env req c db0 (ts @ [t]) db'"
      using acc e False by (auto simp: rows_written_def wallet_ids_def)
    moreover have "\<exists>n. db_seq db0 \<le> n \<and> n < db_seq db' \<and> txn_id x = env_uuid env n"
      if "x \<in> set (ts @ [t])" for x
    proof (cases "x = t")
      case True
      with e(3,12) False acc show ?thesis by (auto simp: rows_written_def)
    next
      case False
      with that assms(3) s have "\<exists>n. db_seq db0 \<le> n \<and> n < db_seq db \<and> txn_id x = env_uuid env n"
        by (auto simp: window_acc_def)
      with e(12) \<open>\<not> part \<le> 0\<close> show ?thesis by (auto intro: less_SucI)
    qed
    moreover have "txn_credit_type t = Some ct" "txn_amount t = - part" using e(5,6) False by auto
    ultimately show ?thesis
      using assms(2,3) s s' by (auto simp: window_acc_def)
  qed
qed

definition window_split_at :: "env \<Rightarrow> consume_request \<Rightarrow> points_db \<Rightarrow> uuid \<Rightarrow> i64 \<Rightarrow> window_credit_split" where
  "window_split_at env req db b rem = split_window_part_by_credit_type rem
     (compute_window_spendable_in_tx db (cr_realm_id req) (cr_user_id req) b SubscriptionCredit (env_now env))
     (compute_window_spendable_in_tx db (cr_realm_id req) (cr_user_id req) b FreePeriodicCredit (env_now env))"

lemma consume_window_step_idle:
  "rem \<le> 0 \<Longrightarrow> consume_window_step env req c bw (rem, s) b = Inr (rem, s)"
  by (cases s) (simp add: consume_window_step_def)

lemma consume_window_step_active:
  assumes "0 < rem"
  shows "consume_window_step env req c bw (rem, consumed, ts, db) b = Inr (rem', s') \<longleftrightarrow>
    (\<exists>w. map_of bw b = Some w \<and>
      try_fold (consume_window_part env req c w b) (consumed, ts, db)
        [(SubscriptionCredit, sub_part (window_split_at env req db b rem)),
         (FreePeriodicCredit, free_part (window_split_at env req db b rem))] = Inr s' \<and>
      rem' = window_remainder (window_split_at env req db b rem))"
  using assms
  by (cases s') (auto simp: consume_window_step_def Let_def result_simps window_split_at_def
      simp del: try_fold.simps)

lemma consume_window_step_acc:
  assumes "consume_window_step env req c bw (rem, s) b = Inr (rem', s')" "window_acc env req c db0 s"
  shows "window_acc env req c db0 s'"
proof (cases "rem \<le> 0")
  case True
  with assms show ?thesis by (simp add: consume_window_step_idle)
next
  case False
  obtain consumed ts db where s: "s = (consumed, ts, db)" by (cases s)
  from False assms(1) obtain w ps where
    "try_fold (consume_window_part env req c w b) s ps = Inr s'"
    "fst ` set ps \<subseteq> {SubscriptionCredit, FreePeriodicCredit}"
    unfolding s by (subst (asm) consume_window_step_active) (simp, force simp del: try_fold.simps)
  then show ?thesis
    using assms(2) consume_window_part_acc
    by (elim try_fold_invariant[where P = "window_acc env req c db0"]) force+
qed

lemma consume_window_effect:
  assumes "try_fold (consume_window_step env req c bw) (rem, consumed, ts, db) bs = Inr (rem', consumed', ts', db')"
    and "window_acc env req c db0 (consumed, ts, db)"
  shows "window_acc env req c db0 (consumed', ts', db')"
proof -
  have "window_acc env req c db0 (snd (rem', consumed', ts', db'))"
    by (rule try_fold_invariant[where P = "\<lambda>s. window_acc env req c db0 (snd s)", OF assms(1)])
      (use assms(2) in \<open>auto dest: consume_window_step_acc\<close>)
  then show ?thesis by simp
qed

section \<open>Phases 4 and 5: the pool transactions and the allocations\<close>

lemma consume_pool_transaction_Inr_iff:
  "consume_pool_transaction env req c (ts, db) (b, w, tot, tid) = Inr (ts', db') \<longleftrightarrow>
     (\<exists>t. write_consume_transaction env req c db tid w b None tot = Inr (t, db') \<and> ts' = ts @ [t])"
  by (auto simp: consume_pool_transaction_def result_simps)

lemma consume_pool_transactions_effect:
  assumes "try_fold (consume_pool_transaction env req c) (ts, db) pb = Inr (ts', db')"
    and "rows_written env req c db0 ts db"
    and "\<forall>(b, w, tot, t) \<in> set pb. 0 < tot \<and> (\<exists>n < db_seq db. t = env_uuid env n)"
  shows "\<exists>new. ts' = ts @ new \<and> rows_written env req c db0 ts' db' \<and> db_seq db' = db_seq db \<and>
    map (\<lambda>t. (txn_bucket_id t, txn_wallet_id t, - txn_amount t, txn_id t)) new = pb \<and>
    (\<forall>t \<in> set new. txn_credit_type t = None)"
  using assms
proof (induction pb arbitrary: ts db)
  case Nil
  then show ?case by simp
next
  case (Cons p pb)
  obtain b w tot tid where p: "p = (b, w, tot, tid)" by (metis prod_cases4)
  from Cons.prems(1) obtain t db1 where
    t: "write_consume_transaction env req c db tid w b None tot = Inr (t, db1)" and
    rest: "try_fold (consume_pool_transaction env req c) (ts @ [t], db1) pb = Inr (ts', db')"
    unfolding p by (auto simp: consume_pool_transaction_Inr_iff result_simps)
  have wf: "db_wf env db" using Cons.prems(2) by (simp add: rows_written_def)
  have pos: "0 < tot" and "\<exists>n < db_seq db. tid = env_uuid env n"
    using Cons.prems(3) p by auto
  then have fresh: "\<forall>n \<ge> db_seq db. env_uuid env n \<noteq> tid"
    using db_wf_inj[OF wf] by (auto simp: inj_eq)
  note e = write_consume_transaction_effect[OF t wf pos fresh]
  have "rows_written env req c db0 (ts @ [t]) db1"
    using Cons.prems(2) e by (auto simp: rows_written_def)
  moreover have "\<forall>(b, w, tot, t) \<in> set pb. 0 < tot \<and> (\<exists>n < db_seq db1. t = env_uuid env n)"
    using Cons.prems(3) e(12) by auto
  ultimately obtain new where "ts' = (ts @ [t]) @ new" "rows_written env req c db0 ts' db'"
      "db_seq db' = db_seq db1"
      "map (\<lambda>t. (txn_bucket_id t, txn_wallet_id t, - txn_amount t, txn_id t)) new = pb"
      "\<forall>t \<in> set new. txn_credit_type t = None"
    using Cons.IH[OF rest] by blast
  with e p show ?case by (intro exI[of _ "t # new"]) auto
qed

lemma create_allocations_effect:
  assumes "try_fold (create_consumption_allocation_in_tx env) db allocs = Inr db'" "db_wf env db"
  shows "db' = db\<lparr>db_allocations := db_allocations db @ allocs\<rparr>" "db_wf env db'"
proof -
  have "db' = db\<lparr>db_allocations := db_allocations db @ allocs\<rparr> \<and> db_wf env db'"
    using assms
  proof (induction allocs arbitrary: db)
    case Nil
    then show ?case by simp
  next
    case (Cons a allocs)
    then show ?case
      by (fastforce simp: result_simps dest: create_allocation_wf)
  qed
  then show "db' = db\<lparr>db_allocations := db_allocations db @ allocs\<rparr>" "db_wf env db'" by blast+
qed

section \<open>The consume transaction as a whole\<close>

definition pool_ledgers :: "env \<Rightarrow> consume_request \<Rightarrow> uuid list \<Rightarrow> points_db \<Rightarrow> points_credit_ledger list" where
  "pool_ledgers env req covered db =
     find_active_ledgers_by_expiration env db (cr_realm_id req) (cr_user_id req) covered"

definition window_available :: "env \<Rightarrow> consume_request \<Rightarrow> uuid list \<Rightarrow> points_db \<Rightarrow> i64" where
  "window_available env req covered db = sum_list (map
     (bucket_window_headroom db (cr_realm_id req) (cr_user_id req) (env_now env)) covered)"

definition pool_available :: "env \<Rightarrow> consume_request \<Rightarrow> uuid list \<Rightarrow> points_db \<Rightarrow> i64" where
  "pool_available env req covered db = sum_list (map remaining_amount (pool_ledgers env req covered db))"

text \<open>The intermediate databases of a successful run, named.\<close>

lemma consume_fresh_InrE:
  assumes "consume_fresh env req c covered db0 = Inr (ts, db')"
  obtains bw db1 wp pp pb allocs db2 ws rem db3 db4 where
    "try_fold (lock_bucket_wallet env (cr_realm_id req) (cr_user_id req)) ([], db0) covered = Inr (bw, db1)"
    "plan_mixed_consume (window_available env req covered db1) (pool_available env req covered db1)
       (cr_amount req) = PlanOk wp pp"
    "\<not> (0 < pp \<and> \<not> cp_fully_covers (plan_consume_allocation (pool_ledgers env req covered db1) pp))"
    "try_fold (consume_pool_step env (cr_realm_id req) (cr_user_id req) (env_now env) bw
       (pool_ledgers env req covered db1)) ([], [], db1)
       (cp_allocations (plan_consume_allocation (pool_ledgers env req covered db1) pp)) = Inr (pb, allocs, db2)"
    "totals pb = pp"
    "try_fold (consume_window_step env req c bw) (wp, 0, [], db2) covered = Inr (rem, wp, ws, db3)"
    "try_fold (consume_pool_transaction env req c) (ws, db3) pb = Inr (ts, db4)"
    "try_fold (create_consumption_allocation_in_tx env) db4 allocs = Inr db'"
proof -
  note defs = consume_fresh_def Let_def pool_ledgers_def[symmetric] totals_def[symmetric]
    window_available_def[symmetric] pool_available_def[symmetric] result_simps
  from assms obtain bw db1 where lock:
    "try_fold (lock_bucket_wallet env (cr_realm_id req) (cr_user_id req)) ([], db0) covered = Inr (bw, db1)"
    by (auto simp: consume_fresh_def result_simps)
  show ?thesis
  proof (cases "plan_mixed_consume (window_available env req covered db1)
      (pool_available env req covered db1) (cr_amount req)")
    case (PlanOk wp pp)
    with assms lock show ?thesis by (auto simp: defs intro!: that)
  next
    case PlanInsufficient
    with assms lock show ?thesis by (auto simp: defs)
  qed
qed

lemma untouched_eq:
  "untouched db' = untouched db \<Longrightarrow> db_entitlements db' = db_entitlements db"
  "untouched db' = untouched db \<Longrightarrow> db_idempotency db' = db_idempotency db"
  "untouched db' = untouched db \<Longrightarrow> db_revocations db' = db_revocations db"
  by (simp_all add: untouched_def)

text \<open>What is spendable depends on ledgers, consume rows and entitlements only.\<close>

lemma window_spendable_cong:
  assumes "db_transactions db' = db_transactions db" "db_entitlements db' = db_entitlements db"
  shows "compute_window_spendable_in_tx db' = compute_window_spendable_in_tx db"
  using assms
  by (auto simp: fun_eq_iff compute_window_spendable_in_tx_def active_entitlements_def
      sum_consume_in_window_def Let_def)

lemma window_available_cong:
  "db_transactions db' = db_transactions db \<Longrightarrow> db_entitlements db' = db_entitlements db \<Longrightarrow>
     window_available env req covered db' = window_available env req covered db"
  unfolding window_available_def bucket_window_headroom_def by (simp add: window_spendable_cong[of db' db])

lemma pool_ledgers_cong:
  "db_ledgers db' = db_ledgers db \<Longrightarrow> pool_ledgers env req covered db' = pool_ledgers env req covered db"
  by (simp add: pool_ledgers_def find_active_ledgers_by_expiration_def)

lemma pool_available_cong:
  "db_ledgers db' = db_ledgers db \<Longrightarrow> pool_available env req covered db' = pool_available env req covered db"
  by (simp add: pool_available_def pool_ledgers_cong[of db' db])

lemma pool_ledgers_member:
  "l \<in> set (pool_ledgers env req covered db) \<longleftrightarrow>
     covered \<noteq> [] \<and> l \<in> set (db_ledgers db) \<and> led_realm_id l = cr_realm_id req \<and>
     led_user_id l = cr_user_id req \<and> led_bucket_id l \<in> set covered \<and> live_at (env_sql_now env) l"
  by (auto simp: pool_ledgers_def find_active_ledgers_by_expiration_def)

lemma pool_ledgers_distinct:
  assumes "db_inv db"
  shows "distinct (map led_id (pool_ledgers env req covered db))"
  using assms
  by (auto simp: db_inv_def ledgers_inv_def pool_ledgers_def find_active_ledgers_by_expiration_def
      distinct_map inj_on_def)

lemma pool_available_capacity:
  "pool_capacity (pool_ledgers env req covered db) = pool_available env req covered db"
  unfolding pool_available_def
  by (rule pool_capacity_positive) (auto simp: pool_ledgers_member live_at_def)

lemma window_spendable_nonneg: "0 \<le> compute_window_spendable_in_tx db r u b ct now"
  by (auto simp: compute_window_spendable_in_tx_def Let_def split: option.splits)

lemma window_available_nonneg: "0 \<le> window_available env req covered db"
  unfolding window_available_def bucket_window_headroom_def
  by (intro sum_list_map_nonneg add_nonneg_nonneg window_spendable_nonneg)

lemma pool_available_nonneg: "0 \<le> pool_available env req covered db"
  by (metis pool_available_capacity pool_capacity_nonneg)

text \<open>The part of a request the pools pay: what the windows do not.\<close>

definition pool_part_of :: "env \<Rightarrow> consume_request \<Rightarrow> uuid list \<Rightarrow> points_db \<Rightarrow> i64" where
  "pool_part_of env req covered db =
     cr_amount req - min (cr_amount req) (window_available env req covered db)"

lemma consume_fresh_correct:
  assumes "consume_fresh env req c covered db0 = Inr (ts, db')" "db_wf env db0"
  obtains ws ps where "ts = ws @ ps" "db_wf env db'" "spent ts = cr_amount req"
    "spent ps = pool_part_of env req covered db0"
    "db_transactions db' = db_transactions db0 @ ts" "untouched db' = untouched db0"
    "ledger_sum db' = ledger_sum db0 - spent ps" "\<forall>t \<in> set ts. consume_row env req c t"
    "\<forall>t \<in> set ps. txn_credit_type t = None"
    "\<forall>t \<in> set ws. txn_credit_type t \<in> {Some SubscriptionCredit, Some FreePeriodicCredit}"
    "\<exists>as. db_allocations db' = db_allocations db0 @ as \<and> sum_list (map alloc_allocated_amount as) = spent ps"
    "cr_amount req \<le> window_available env req covered db0 + pool_available env req covered db0"
proof -
  from assms(1) obtain bw db1 wp pp pb allocs db2 ws rem db3 db4 where
    lock: "try_fold (lock_bucket_wallet env (cr_realm_id req) (cr_user_id req)) ([], db0) covered = Inr (bw, db1)" and
    plan: "plan_mixed_consume (window_available env req covered db1) (pool_available env req covered db1)
       (cr_amount req) = PlanOk wp pp" and
    pool: "try_fold (consume_pool_step env (cr_realm_id req) (cr_user_id req) (env_now env) bw
       (pool_ledgers env req covered db1)) ([], [], db1)
       (cp_allocations (plan_consume_allocation (pool_ledgers env req covered db1) pp)) = Inr (pb, allocs, db2)" and
    tot: "totals pb = pp" and
    win: "try_fold (consume_window_step env req c bw) (wp, 0, [], db2) covered = Inr (rem, wp, ws, db3)" and
    ptx: "try_fold (consume_pool_transaction env req c) (ws, db3) pb = Inr (ts, db4)" and
    all: "try_fold (create_consumption_allocation_in_tx env) db4 allocs = Inr db'"
    by (rule consume_fresh_InrE)
  have l: "db_wf env db1 \<and> untouched db1 = untouched db0 \<and> db_ledgers db1 = db_ledgers db0 \<and>
      db_transactions db1 = db_transactions db0 \<and> db_allocations db1 = db_allocations db0"
    using lock_wallets_effect[OF lock assms(2)] by simp
  have av: "window_available env req covered db1 = window_available env req covered db0"
    "pool_available env req covered db1 = pool_available env req covered db0"
    using l by (auto intro!: window_available_cong pool_available_cong dest: untouched_eq)
  have acc0: "pool_acc_ok env (db_seq db1) bw ([], [], db1)"
    by (simp add: pool_acc_ok_def totals_def)
  have pos: "\<forall>(i, a) \<in> set (cp_allocations (plan_consume_allocation (pool_ledgers env req covered db1) pp)). 0 < a"
    by (auto simp: plan_consume_allocation_simps dest: plan_allocation_loop_member)
  have p: "db_wf env db2 \<and> pool_acc_ok env (db_seq db1) bw (pb, allocs, db2) \<and> untouched db2 = untouched db1 \<and>
      db_transactions db2 = db_transactions db1 \<and> db_allocations db2 = db_allocations db1 \<and>
      ledger_sum db2 = ledger_sum db1 - totals pb"
    using consume_pool_effect[OF pool _ acc0 pos] l by (simp add: totals_def)
  have w: "window_acc env req c db2 (wp, ws, db3)"
    by (rule consume_window_effect[OF win]) (use p in \<open>simp add: window_acc_def rows_written_def\<close>)
  then have rw: "rows_written env req c db2 ws db3" "wp = spent ws" by (simp_all add: window_acc_def)
  have "\<forall>(b, w, tot, t) \<in> set pb. 0 < tot \<and> (\<exists>n < db_seq db3. t = env_uuid env n)"
    using p rw(1) by (fastforce simp: pool_acc_ok_def rows_written_def intro: less_le_trans)
  from consume_pool_transactions_effect[OF ptx rw(1) this] obtain ps where ps: "ts = ws @ ps"
      "rows_written env req c db2 ts db4"
      "map (\<lambda>t. (txn_bucket_id t, txn_wallet_id t, - txn_amount t, txn_id t)) ps = pb"
      "\<forall>t \<in> set ps. txn_credit_type t = None"
    by auto
  have "spent ps = totals pb"
    unfolding ps(3)[symmetric] totals_def spent_def by (simp add: comp_def)
  moreover have "wp + pp = cr_amount req" "pp = pool_part_of env req covered db0"
      "cr_amount req \<le> window_available env req covered db0 + pool_available env req covered db0"
    using plan window_available_nonneg[of env req covered db0] pool_available_nonneg[of env req covered db0]
    by (auto simp: plan_mixed_consume_Ok_iff av pool_part_of_def max_def split: if_splits)
  moreover have "db_wf env db4" using ps(2) by (simp add: rows_written_def)
  note al = create_allocations_effect[OF all this]
  ultimately show ?thesis
    using that[of ws ps] l p rw w ps al tot
    by (auto simp: rows_written_def window_acc_def pool_acc_ok_def ledger_sum_def)
qed

end
