(* ===== verification/PointsConsumeProgress.thy ===== *)
theory PointsConsumeProgress
  imports PointsConsumeCorrect
begin

text \<open>
  Consumption does not get stuck: on well-formed tables every phase of
  \<open>consume_points_atomic\<close> succeeds once the plan found enough, so the drift errors and the
  constraint violations it guards against cannot happen, and the only refusals left are the
  ones the caller is meant to see.
\<close>

section \<open>Coverage\<close>

text \<open>The primary key of \<open>credit_bucket_client_apps\<close>.\<close>

definition coverage_key_ok :: "points_db \<Rightarrow> bool" where
  "coverage_key_ok db \<longleftrightarrow> distinct (map (\<lambda>a. (bca_bucket_id a, bca_client_app_id a)) (db_bucket_apps db))"

lemma covered_distinct:
  assumes "coverage_key_ok db"
  shows "distinct (find_covered_bucket_ids_in_tx db r app)"
proof -
  have "inj_on bca_bucket_id {a \<in> set (db_bucket_apps db). bca_client_app_id a = app}"
    using distinct_key_unique[OF assms[unfolded coverage_key_ok_def]] by (auto simp: inj_on_def)
  moreover have "distinct (db_bucket_apps db)"
    using assms by (simp add: coverage_key_ok_def distinct_map)
  ultimately show ?thesis
    by (auto simp: find_covered_bucket_ids_in_tx_def distinct_map inj_on_def)
qed

lemma covered_bucket_exists:
  "b \<in> set (find_covered_bucket_ids_in_tx db r app) \<Longrightarrow> \<exists>x \<in> set (db_buckets db). bkt_id x = b"
  by (auto simp: find_covered_bucket_ids_in_tx_def)

section \<open>Locking the wallets\<close>

text \<open>
  What the locks need of the user: each covered bucket has an active wallet, or none yet and one
  can be created.
\<close>

definition bucket_ready :: "points_db \<Rightarrow> string \<Rightarrow> uuid \<Rightarrow> uuid \<Rightarrow> bool" where
  "bucket_ready db r u b \<longleftrightarrow>
     (case find_wallet_by_user_bucket db r u b of
        Some w \<Rightarrow> wal_status w = WalletActive
      | None \<Rightarrow> (\<exists>a \<in> set (db_accounts db). fst a = u) \<and> (\<exists>x \<in> set (db_buckets db). bkt_id x = b))"

definition user_ready :: "points_db \<Rightarrow> string \<Rightarrow> uuid \<Rightarrow> uuid list \<Rightarrow> bool" where
  "user_ready db r u covered \<longleftrightarrow> (\<forall>b \<in> set covered. bucket_ready db r u b)"

lemma find_wallet_seq [simp]:
  "find_wallet_by_user_bucket (db\<lparr>db_seq := n\<rparr>) r u b = find_wallet_by_user_bucket db r u b"
  by (simp add: find_wallet_by_user_bucket_def)

text \<open>A wallet lock succeeds exactly on a ready bucket, and leaves every other bucket as ready as it was.\<close>

lemma lock_bucket_wallet_ready:
  "(\<exists>s'. lock_bucket_wallet env r u (bw, db) b = Inr s') \<longleftrightarrow> bucket_ready db r u b"
  by (auto simp: lock_bucket_wallet_def ensure_wallet_in_tx_def create_wallet_in_tx_def ensure_def
      now_v7_def Let_def bucket_ready_def split: option.splits)

lemma lock_bucket_wallet_keeps_ready:
  assumes "lock_bucket_wallet env r u (bw, db) b = Inr (bw', db')"
  shows "user_ready db' r u bs = user_ready db r u bs"
proof -
  from assms obtain w where w: "ensure_wallet_in_tx env db r u b = Inr (w, db')" "wal_status w = WalletActive"
    by (auto simp: lock_bucket_wallet_def result_simps)
  have ready: "bucket_ready db r u b"
    using assms lock_bucket_wallet_ready[of env r u bw db b] by blast
  show ?thesis
    using w(1)
  proof (cases rule: ensure_wallet_InrE)
    case existing
    then show ?thesis by simp
  next
    case created
    then have key: "wal_realm_id w = r" "wal_user_id w = u" "wal_bucket_id w = Some b"
      by (simp_all add: wallet_key_def)
    have none: "find_wallet_by_user_bucket db r u b = None" using created(1) by (simp add: find_wallet_None)
    have "find_wallet_by_user_bucket db' r u b' = (case find_wallet_by_user_bucket db r u b' of
        None \<Rightarrow> if b' = b then Some w else None | Some x \<Rightarrow> Some x)" for b'
      using key unfolding created(6) by (auto simp: find_wallet_by_user_bucket_def find_append cong: option.case_cong)
    with none have f: "find_wallet_by_user_bucket db' r u b' =
        (if b' = b then Some w else find_wallet_by_user_bucket db r u b')" for b'
      by (simp split: option.splits)
    have frame: "db_accounts db' = db_accounts db" "db_buckets db' = db_buckets db" using created(6) by simp_all
    have "bucket_ready db' r u b' = bucket_ready db r u b'" for b'
      using ready w(2) none by (cases "b' = b") (simp_all add: bucket_ready_def f frame cong: option.case_cong)
    then show ?thesis by (simp add: user_ready_def)
  qed
qed

lemma lock_wallets_ready:
  "(\<exists>s'. try_fold (lock_bucket_wallet env r u) (bw, db) covered = Inr s') \<longleftrightarrow> user_ready db r u covered"
proof (induction covered arbitrary: bw db)
  case Nil
  then show ?case by (simp add: user_ready_def)
next
  case (Cons b bs)
  show ?case
  proof (cases "lock_bucket_wallet env r u (bw, db) b")
    case (Inl e)
    then have "\<not> bucket_ready db r u b"
      using lock_bucket_wallet_ready[of env r u bw db b] by (metis Inl_Inr_False)
    with Inl show ?thesis by (simp add: user_ready_def)
  next
    case (Inr s')
    then have "bucket_ready db r u b"
      using lock_bucket_wallet_ready[of env r u bw db b] by blast
    with Inr Cons.IH lock_bucket_wallet_keeps_ready[of env r u bw db b "fst s'" "snd s'" bs] show ?thesis
      by (cases s') (simp add: user_ready_def)
  qed
qed

section \<open>Drawing down the pool\<close>

lemma consumption_total:
  assumes "ledgers_inv (db_ledgers db)" "l \<in> set (db_ledgers db)" "0 < a" "a \<le> remaining_amount l"
  shows "\<exists>l' db'. update_ledger_in_tx env db (led_id l) (Consumption a) = Inr (l', db') \<and>
    (\<forall>x \<in> set (db_ledgers db). led_id x \<noteq> led_id l \<longrightarrow> x \<in> set (db_ledgers db'))"
proof -
  have f: "find (\<lambda>x. led_id x = led_id l) (db_ledgers db) = Some l"
    using find_key_in[of led_id "db_ledgers db" l] assms(1,2) by (simp add: ledgers_inv_def)
  have "ledger_check l" using assms(1,2) by (simp add: ledgers_inv_def ledger_ok_def)
  then have "ledger_check (l\<lparr>led_used_amount := led_used_amount l + a, led_status := s\<rparr>)" for s
    using assms(3,4) by (auto simp: ledger_check_def remaining_amount_def)
  with f assms(4) show ?thesis
    by (auto simp: update_ledger_in_tx_def Let_def ensure_def set_update_where remaining_amount_def)
qed

lemma consume_pool_step_total:
  assumes "ledgers_inv (db_ledgers db)" "ls ! i \<in> set (db_ledgers db)" "0 < a"
    and "a \<le> remaining_amount (ls ! i)" "map_of bw (led_bucket_id (ls ! i)) \<noteq> None"
  shows "\<exists>pb' allocs' db'. consume_pool_step env r u now bw ls (pb, allocs, db) (i, a) = Inr (pb', allocs', db') \<and>
    (\<forall>x \<in> set (db_ledgers db). led_id x \<noteq> led_id (ls ! i) \<longrightarrow> x \<in> set (db_ledgers db'))"
proof -
  obtain l' db' where "update_ledger_in_tx env db (led_id (ls ! i)) (Consumption a) = Inr (l', db')"
      "\<forall>x \<in> set (db_ledgers db). led_id x \<noteq> led_id (ls ! i) \<longrightarrow> x \<in> set (db_ledgers db')"
    using consumption_total[OF assms(1-4)] by blast
  with assms(5) show ?thesis
    by (auto simp: consume_pool_step_def Let_def now_v7_def split_beta split: option.splits)
qed

lemma consume_pool_total:
  assumes "db_wf env db" "distinct (map (\<lambda>p. led_id (ls ! fst p)) plan)"
    and "\<forall>(i, a) \<in> set plan. ls ! i \<in> set (db_ledgers db) \<and> 0 < a \<and> a \<le> remaining_amount (ls ! i) \<and>
           map_of bw (led_bucket_id (ls ! i)) \<noteq> None"
  shows "\<exists>s'. try_fold (consume_pool_step env r u now bw ls) (pb, allocs, db) plan = Inr s'"
  using assms
proof (induction plan arbitrary: pb allocs db)
  case Nil
  then show ?case by simp
next
  case (Cons p plan)
  obtain i a where p: "p = (i, a)" by (cases p)
  have inv: "ledgers_inv (db_ledgers db)" using Cons.prems(1) by (simp add: db_wf_def db_inv_def)
  obtain pb' allocs' db' where step:
      "consume_pool_step env r u now bw ls (pb, allocs, db) (i, a) = Inr (pb', allocs', db')"
      "\<forall>x \<in> set (db_ledgers db). led_id x \<noteq> led_id (ls ! i) \<longrightarrow> x \<in> set (db_ledgers db')"
    using consume_pool_step_total[OF inv, of ls i a bw env r u now pb allocs] Cons.prems(3) p by auto
  have wf: "db_wf env db'"
    using consume_pool_step_db[OF step(1) Cons.prems(1)] Cons.prems(3) p by auto
  have "\<exists>s'. try_fold (consume_pool_step env r u now bw ls) (pb', allocs', db') plan = Inr s'"
  proof (rule Cons.IH[OF wf])
    show "distinct (map (\<lambda>p. led_id (ls ! fst p)) plan)" using Cons.prems(2) by simp
    show "\<forall>(i, a) \<in> set plan. ls ! i \<in> set (db_ledgers db') \<and> 0 < a \<and> a \<le> remaining_amount (ls ! i) \<and>
           map_of bw (led_bucket_id (ls ! i)) \<noteq> None"
      using Cons.prems(2,3) p step(2) by (fastforce simp: image_iff)
  qed
  with step(1) p show ?case by simp
qed

section \<open>Writing the transactions\<close>

lemma write_consume_transaction_total:
  assumes "db_wf env db" "w \<in> wal_id ` set (db_wallets db)" "0 < amt" "tid \<notin> txn_id ` set (db_transactions db)"
  shows "\<exists>t db'. write_consume_transaction env req c db tid w b ct amt = Inr (t, db')"
proof -
  obtain x where x: "x \<in> set (db_wallets db)" "wal_id x = w" using assms(2) by blast
  have winv: "wallets_inv (db_wallets db)" using assms(1) by (simp add: db_wf_def db_inv_def)
  then have f: "find (\<lambda>y. wal_id y = w) (db_wallets db) = Some x"
    using find_key_in[of wal_id "db_wallets db" x] x by (simp add: wallets_inv_def)
  have "wallet_check (add_wallet_delta env (consumed_delta amt) x)"
    using winv x(1) assms(3) by (auto simp: wallets_inv_def wallet_check_def add_wallet_delta_def consumed_delta_def)
  then obtain db1 where d: "apply_wallet_delta_in_tx env db w (consumed_delta amt) =
      Inr (add_wallet_delta env (consumed_delta amt) x, db1)" "db_transactions db1 = db_transactions db"
    using f by (auto simp: apply_wallet_delta_in_tx_def Let_def ensure_def)
  obtain ba ta sa where snap: "derived_to_balance_snapshots
      (compute_available_balance db1 (cr_realm_id req) (cr_user_id req) [b] (env_now env)) = (ba, ta, sa)"
    by (metis prod_cases3)
  from snapshots_nonneg[OF snap] assms(4) d snap show ?thesis
    by (auto simp: write_consume_transaction_def create_transaction_in_tx_def ensure_def Let_def)
qed

lemma fresh_id_unstored: "db_wf env db \<Longrightarrow> env_uuid env (db_seq db) \<notin> txn_id ` set (db_transactions db)"
  by (simp add: db_wf_def ids_fresh_def)

lemma wallet_ids_image: "wallet_ids db' = wallet_ids db \<Longrightarrow> wal_id ` set (db_wallets db') = wal_id ` set (db_wallets db)"
proof -
  assume "wallet_ids db' = wallet_ids db"
  then have "map fst (wallet_ids db') = map fst (wallet_ids db)" by simp
  then have "map wal_id (db_wallets db') = map wal_id (db_wallets db)" by (simp add: wallet_ids_def comp_def)
  then show ?thesis by (metis list.set_map)
qed

text \<open>What the window transactions of one bucket may change, and what they spend per credit type.\<close>

definition typed_spent :: "uuid \<Rightarrow> credit_type \<Rightarrow> points_transaction list \<Rightarrow> i64" where
  "typed_spent b ct ts =
     sum_list (map (\<lambda>t. \<bar>txn_amount t\<bar>) (filter (\<lambda>t. txn_bucket_id t = b \<and> txn_credit_type t = Some ct) ts))"

lemma typed_spent_simps [simp]:
  "typed_spent b ct [] = 0" "typed_spent b ct (ts @ us) = typed_spent b ct ts + typed_spent b ct us"
  "typed_spent b ct [t] = (if txn_bucket_id t = b \<and> txn_credit_type t = Some ct then \<bar>txn_amount t\<bar> else 0)"
  by (simp_all add: typed_spent_def)

definition window_rows :: "env \<Rightarrow> uuid set \<Rightarrow> points_db \<Rightarrow> points_transaction list \<Rightarrow> points_db \<Rightarrow> bool" where
  "window_rows env bs db new db' \<longleftrightarrow>
     db_wf env db' \<and> wallet_ids db' = wallet_ids db \<and> untouched db' = untouched db \<and>
     db_transactions db' = db_transactions db @ new \<and> (\<forall>t \<in> set new. txn_bucket_id t \<in> bs)"

lemma window_rows_refl: "db_wf env db \<Longrightarrow> window_rows env bs db [] db"
  by (simp add: window_rows_def)

lemma window_rows_trans:
  "window_rows env as db xs db1 \<Longrightarrow> window_rows env bs db1 ys db2 \<Longrightarrow> as \<subseteq> cs \<Longrightarrow> bs \<subseteq> cs \<Longrightarrow>
     window_rows env cs db (xs @ ys) db2"
  by (auto simp: window_rows_def)

lemma window_rows_spendable:
  assumes "window_rows env bs db new db'" "b \<notin> bs"
  shows "compute_window_spendable_in_tx db' r u b ct now = compute_window_spendable_in_tx db r u b ct now"
proof -
  have "filter (\<lambda>t. txn_realm_id t = r \<and> txn_user_id t = u \<and> txn_bucket_id t = b \<and>
      txn_credit_type t = Some ct \<and> txn_transaction_type t = Consume \<and> st \<le> txn_created_at t) new = []" for st
    using assms by (auto simp: window_rows_def filter_empty_conv)
  then have "sum_consume_in_window db' r u b ct = sum_consume_in_window db r u b ct"
    using assms by (simp add: window_rows_def sum_consume_in_window_def fun_eq_iff)
  moreover have "active_entitlements db' r u b ct now = active_entitlements db r u b ct now"
    using assms(1) by (auto simp: window_rows_def active_entitlements_def dest: untouched_eq)
  ultimately show ?thesis
    by (simp add: compute_window_spendable_in_tx_def Let_def cong: if_cong)
qed

lemma consume_window_part_total:
  assumes "db_wf env db" "w \<in> wal_id ` set (db_wallets db)"
  shows "\<exists>new db'. consume_window_part env req c w b (consumed, ts, db) (ct, part) =
      Inr (consumed + max 0 part, ts @ new, db') \<and> window_rows env {b} db new db' \<and>
    (\<forall>b' ct'. typed_spent b' ct' new = (if b' = b \<and> ct' = ct then max 0 part else 0))"
proof (cases "part \<le> 0")
  case True
  with assms(1) show ?thesis
    by (intro exI[of _ "[]"] exI[of _ db]) (simp add: consume_window_part_def window_rows_refl)
next
  case False
  let ?db = "db\<lparr>db_seq := Suc (db_seq db)\<rparr>" and ?i = "env_uuid env (db_seq db)"
  have wf: "db_wf env ?db"
    by (rule db_wf_now_v7[OF assms(1)]) (simp add: now_v7_def)
  obtain t db' where t: "write_consume_transaction env req c ?db ?i w b (Some ct) part = Inr (t, db')"
    using write_consume_transaction_total[OF wf, of w part ?i] assms False fresh_id_unstored[OF assms(1)] by force
  have "\<forall>n \<ge> db_seq ?db. env_uuid env n \<noteq> ?i"
    using db_wf_inj[OF assms(1)] by (auto simp: inj_eq)
  note e = write_consume_transaction_effect[OF t wf _ this]
  from t False e show ?thesis
    by (intro exI[of _ "[t]"] exI[of _ db'])
      (simp add: consume_window_part_def now_v7_def window_rows_def wallet_ids_def)
qed

definition headroom :: "env \<Rightarrow> consume_request \<Rightarrow> points_db \<Rightarrow> uuid \<Rightarrow> i64" where
  "headroom env req db b = bucket_window_headroom db (cr_realm_id req) (cr_user_id req) (env_now env) b"

definition spendable :: "env \<Rightarrow> consume_request \<Rightarrow> points_db \<Rightarrow> uuid \<Rightarrow> credit_type \<Rightarrow> i64" where
  "spendable env req db b ct =
     (if ct = SubscriptionCredit \<or> ct = FreePeriodicCredit
      then compute_window_spendable_in_tx db (cr_realm_id req) (cr_user_id req) b ct (env_now env) else 0)"

lemma spendable_nonneg: "0 \<le> spendable env req db b ct"
  by (simp add: spendable_def window_spendable_nonneg)

lemma headroom_split:
  "headroom env req db b = spendable env req db b SubscriptionCredit + spendable env req db b FreePeriodicCredit"
  by (simp add: headroom_def spendable_def bucket_window_headroom_def)

lemma headroom_nonneg: "0 \<le> headroom env req db b"
  by (simp add: headroom_split add_nonneg_nonneg spendable_nonneg)

lemma consume_window_step_total:
  assumes "db_wf env db" "map_of bw b = Some w" "w \<in> wal_id ` set (db_wallets db)" "0 \<le> rem"
  shows "\<exists>new db'. consume_window_step env req c bw (rem, consumed, ts, db) b =
      Inr (max 0 (rem - headroom env req db b), consumed + min rem (headroom env req db b), ts @ new, db') \<and>
    window_rows env {b} db new db' \<and>
    (\<forall>b' ct. typed_spent b' ct new \<le> (if b' = b then spendable env req db b ct else 0))"
proof (cases "rem = 0")
  case True
  with assms(1) show ?thesis
    by (intro exI[of _ "[]"] exI[of _ db])
      (simp add: consume_window_step_idle window_rows_refl headroom_nonneg spendable_nonneg)
next
  case False
  define s where "s = window_split_at env req db b rem"
  have s: "0 \<le> sub_part s" "sub_part s \<le> spendable env req db b SubscriptionCredit"
      "0 \<le> free_part s" "free_part s \<le> spendable env req db b FreePeriodicCredit"
      "sub_part s + free_part s + window_remainder s = rem"
      "window_remainder s = max 0 (rem - headroom env req db b)"
    using split_window_parts[OF assms(4), of "spendable env req db b SubscriptionCredit" "spendable env req db b FreePeriodicCredit"]
      spendable_nonneg[of env req db b]
    by (simp_all add: s_def window_split_at_def spendable_def headroom_split max_absorb1 window_spendable_nonneg)
  obtain xs db1 where x: "consume_window_part env req c w b (consumed, ts, db) (SubscriptionCredit, sub_part s) =
      Inr (consumed + sub_part s, ts @ xs, db1)" "window_rows env {b} db xs db1"
      "\<forall>b' ct'. typed_spent b' ct' xs = (if b' = b \<and> ct' = SubscriptionCredit then sub_part s else 0)"
    using consume_window_part_total[OF assms(1,3)] s(1) by (metis max_absorb2)
  then have "db_wf env db1" "w \<in> wal_id ` set (db_wallets db1)"
    using assms(3) by (auto simp: window_rows_def dest: wallet_ids_image)
  then obtain ys db2 where y: "consume_window_part env req c w b (consumed + sub_part s, ts @ xs, db1)
        (FreePeriodicCredit, free_part s) = Inr (consumed + sub_part s + free_part s, (ts @ xs) @ ys, db2)"
      "window_rows env {b} db1 ys db2"
      "\<forall>b' ct'. typed_spent b' ct' ys = (if b' = b \<and> ct' = FreePeriodicCredit then free_part s else 0)"
    using consume_window_part_total s(3) by (metis max_absorb2)
  have rows: "window_rows env {b} db (xs @ ys) db2"
    by (rule window_rows_trans[OF x(2) y(2)]) auto
  have step: "consume_window_step env req c bw (rem, consumed, ts, db) b =
      Inr (window_remainder s, consumed + sub_part s + free_part s, ts @ xs @ ys, db2)"
    using False assms(2,4) x(1) y(1) by (subst consume_window_step_active) (auto simp: s_def[symmetric])
  have "typed_spent b' ct (xs @ ys) \<le> (if b' = b then spendable env req db b ct else 0)" for b' ct
    using x(3) y(3) s(2,4) spendable_nonneg[of env req db b ct] by auto
  moreover have "sub_part s + free_part s = min rem (headroom env req db b)"
    using s(5,6) by linarith
  ultimately show ?thesis
    using step rows s(6) by (metis add.assoc)
qed

lemma consume_window_total:
  assumes "db_wf env db" "\<forall>b \<in> set bs. \<exists>w. map_of bw b = Some w \<and> w \<in> wal_id ` set (db_wallets db)"
    and "0 \<le> rem" "distinct bs"
  shows "\<exists>new db'. try_fold (consume_window_step env req c bw) (rem, consumed, ts, db) bs =
      Inr (max 0 (rem - sum_list (map (headroom env req db) bs)),
           consumed + min rem (sum_list (map (headroom env req db) bs)), ts @ new, db') \<and>
    window_rows env (set bs) db new db' \<and>
    (\<forall>b ct. typed_spent b ct new \<le> (if b \<in> set bs then spendable env req db b ct else 0))"
  using assms
proof (induction bs arbitrary: rem consumed ts db)
  case Nil
  then show ?case
    by (intro exI[of _ "[]"] exI[of _ db]) (simp add: window_rows_refl)
next
  case (Cons b bs)
  let ?h = "headroom env req db b" and ?r = "max 0 (rem - headroom env req db b)"
  have hb: "0 \<le> ?h" by (rule headroom_nonneg)
  obtain w where "map_of bw b = Some w" "w \<in> wal_id ` set (db_wallets db)" using Cons.prems(2) by auto
  with consume_window_step_total[OF Cons.prems(1), of bw b w rem req c consumed ts] Cons.prems(3)
  obtain xs db1 where x: "consume_window_step env req c bw (rem, consumed, ts, db) b =
        Inr (?r, consumed + min rem ?h, ts @ xs, db1)"
      "window_rows env {b} db xs db1"
      "\<forall>b' ct. typed_spent b' ct xs \<le> (if b' = b then spendable env req db b ct else 0)"
    by blast
  have wf1: "db_wf env db1" using x(2) by (simp add: window_rows_def)
  have same: "headroom env req db1 b' = headroom env req db b'" "spendable env req db1 b' = spendable env req db b'"
    if "b' \<in> set bs" for b'
  proof -
    have "b' \<notin> {b}" using that Cons.prems(4) by auto
    note window_rows_spendable[OF x(2) this]
    then show "headroom env req db1 b' = headroom env req db b'" "spendable env req db1 b' = spendable env req db b'"
      by (simp_all add: headroom_split spendable_def fun_eq_iff)
  qed
  then have sum: "map (headroom env req db1) bs = map (headroom env req db) bs" by simp
  have hs: "0 \<le> sum_list (map (headroom env req db) bs)"
    by (intro sum_list_map_nonneg headroom_nonneg)
  have "\<forall>b \<in> set bs. \<exists>w. map_of bw b = Some w \<and> w \<in> wal_id ` set (db_wallets db1)"
    using Cons.prems(2) wallet_ids_image[of db1 db] x(2) by (auto simp: window_rows_def)
  with Cons.IH[OF wf1, of ?r "consumed + min rem ?h" "ts @ xs"] Cons.prems(4)
  obtain ys db2 where y: "try_fold (consume_window_step env req c bw) (?r, consumed + min rem ?h, ts @ xs, db1) bs =
      Inr (max 0 (?r - sum_list (map (headroom env req db) bs)),
           consumed + min rem ?h + min ?r (sum_list (map (headroom env req db) bs)), (ts @ xs) @ ys, db2)"
      "window_rows env (set bs) db1 ys db2"
      "\<forall>b ct. typed_spent b ct ys \<le> (if b \<in> set bs then spendable env req db1 b ct else 0)"
    unfolding sum by auto
  have "window_rows env (set (b # bs)) db (xs @ ys) db2"
    by (rule window_rows_trans[OF x(2) y(2)]) auto
  moreover have "typed_spent b' ct (xs @ ys) \<le> (if b' \<in> set (b # bs) then spendable env req db b' ct else 0)" for b' ct
    using x(3)[rule_format, of b' ct] y(3)[rule_format, of b' ct] Cons.prems(4) same(2)[of b']
    by (auto split: if_splits)
  moreover have "max 0 (?r - sum_list (map (headroom env req db) bs)) =
      max 0 (rem - sum_list (map (headroom env req db) (b # bs)))"
    "min rem ?h + min ?r (sum_list (map (headroom env req db) bs)) =
      min rem (sum_list (map (headroom env req db) (b # bs)))"
    using hb hs Cons.prems(3) by (auto simp: min_def max_def)
  ultimately show ?case
    using x(1) y(1) by (intro exI[of _ "xs @ ys"] exI[of _ db2]) (simp add: add.assoc)
qed

lemma consume_pool_transactions_total:
  assumes "db_wf env db" "distinct (map (\<lambda>(b, w, tot, t). t) pb)"
    and "\<forall>(b, w, tot, t) \<in> set pb. 0 < tot \<and> w \<in> wal_id ` set (db_wallets db) \<and>
           t \<notin> txn_id ` set (db_transactions db) \<and> (\<exists>n < db_seq db. t = env_uuid env n)"
  shows "\<exists>s'. try_fold (consume_pool_transaction env req c) (ts, db) pb = Inr s'"
  using assms
proof (induction pb arbitrary: ts db)
  case Nil
  then show ?case by simp
next
  case (Cons p pb)
  obtain b w tot tid where p: "p = (b, w, tot, tid)" by (metis prod_cases4)
  have pos: "0 < tot" and w: "w \<in> wal_id ` set (db_wallets db)" and
    tid: "tid \<notin> txn_id ` set (db_transactions db)" and n: "\<exists>n < db_seq db. tid = env_uuid env n"
    using Cons.prems(3) p by auto
  obtain t db1 where t: "write_consume_transaction env req c db tid w b None tot = Inr (t, db1)"
    using write_consume_transaction_total[OF Cons.prems(1) w pos tid] by blast
  have "\<forall>n \<ge> db_seq db. env_uuid env n \<noteq> tid"
    using n db_wf_inj[OF Cons.prems(1)] by (auto simp: inj_eq)
  note e = write_consume_transaction_effect[OF t Cons.prems(1) pos this]
  have "\<forall>(b, w, tot, t) \<in> set pb. 0 < tot \<and> w \<in> wal_id ` set (db_wallets db1) \<and>
      t \<notin> txn_id ` set (db_transactions db1) \<and> (\<exists>n < db_seq db1. t = env_uuid env n)"
  proof (clarify, intro conjI)
    fix b' w' tot' t' assume mem: "(b', w', tot', t') \<in> set pb"
    from mem Cons.prems(3) have old: "0 < tot'" "w' \<in> wal_id ` set (db_wallets db)"
        "t' \<notin> txn_id ` set (db_transactions db)" "\<exists>n < db_seq db. t' = env_uuid env n"
      by auto
    have "t' \<noteq> tid" using mem Cons.prems(2) p by force
    with old e(3,8,12) wallet_ids_image[OF e(13)] show "0 < tot'" "w' \<in> wal_id ` set (db_wallets db1)"
      "t' \<notin> txn_id ` set (db_transactions db1)" "\<exists>n < db_seq db1. t' = env_uuid env n"
      by simp_all
  qed
  with Cons.IH[OF e(1)] Cons.prems(2) obtain s' where
    "try_fold (consume_pool_transaction env req c) (ts @ [t], db1) pb = Inr s'"
    by fastforce
  moreover have "consume_pool_transaction env req c (ts, db) p = Inr (ts @ [t], db1)"
    using t p by (simp add: consume_pool_transaction_def)
  ultimately show ?case by simp
qed

lemma create_allocations_total:
  "\<forall>a \<in> set allocs. alloc_wallet_id a \<noteq> None \<and> 0 < alloc_allocated_amount a \<and> 0 \<le> alloc_ledger_remaining_after a
     \<Longrightarrow> \<exists>db'. try_fold (create_consumption_allocation_in_tx env) db allocs = Inr db'"
  by (induction allocs arbitrary: db)
    (auto simp: create_consumption_allocation_in_tx_def ensure_def)

section \<open>The whole transaction\<close>

lemma window_available_headroom: "window_available env req covered db = sum_list (map (headroom env req db) covered)"
  unfolding window_available_def headroom_def[abs_def] by simp

text \<open>The plan over the locked ledgers names distinct rows that can pay what it takes of them.\<close>

lemma plan_payable:
  fixes env req covered pp
  assumes "db_inv db"
  defines "ls \<equiv> pool_ledgers env req covered db"
  defines "plan \<equiv> cp_allocations (plan_consume_allocation ls pp)"
  shows "distinct (map (\<lambda>p. led_id (ls ! fst p)) plan)"
    "\<forall>(i, a) \<in> set plan. ls ! i \<in> set ls \<and> 0 < a \<and> a \<le> remaining_amount (ls ! i)"
proof -
  have mem: "i < length ls \<and> 0 < a \<and> a \<le> remaining_amount (ls ! i)" if "(i, a) \<in> set plan" for i a
    using that plan_allocation_loop_member[of i a 0 ls pp]
    by (simp add: plan_def plan_consume_allocation_simps)
  then show "\<forall>(i, a) \<in> set plan. ls ! i \<in> set ls \<and> 0 < a \<and> a \<le> remaining_amount (ls ! i)"
    by (auto intro: nth_mem)
  have dist: "distinct (map led_id ls)" unfolding ls_def by (rule pool_ledgers_distinct[OF assms(1)])
  have "inj_on (\<lambda>i. led_id (ls ! i)) (fst ` set plan)"
  proof (rule inj_onI)
    fix i j assume "i \<in> fst ` set plan" "j \<in> fst ` set plan" "led_id (ls ! i) = led_id (ls ! j)"
    then show "i = j"
      using mem nth_eq_iff_index_eq[OF dist, of i j] by fastforce
  qed
  moreover have "distinct (map fst plan)"
    unfolding plan_def plan_consume_allocation_simps by (rule plan_allocation_loop_distinct)
  ultimately have "distinct (map (\<lambda>i. led_id (ls ! i)) (map fst plan))"
    by (simp only: distinct_map[of _ "map fst plan"] set_map simp_thms)
  then show "distinct (map (\<lambda>p. led_id (ls ! fst p)) plan)" by (simp add: comp_def)
qed

lemma lock_wallets_ids:
  assumes "try_fold (lock_bucket_wallet env r u) ([], db0) bs = Inr (bw, db)"
  shows "snd ` set bw \<subseteq> wal_id ` set (db_wallets db)"
proof -
  define P :: "(uuid \<times> uuid) list \<times> points_db \<Rightarrow> bool" where
    "P s \<longleftrightarrow> snd ` set (fst s) \<subseteq> wal_id ` set (db_wallets (snd s))" for s
  have "P (bw, db)"
  proof (rule try_fold_invariant[OF assms])
    fix s b s' assume "P s" and step: "lock_bucket_wallet env r u s b = Inr s'"
    obtain bw0 db0 bw1 db1 where s: "s = (bw0, db0)" "s' = (bw1, db1)" by (cases s, cases s')
    from step s obtain w where w: "ensure_wallet_in_tx env db0 r u b = Inr (w, db1)"
        "bw1 = bt_upsert b (\<lambda>_. wal_id w) bw0"
      by (auto simp: lock_bucket_wallet_def result_simps)
    from w(1) have sub: "w \<in> set (db_wallets db1)" "set (db_wallets db0) \<subseteq> set (db_wallets db1)"
      by (cases rule: ensure_wallet_InrE; simp; blast)+
    have "snd ` set bw1 \<subseteq> insert (wal_id w) (snd ` set bw0)"
      unfolding w(2) using set_bt_upsert_const[of b "wal_id w" bw0] by force
    also have "\<dots> \<subseteq> wal_id ` set (db_wallets db1)"
      using sub \<open>P s\<close> image_mono[OF sub(2), of wal_id] by (simp add: P_def s)
    finally show "P s'" by (simp add: P_def s)
  qed (simp add: P_def)
  then show ?thesis by (simp add: P_def)
qed

text \<open>
  The lock and pool phases of a consume that the plan accepts, with what the later phases need
  of them.
\<close>

lemma consume_pool_phase:
  fixes env req covered db0
  assumes "db_wf env db0" "user_ready db0 (cr_realm_id req) (cr_user_id req) covered"
    and "0 \<le> cr_amount req"
    and "cr_amount req \<le> window_available env req covered db0 + pool_available env req covered db0"
  defines "pp \<equiv> pool_part_of env req covered db0"
  obtains bw db1 pb allocs db2 where
    "try_fold (lock_bucket_wallet env (cr_realm_id req) (cr_user_id req)) ([], db0) covered = Inr (bw, db1)"
    "plan_mixed_consume (window_available env req covered db1) (pool_available env req covered db1)
       (cr_amount req) = PlanOk (cr_amount req - pp) pp"
    "cp_fully_covers (plan_consume_allocation (pool_ledgers env req covered db1) pp)"
    "try_fold (consume_pool_step env (cr_realm_id req) (cr_user_id req) (env_now env) bw
       (pool_ledgers env req covered db1)) ([], [], db1)
       (cp_allocations (plan_consume_allocation (pool_ledgers env req covered db1) pp)) = Inr (pb, allocs, db2)"
    "totals pb = pp" "pool_acc_ok env (db_seq db1) bw (pb, allocs, db2)"
    "\<forall>b \<in> set covered. map_of bw b \<noteq> None" "snd ` set bw \<subseteq> wal_id ` set (db_wallets db2)"
    "db_transactions db2 = db_transactions db0" "db_entitlements db2 = db_entitlements db0"
    "db_wf env db2" "db_wf env db1" "db_transactions db1 = db_transactions db0"
proof -
  obtain bw db1 where lock:
    "try_fold (lock_bucket_wallet env (cr_realm_id req) (cr_user_id req)) ([], db0) covered = Inr (bw, db1)"
    using lock_wallets_ready[of env "cr_realm_id req" "cr_user_id req" "[]" db0 covered] assms(2) by auto
  have l: "db_wf env db1 \<and> untouched db1 = untouched db0 \<and> db_ledgers db1 = db_ledgers db0 \<and>
      db_transactions db1 = db_transactions db0 \<and> (\<forall>b \<in> set covered. locked db1 (cr_realm_id req) (cr_user_id req) bw b)"
    using lock_wallets_effect[OF lock assms(1)] by simp
  then have bwc: "\<forall>b \<in> set covered. map_of bw b \<noteq> None" by (auto simp: locked_def)
  let ?ls = "pool_ledgers env req covered db1"
  let ?plan = "cp_allocations (plan_consume_allocation ?ls pp)"
  have av: "window_available env req covered db1 = window_available env req covered db0"
    "pool_available env req covered db1 = pool_available env req covered db0"
    using l by (auto intro!: window_available_cong pool_available_cong dest: untouched_eq)
  have nn: "0 \<le> window_available env req covered db0" "0 \<le> pool_available env req covered db0"
    by (rule window_available_nonneg, rule pool_available_nonneg)
  have pp: "0 \<le> pp" "pp \<le> pool_available env req covered db1"
    using assms(4) nn by (auto simp: pp_def pool_part_of_def av)
  have plan: "plan_mixed_consume (window_available env req covered db1) (pool_available env req covered db1)
       (cr_amount req) = PlanOk (cr_amount req - pp) pp"
    using assms(4) nn by (auto simp: plan_mixed_consume_Ok_iff av pp_def pool_part_of_def)
  have cov: "cp_fully_covers (plan_consume_allocation ?ls pp)"
    using pp by (simp add: plan_covers_iff pool_available_capacity)
  have inv: "db_inv db1" using l by (simp add: db_wf_def)
  note pay = plan_payable[OF inv, of env req covered pp]
  have "\<exists>s'. try_fold (consume_pool_step env (cr_realm_id req) (cr_user_id req) (env_now env) bw ?ls) ([], [], db1) ?plan = Inr s'"
    by (rule consume_pool_total) (use l pay bwc in \<open>auto simp: pool_ledgers_member\<close>)
  then obtain pb allocs db2 where pool:
    "try_fold (consume_pool_step env (cr_realm_id req) (cr_user_id req) (env_now env) bw ?ls) ([], [], db1) ?plan =
       Inr (pb, allocs, db2)"
    by (metis prod_cases3)
  have sum: "sum_list (map snd ?plan) = pp"
    using plan_allocation_loop_sum[of 0 ?ls pp] plan_allocation_loop_rest[of 0 ?ls pp] pp
    by (auto simp: plan_consume_allocation_simps pool_available_capacity)
  have acc0: "pool_acc_ok env (db_seq db1) bw ([], [], db1)"
    by (simp add: pool_acc_ok_def totals_def)
  have pos: "\<forall>(i, a) \<in> set ?plan. 0 < a" using pay(2) by auto
  from l have "db_wf env db1" by simp
  note p = consume_pool_effect[OF pool this acc0 pos]
  show ?thesis
    using p l sum lock_wallets_ids[OF lock] untouched_eq(1)[of db2 db1] untouched_eq(1)[of db1 db0]
    by (intro that[OF lock plan cov pool _ _ bwc]) (auto simp: totals_def)
qed

lemma consume_fresh_total:
  assumes "db_wf env db0" "user_ready db0 (cr_realm_id req) (cr_user_id req) covered" "distinct covered"
    and "0 \<le> cr_amount req"
    and "cr_amount req \<le> window_available env req covered db0 + pool_available env req covered db0"
  shows "\<exists>ts db'. consume_fresh env req c covered db0 = Inr (ts, db') \<and>
    (\<forall>b ct. typed_spent b ct ts \<le> (if b \<in> set covered then spendable env req db0 b ct else 0))"
proof -
  let ?pp = "pool_part_of env req covered db0"
  obtain bw db1 pb allocs db2 where
    lock: "try_fold (lock_bucket_wallet env (cr_realm_id req) (cr_user_id req)) ([], db0) covered = Inr (bw, db1)" and
    plan: "plan_mixed_consume (window_available env req covered db1) (pool_available env req covered db1)
       (cr_amount req) = PlanOk (cr_amount req - ?pp) ?pp" and
    cov: "cp_fully_covers (plan_consume_allocation (pool_ledgers env req covered db1) ?pp)" and
    pool: "try_fold (consume_pool_step env (cr_realm_id req) (cr_user_id req) (env_now env) bw
       (pool_ledgers env req covered db1)) ([], [], db1)
       (cp_allocations (plan_consume_allocation (pool_ledgers env req covered db1) ?pp)) = Inr (pb, allocs, db2)" and
    tot: "totals pb = ?pp" and acc: "pool_acc_ok env (db_seq db1) bw (pb, allocs, db2)" and
    bwc: "\<forall>b \<in> set covered. map_of bw b \<noteq> None" and bwi: "snd ` set bw \<subseteq> wal_id ` set (db_wallets db2)" and
    db2: "db_transactions db2 = db_transactions db0" "db_entitlements db2 = db_entitlements db0"
      "db_wf env db2" and db1: "db_wf env db1" "db_transactions db1 = db_transactions db0"
    by (rule consume_pool_phase[OF assms(1,2,4,5)])
  have bws: "w \<in> wal_id ` set (db_wallets db2)" if "map_of bw b = Some w" for b w
    using bwi map_of_SomeD[OF that] by force
  have sp: "headroom env req db2 = headroom env req db0" "spendable env req db2 = spendable env req db0"
    using db2(1,2) by (auto simp: fun_eq_iff headroom_split spendable_def window_spendable_cong[of db2 db0])
  let ?wp = "cr_amount req - ?pp" and ?h = "sum_list (map (headroom env req db0) covered)"
  have h: "0 \<le> ?h" by (intro sum_list_map_nonneg headroom_nonneg)
  have wp: "0 \<le> ?wp" "?wp \<le> ?h"
    using assms(4) h by (auto simp: pool_part_of_def window_available_headroom)
  have "\<forall>b \<in> set covered. \<exists>w. map_of bw b = Some w \<and> w \<in> wal_id ` set (db_wallets db2)"
    using bwc bws by blast
  from consume_window_total[OF db2(3) this wp(1) assms(3), of req c 0 "[]"] wp
  obtain ws db3 where win: "try_fold (consume_window_step env req c bw) (?wp, 0, [], db2) covered =
        Inr (max 0 (?wp - ?h), ?wp, ws, db3)" "window_rows env (set covered) db2 ws db3"
      "\<forall>b ct. typed_spent b ct ws \<le> (if b \<in> set covered then spendable env req db0 b ct else 0)"
    unfolding sp by (auto simp: min_absorb1)
  have wacc: "window_acc env req c db2 (?wp, ws, db3)"
    by (rule consume_window_effect[OF win(1)]) (use db2 in \<open>simp add: window_acc_def rows_written_def\<close>)
  have ids: "t \<notin> txn_id ` set (db_transactions db3) \<and> (\<exists>n < db_seq db3. t = env_uuid env n)"
    if "db_seq db1 \<le> n" "n < db_seq db2" "t = env_uuid env n" for t n
  proof -
    have "t \<notin> txn_id ` set (db_transactions db0)"
      using that db1 by (auto simp: db_wf_def ids_fresh_def)
    moreover have "t \<notin> txn_id ` set ws"
      using that wacc db_wf_inj[OF db1(1)] by (force simp: window_acc_def inj_eq)
    ultimately show ?thesis
      using that wacc db2(1) by (auto simp: window_acc_def rows_written_def intro!: exI[of _ n])
  qed
  have pbok: "distinct (map (\<lambda>(b, w, tot, t). t) pb)"
    "\<forall>(b, w, tot, t) \<in> set pb. 0 < tot \<and> map_of bw b = Some w \<and> (\<exists>n. db_seq db1 \<le> n \<and> n < db_seq db2 \<and> t = env_uuid env n)"
    using acc by (auto simp: pool_acc_ok_def)
  have pend: "\<forall>(b, w, tot, t) \<in> set pb. 0 < tot \<and> w \<in> wal_id ` set (db_wallets db3) \<and>
      t \<notin> txn_id ` set (db_transactions db3) \<and> (\<exists>n < db_seq db3. t = env_uuid env n)"
  proof (clarify, intro conjI)
    fix b w tot t assume "(b, w, tot, t) \<in> set pb"
    with pbok(2) obtain n where n: "0 < tot" "map_of bw b = Some w" "db_seq db1 \<le> n" "n < db_seq db2" "t = env_uuid env n"
      by blast
    have "wal_id ` set (db_wallets db3) = wal_id ` set (db_wallets db2)"
      by (rule wallet_ids_image) (use win(2) in \<open>simp add: window_rows_def\<close>)
    with n ids[OF n(3-5)] bws[OF n(2)] show "0 < tot" "w \<in> wal_id ` set (db_wallets db3)"
      "t \<notin> txn_id ` set (db_transactions db3)" "\<exists>n < db_seq db3. t = env_uuid env n"
      by simp_all
  qed
  from consume_pool_transactions_total[OF _ pbok(1) pend, of req c ws] win(2) obtain ts db4 where
    ptx: "try_fold (consume_pool_transaction env req c) (ws, db3) pb = Inr (ts, db4)"
    by (auto simp: window_rows_def)
  from create_allocations_total[of allocs env db4] acc obtain db5 where
    all: "try_fold (create_consumption_allocation_in_tx env) db4 allocs = Inr db5"
    by (auto simp: pool_acc_ok_def)
  have "consume_fresh env req c covered db0 = Inr (ts, db5)"
    unfolding consume_fresh_def Let_def pool_ledgers_def[symmetric] totals_def[symmetric]
      window_available_def[symmetric] pool_available_def[symmetric] ensure_def
    by (simp add: lock plan cov pool tot win(1) ptx all)
  moreover have "\<forall>(b, w, tot, t) \<in> set pb. 0 < tot \<and> (\<exists>n < db_seq db3. t = env_uuid env n)"
    using pend by blast
  with consume_pool_transactions_effect[OF ptx, of db2] wacc obtain new where
    new: "ts = ws @ new" "\<forall>t \<in> set new. txn_credit_type t = None"
    by (auto simp: window_acc_def)
  have "typed_spent b ct new = 0" for b ct
    using new(2) by (auto simp: typed_spent_def filter_empty_conv intro: arg_cong[of _ "[]"])
  ultimately show ?thesis using win(3) new(1) by (intro exI[of _ ts] exI[of _ db5]) simp
qed

lemma consume_fresh_needs_ready:
  "consume_fresh env req c covered db0 = Inr x \<Longrightarrow> user_ready db0 (cr_realm_id req) (cr_user_id req) covered"
  using lock_wallets_ready[of env "cr_realm_id req" "cr_user_id req" "[]" db0 covered]
  by (auto simp: consume_fresh_def and_then_Inr_iff)

lemma consume_fresh_insufficient:
  assumes "db_wf env db0" "user_ready db0 (cr_realm_id req) (cr_user_id req) covered"
    and "window_available env req covered db0 + pool_available env req covered db0 < cr_amount req"
  shows "consume_fresh env req c covered db0 =
    Inl (insufficient_points (cr_amount req) (window_available env req covered db0 + pool_available env req covered db0))"
proof -
  obtain bw db1 where lock:
    "try_fold (lock_bucket_wallet env (cr_realm_id req) (cr_user_id req)) ([], db0) covered = Inr (bw, db1)"
    using lock_wallets_ready[of env "cr_realm_id req" "cr_user_id req" "[]" db0 covered] assms(2) by auto
  then have av: "window_available env req covered db1 = window_available env req covered db0"
    "pool_available env req covered db1 = pool_available env req covered db0"
    using lock_wallets_effect[OF lock assms(1)]
    by (auto intro!: window_available_cong pool_available_cong dest: untouched_eq)
  have "plan_mixed_consume (window_available env req covered db1) (pool_available env req covered db1)
      (cr_amount req) = PlanInsufficient"
    using assms(3) window_available_nonneg[of env req covered db0] pool_available_nonneg[of env req covered db0]
    by (simp add: plan_mixed_consume_Insufficient_iff av)
  with lock show ?thesis
    by (simp add: consume_fresh_def Let_def pool_ledgers_def[symmetric]
        window_available_def[symmetric] pool_available_def[symmetric] av)
qed

end
