(* ===== verification/PointsConsumeLedgers.thy ===== *)
theory PointsConsumeLedgers
  imports PointsConsumeProgress
begin

text \<open>
  The exact effect of a consume on the ledger table: every row of the pool is drawn down by what
  the reference allocation assigns to it, in expiry order, and no other row changes.
\<close>

definition draw :: "env \<Rightarrow> i64 \<Rightarrow> points_credit_ledger \<Rightarrow> points_credit_ledger" where
  "draw env a l =
     (if a = 0 then l
      else l\<lparr>led_used_amount := led_used_amount l + a,
             led_status := (if remaining_amount l = a then LedgerFullyUsed else led_status l),
             led_updated_at := env_sql_now env\<rparr>)"

text \<open>What the plan takes from a row, and what the reference allocation does.\<close>

definition plan_take :: "points_credit_ledger list \<Rightarrow> (nat \<times> i64) list \<Rightarrow> points_credit_ledger \<Rightarrow> i64" where
  "plan_take ls plan l = sum_list (map snd (filter (\<lambda>p. led_id (ls ! fst p) = led_id l) plan))"

definition pool_take :: "points_credit_ledger list \<Rightarrow> i64 \<Rightarrow> points_credit_ledger \<Rightarrow> i64" where
  "pool_take pool amount l =
     sum_list (map (\<lambda>i. if led_id (pool ! i) = led_id l then greedy_take pool amount i else 0) [0..<length pool])"

lemma plan_take_greedy:
  "plan_take ls (cp_allocations (plan_consume_allocation ls amount)) l = pool_take ls amount l"
proof -
  have "sum_list (map snd (filter (\<lambda>p. led_id (ls ! fst p) = led_id l)
      (filter (\<lambda>x. 0 < snd x) (map (\<lambda>i. (i, greedy_take ls amount i)) is)))) =
    sum_list (map (\<lambda>i. if led_id (ls ! i) = led_id l then greedy_take ls amount i else 0) is)" for "is"
  proof (induction "is")
    case (Cons i "is")
    have "0 \<le> greedy_take ls amount i" by (simp add: greedy_take_def)
    with Cons show ?case by auto
  qed simp
  then show ?thesis
    by (simp add: plan_take_def pool_take_def plan_consume_allocation_simps plan_allocation_loop_greedy)
qed

lemma plan_take_absent: "led_id l \<notin> (\<lambda>p. led_id (ls ! fst p)) ` set plan \<Longrightarrow> plan_take ls plan l = 0"
  by (induction plan) (auto simp: plan_take_def)

lemma updated_ledger_draw:
  assumes "updated_ledger (Consumption a) l = Inr l0" "0 < a"
  shows "l0\<lparr>led_updated_at := env_sql_now env\<rparr> = draw env a l"
  using assms by (auto simp: draw_def Let_def split: if_splits)

lemma consume_pool_ledgers:
  assumes "try_fold (consume_pool_step env r u now bw ls) (pb, allocs, db) plan = Inr (pb', allocs', db')"
    and "db_wf env db" "\<forall>(i, a) \<in> set plan. 0 < a" "distinct (map (\<lambda>p. led_id (ls ! fst p)) plan)"
  shows "db_ledgers db' = map (\<lambda>l. draw env (plan_take ls plan l) l) (db_ledgers db)"
  using assms
proof (induction plan arbitrary: pb allocs db)
  case Nil
  then show ?case by (simp add: plan_take_def draw_def)
next
  case (Cons p plan)
  obtain i a where p: "p = (i, a)" by (cases p)
  from Cons.prems(1) obtain pb1 allocs1 db1 where
    step: "consume_pool_step env r u now bw ls (pb, allocs, db) (i, a) = Inr (pb1, allocs1, db1)" and
    rest: "try_fold (consume_pool_step env r u now bw ls) (pb1, allocs1, db1) plan = Inr (pb', allocs', db')"
    unfolding p by (auto simp: result_simps)
  have a: "0 < a" using Cons.prems(3) p by simp
  from consume_pool_step_db[OF step Cons.prems(2) a] obtain upd dbu n where
    upd: "update_ledger_in_tx env db (led_id (ls ! i)) (Consumption a) = Inr (upd, dbu)"
      "db1 = dbu\<lparr>db_seq := n\<rparr>" "db_wf env db1"
    by metis
  have inv: "ledgers_inv (db_ledgers db)" using Cons.prems(2) by (simp add: db_wf_def db_inv_def)
  from update_ledger_effect[OF inv upd(1)] obtain l l0 where
    l: "l \<in> set (db_ledgers db)" "led_id l = led_id (ls ! i)" "updated_ledger (Consumption a) l = Inr l0"
      "upd = l0\<lparr>led_updated_at := env_sql_now env\<rparr>"
      "dbu = db\<lparr>db_ledgers := update_where (\<lambda>x. led_id x = led_id l) (\<lambda>_. upd) (db_ledgers db)\<rparr>"
    by metis
  have absent: "plan_take ls plan x = 0" if "led_id x = led_id l" for x
    by (rule plan_take_absent) (use that l(2) Cons.prems(4) p in \<open>auto simp: image_iff\<close>)
  have row: "(if led_id x = led_id l then upd else x) = draw env (if led_id x = led_id l then a else 0) x"
    if "x \<in> set (db_ledgers db)" for x
    using updated_ledger_draw[OF l(3) a, of env] l(1,4) that inv
      distinct_key_unique[of led_id "db_ledgers db" x l] by (auto simp: ledgers_inv_def draw_def)
  have ids: "led_id (draw env m x) = led_id x" for m x by (simp add: draw_def)
  have "db_ledgers db1 = map (\<lambda>x. draw env (if led_id x = led_id l then a else 0) x) (db_ledgers db)"
    unfolding upd(2) l(5) by (simp add: update_where_def row)
  moreover from Cons.IH[OF rest upd(3)] Cons.prems(3,4)
  have "db_ledgers db' = map (\<lambda>l. draw env (plan_take ls plan l) l) (db_ledgers db1)" by simp
  moreover have "draw env (plan_take ls plan (draw env (if led_id x = led_id l then a else 0) x))
      (draw env (if led_id x = led_id l then a else 0) x) = draw env (plan_take ls (p # plan) x) x" for x
  proof (cases "led_id x = led_id l")
    case True
    then have "plan_take ls plan (draw env a x) = 0" "plan_take ls plan x = 0"
      using absent by (simp_all add: ids)
    with True l(2) p show ?thesis by (simp add: plan_take_def) (simp add: draw_def)
  next
    case False
    with l(2) p show ?thesis by (simp add: plan_take_def draw_def)
  qed
  ultimately show ?case by simp
qed

lemma consume_fresh_ledgers:
  assumes "consume_fresh env req c covered db0 = Inr (ts, db')" "db_wf env db0"
  shows "db_ledgers db' = map (\<lambda>l. draw env
     (pool_take (pool_ledgers env req covered db0) (pool_part_of env req covered db0) l) l) (db_ledgers db0)"
proof -
  from assms(1) obtain bw db1 wp pp pb allocs db2 ws rem db3 db4 where
    lock: "try_fold (lock_bucket_wallet env (cr_realm_id req) (cr_user_id req)) ([], db0) covered = Inr (bw, db1)" and
    plan: "plan_mixed_consume (window_available env req covered db1) (pool_available env req covered db1)
       (cr_amount req) = PlanOk wp pp" and
    pool: "try_fold (consume_pool_step env (cr_realm_id req) (cr_user_id req) (env_now env) bw
       (pool_ledgers env req covered db1)) ([], [], db1)
       (cp_allocations (plan_consume_allocation (pool_ledgers env req covered db1) pp)) = Inr (pb, allocs, db2)" and
    win: "try_fold (consume_window_step env req c bw) (wp, 0, [], db2) covered = Inr (rem, wp, ws, db3)" and
    ptx: "try_fold (consume_pool_transaction env req c) (ws, db3) pb = Inr (ts, db4)" and
    all: "try_fold (create_consumption_allocation_in_tx env) db4 allocs = Inr db'"
    by (rule consume_fresh_InrE)
  have l: "db_wf env db1 \<and> untouched db1 = untouched db0 \<and> db_ledgers db1 = db_ledgers db0 \<and>
      db_transactions db1 = db_transactions db0"
    using lock_wallets_effect[OF lock assms(2)] by simp
  then have wf1: "db_wf env db1" and inv1: "db_inv db1" by (simp_all add: db_wf_def)
  have same: "pool_ledgers env req covered db1 = pool_ledgers env req covered db0"
      "window_available env req covered db1 = window_available env req covered db0"
    using l by (auto intro!: window_available_cong pool_ledgers_cong dest: untouched_eq)
  have pp: "pp = pool_part_of env req covered db0"
    using plan window_available_nonneg[of env req covered db0]
    by (auto simp: plan_mixed_consume_Ok_iff same(2) pool_part_of_def)
  note pay = plan_payable[OF inv1, of env req covered pp]
  have pos: "\<forall>(i, a) \<in> set (cp_allocations (plan_consume_allocation (pool_ledgers env req covered db1) pp)). 0 < a"
    using pay(2) by auto
  have led2: "db_ledgers db2 = map (\<lambda>l. draw env (pool_take (pool_ledgers env req covered db0) pp l) l) (db_ledgers db0)"
    using consume_pool_ledgers[OF pool wf1 pos pay(1)] l by (simp add: same plan_take_greedy)
  have acc0: "pool_acc_ok env (db_seq db1) bw ([], [], db1)"
    by (simp add: pool_acc_ok_def totals_def)
  note p = consume_pool_effect[OF pool wf1 acc0 pos]
  have "window_acc env req c db2 (wp, ws, db3)"
    by (rule consume_window_effect[OF win]) (use p in \<open>simp add: window_acc_def rows_written_def\<close>)
  then have rw: "rows_written env req c db2 ws db3" by (simp add: window_acc_def)
  have "\<forall>(b, w, tot, t) \<in> set pb. 0 < tot \<and> (\<exists>n < db_seq db3. t = env_uuid env n)"
    using p rw by (fastforce simp: pool_acc_ok_def rows_written_def intro: less_le_trans)
  from consume_pool_transactions_effect[OF ptx rw this] have rw4: "rows_written env req c db2 ts db4" by auto
  then have "db_wf env db4" by (simp add: rows_written_def)
  from create_allocations_effect(1)[OF all this] rw4 led2 pp show ?thesis
    by (simp add: rows_written_def)
qed

end
