(* ===== verification/PointsDemo.thy ===== *)
theory PointsDemo
  imports PointsInvariant
begin

text \<open>
  A small concrete database for the witnesses of the points theories: one user of one realm,
  two credit buckets that one client application draws from, three ledger rows, one
  subscription window and one past consume row.
\<close>

definition demo_env :: env where
  "demo_env = \<lparr>env_uuid = (\<lambda>n. 1000 + n), env_uuid_str = show_nat, env_now = secs 100, env_sql_now = secs 100\<rparr>"

definition demo_ledger :: "uuid \<Rightarrow> uuid \<Rightarrow> credit_type \<Rightarrow> credit_source_type \<Rightarrow> i64 \<Rightarrow> i64 \<Rightarrow> instant option \<Rightarrow> points_credit_ledger" where
  "demo_ledger i b ct st granted used expires =
     \<lparr>led_id = i, led_user_id = 1, led_realm_id = ''r'', led_bucket_id = b, led_credit_type = ct,
      led_source_type = st, led_source_id = ''pay-1'', led_granted_amount = granted,
      led_used_amount = used, led_revoked_amount = 0, led_expires_at = expires,
      led_effective_at = None, led_status = LedgerActive, led_distribution_event_id = None,
      led_distribution_rule_id = None, led_created_at = secs 1, led_updated_at = secs 1\<rparr>"

definition demo_wallet :: points_wallet where
  "demo_wallet = \<lparr>wal_id = 100, wal_user_id = 1, wal_realm_id = ''r'', wal_bucket_id = Some 10,
     wal_total_topup_granted = 20, wal_total_subscription_granted = 0, wal_total_recharged = 20,
     wal_total_consumed = 2, wal_status = WalletActive, wal_created_at = secs 1, wal_updated_at = secs 1\<rparr>"

definition demo_transaction :: points_transaction where
  "demo_transaction = \<lparr>txn_id = 300, txn_wallet_id = 100, txn_user_id = 1, txn_realm_id = ''r'',
     txn_bucket_id = 10, txn_transaction_type = Consume, txn_amount = -1, txn_balance_after = 18,
     txn_topup_balance_after = Some 18, txn_subscription_balance_after = Some 0,
     txn_credit_type = Some SubscriptionCredit, txn_description = None, txn_client_app_id = Some 20,
     txn_subscription_id = None, txn_external_ref_id = None, txn_correlation_id = Some ''c0'',
     txn_effective_at = None, txn_distribution_event_id = None, txn_distribution_rule_id = None,
     txn_created_at = secs 50\<rparr>"

definition demo_entitlement :: points_quota_entitlement where
  "demo_entitlement = \<lparr>ent_id = 400, ent_user_id = 1, ent_realm_id = ''r'', ent_bucket_id = 10,
     ent_credit_type = SubscriptionCredit, ent_source_type = QuotaSubscriptionInitial, ent_source_id = ''sub-1'',
     ent_quota_windows = [\<lparr>qw_window_seconds = 3600, qw_limit = 5, qw_key = ''hour''\<rparr>],
     ent_effective_from = 0, ent_effective_until = None, ent_status = QuotaActive,
     ent_idempotency_key = ''sub-1'', ent_distribution_event_id = None, ent_distribution_rule_id = None,
     ent_created_at = 0, ent_updated_at = 0\<rparr>"

definition demo_db :: points_db where
  "demo_db = \<lparr>db_accounts = [(1, ''r'')],
     db_buckets = [\<lparr>bkt_id = 10, bkt_realm_id = ''r'', bkt_enabled = True\<rparr>,
                   \<lparr>bkt_id = 11, bkt_realm_id = ''r'', bkt_enabled = True\<rparr>],
     db_bucket_apps = [\<lparr>bca_bucket_id = 11, bca_client_app_id = 20, bca_realm_id = ''r''\<rparr>,
                       \<lparr>bca_bucket_id = 10, bca_client_app_id = 20, bca_realm_id = ''r''\<rparr>],
     db_wallets = [demo_wallet],
     db_ledgers = [demo_ledger 200 10 TopupCredit SrcTopup 10 0 None,
                   demo_ledger 201 11 GrantedCredit SrcAdminGrant 6 0 (Some (secs 900)),
                   demo_ledger 202 10 TopupCredit SrcTopup 10 1 (Some (secs 500))],
     db_transactions = [demo_transaction], db_allocations = [], db_revocations = [], db_idempotency = [],
     db_entitlements = [demo_entitlement], db_events = [], db_refunds = [], db_seq = 0\<rparr>"

lemmas demo_defs = demo_env_def demo_ledger_def demo_wallet_def demo_transaction_def
  demo_entitlement_def demo_db_def

lemma demo_wf: "db_wf demo_env demo_db"
  by (simp add: demo_defs db_wf_def db_inv_def ids_fresh_def ledgers_inv_def wallets_inv_def ledger_ok_def
      ledger_check_def status_ok_def wallet_check_def remaining_amount_def inj_def)

end
