(* ===== verification/PointsConsumeProps.thy ===== *)
theory PointsConsumeProps
  imports PointsConsumeLedgers PointsDemo
begin

text \<open>
  The properties of \<open>consume_points_atomic\<close>, stated over the call as the service makes it,
  with their witnesses on the demonstration database.
\<close>

section \<open>The call\<close>

definition replays :: "env \<Rightarrow> consume_request \<Rightarrow> points_db \<Rightarrow> bool" where
  "replays env req db \<longleftrightarrow>
     Option.bind (cr_idempotency_key req) (check_completed_idempotency_in_tx env db (cr_realm_id req)) \<noteq> None"

definition covered_by :: "consume_request \<Rightarrow> points_db \<Rightarrow> uuid list" where
  "covered_by req db = find_covered_bucket_ids_in_tx db (cr_realm_id req) (cr_client_app_id req)"

definition demo_request :: "i64 \<Rightarrow> string option \<Rightarrow> consume_request" where
  "demo_request amount key = \<lparr>cr_realm_id = ''r'', cr_user_id = 1, cr_client_app_id = 20, cr_amount = amount,
     cr_description = None, cr_idempotency_key = key\<rparr>"

lemma covered_by_seq [simp]: "covered_by req (db\<lparr>db_seq := n\<rparr>) = covered_by req db"
  by (simp add: covered_by_def find_covered_bucket_ids_in_tx_def)

lemma seq_frames [simp]:
  "pool_ledgers env req covered (db\<lparr>db_seq := n\<rparr>) = pool_ledgers env req covered db"
  "pool_available env req covered (db\<lparr>db_seq := n\<rparr>) = pool_available env req covered db"
  "window_available env req covered (db\<lparr>db_seq := n\<rparr>) = window_available env req covered db"
  "pool_part_of env req covered (db\<lparr>db_seq := n\<rparr>) = pool_part_of env req covered db"
  "spendable env req (db\<lparr>db_seq := n\<rparr>) b ct = spendable env req db b ct"
  "user_ready (db\<lparr>db_seq := n\<rparr>) r u covered = user_ready db r u covered"
  "ledger_sum (db\<lparr>db_seq := n\<rparr>) = ledger_sum db"
  by (simp_all add: pool_ledgers_def find_active_ledgers_by_expiration_def pool_available_def
      window_available_cong[of "db\<lparr>db_seq := n\<rparr>" db] window_spendable_cong[of "db\<lparr>db_seq := n\<rparr>" db]
      pool_part_of_def spendable_def user_ready_def bucket_ready_def ledger_sum_def cong: option.case_cong)

lemma consume_points_atomic_fresh:
  assumes "\<not> replays env req db"
  shows "consume_points_atomic env req db =
    (if covered_by req db = [] then Inl (NoCoveredPointsPool (cr_client_app_id req))
     else and_then (consume_fresh env req (env_uuid_str env (env_uuid env (db_seq db))) (covered_by req db)
            (db\<lparr>db_seq := Suc (db_seq db)\<rparr>)) (\<lambda>(transactions, db').
       case cr_idempotency_key req of
          None \<Rightarrow> Inr (transactions, db')
        | Some key \<Rightarrow>
            (case transactions of
               [] \<Rightarrow> Inl (InternalServerError ''consume produced no transactions'')
             | t # _ \<Rightarrow> Inr (transactions,
                 record_completed_idempotency_in_tx env db' (cr_realm_id req) key (txn_id t)))))"
  using assms covered_by_seq[of req "Suc (db_seq db)" db]
  by (auto simp: consume_points_atomic_def replays_def now_v7_def Let_def covered_by_def)

lemma consume_points_InrE:
  assumes "consume_points_atomic env req db = Inr (ts, db')" "\<not> replays env req db"
  obtains db1 where
    "consume_fresh env req (env_uuid_str env (env_uuid env (db_seq db))) (covered_by req db)
       (db\<lparr>db_seq := Suc (db_seq db)\<rparr>) = Inr (ts, db1)"
    "covered_by req db \<noteq> []"
    "cr_idempotency_key req = None \<and> db' = db1 \<or>
     (\<exists>key t us. cr_idempotency_key req = Some key \<and> ts = t # us \<and>
        db' = record_completed_idempotency_in_tx env db1 (cr_realm_id req) key (txn_id t))"
proof -
  from assms(1) obtain ts1 db1 where "covered_by req db \<noteq> []"
      "consume_fresh env req (env_uuid_str env (env_uuid env (db_seq db))) (covered_by req db)
         (db\<lparr>db_seq := Suc (db_seq db)\<rparr>) = Inr (ts1, db1)"
      "(case cr_idempotency_key req of None \<Rightarrow> Inr (ts1, db1)
        | Some key \<Rightarrow> (case ts1 of [] \<Rightarrow> Inl (InternalServerError ''consume produced no transactions'')
            | t # _ \<Rightarrow> Inr (ts1, record_completed_idempotency_in_tx env db1 (cr_realm_id req) key (txn_id t)))) =
         Inr (ts, db')"
    unfolding consume_points_atomic_fresh[OF assms(2)]
    by (auto simp: and_then_Inr_iff split: if_splits)
  then show ?thesis
    by (intro that[of db1]) (auto split: option.splits list.splits)
qed

text \<open>The idempotency record is all that differs between the end of the consume and the commit.\<close>

lemma consume_commit_frame:
  assumes "cr_idempotency_key req = None \<and> db' = db1 \<or>
     (\<exists>key t us. cr_idempotency_key req = Some key \<and> ts = t # us \<and>
        db' = record_completed_idempotency_in_tx env db1 (cr_realm_id req) key (txn_id t))"
  shows "db_wf env db1 \<Longrightarrow> db_wf env db'" "db_ledgers db' = db_ledgers db1"
    "db_transactions db' = db_transactions db1" "db_allocations db' = db_allocations db1"
    "db_entitlements db' = db_entitlements db1" "db_revocations db' = db_revocations db1"
proof -
  show "db_wf env db1 \<Longrightarrow> db_wf env db'" using assms by (auto intro: record_idempotency_wf)
  have "\<exists>n ks. db' = db1\<lparr>db_seq := n, db_idempotency := ks\<rparr>"
    using assms
  proof
    assume "cr_idempotency_key req = None \<and> db' = db1"
    then show ?thesis by (intro exI[of _ "db_seq db1"] exI[of _ "db_idempotency db1"]) simp
  next
    assume "\<exists>key t us. cr_idempotency_key req = Some key \<and> ts = t # us \<and>
        db' = record_completed_idempotency_in_tx env db1 (cr_realm_id req) key (txn_id t)"
    then show ?thesis using record_idempotency_frame by metis
  qed
  then show "db_ledgers db' = db_ledgers db1" "db_transactions db' = db_transactions db1"
    "db_allocations db' = db_allocations db1" "db_entitlements db' = db_entitlements db1"
    "db_revocations db' = db_revocations db1"
    by auto
qed

lemma db_wf_seq: "db_wf env db \<Longrightarrow> db_wf env (db\<lparr>db_seq := Suc (db_seq db)\<rparr>)"
  by (auto simp: db_wf_def intro: ids_fresh_seq)

lemma scan_windows_bound:
  "scan_windows used ws acc = Some (Some t) \<Longrightarrow>
     (\<forall>w \<in> set ws. t \<le> qw_limit w - used w) \<and> (\<forall>a. acc = Some a \<longrightarrow> t \<le> a)"
proof (induction used ws acc rule: scan_windows.induct)
  case (1 used tightest)
  then show ?case by simp
next
  case (2 used w ws tightest)
  then show ?case
    by (auto simp: Let_def split: if_splits option.splits)
qed

text \<open>A positive spendable amount leaves every window of every active entitlement within its limit.\<close>

lemma spendable_within_limit:
  assumes "e \<in> set (active_entitlements db r u b ct now)" "w \<in> set (ent_quota_windows e)"
    and "0 < compute_window_spendable_in_tx db r u b ct now"
  shows "compute_window_spendable_in_tx db r u b ct now \<le>
    qw_limit w - sum_consume_in_window db r u b ct (now - secs (qw_window_seconds w))"
proof -
  let ?rows = "active_entitlements db r u b ct now"
  let ?used = "\<lambda>w. sum_consume_in_window db r u b ct (now - secs (qw_window_seconds w))"
  have "?rows \<noteq> []" using assms(1) by auto
  with assms(3) obtain t where t: "scan_windows ?used (concat (map ent_quota_windows ?rows)) None = Some (Some t)"
      "compute_window_spendable_in_tx db r u b ct now = max 0 t"
    by (auto simp: compute_window_spendable_in_tx_def Let_def split: option.splits)
  from scan_windows_bound[OF t(1)] assms(1,2) have "t \<le> qw_limit w - ?used w" by auto
  with t(2) assms(3) show ?thesis by simp
qed

lemma sum_consume_appended:
  assumes "db_transactions db' = db_transactions db @ ts"
  shows "sum_consume_in_window db' r u b ct st \<le> sum_consume_in_window db r u b ct st + typed_spent b ct ts"
proof -
  have "sum_list (map (\<lambda>t. \<bar>txn_amount t\<bar>) (filter (\<lambda>t. txn_realm_id t = r \<and> txn_user_id t = u \<and>
      txn_bucket_id t = b \<and> txn_credit_type t = Some ct \<and> txn_transaction_type t = Consume \<and>
      st \<le> txn_created_at t) xs)) \<le> typed_spent b ct xs" for xs
    by (induction xs) (auto simp: typed_spent_def)
  with assms show ?thesis by (simp add: sum_consume_in_window_def)
qed

lemma find_row_by_key:
  assumes "distinct (map k xs)" "x \<in> set xs" "P x"
  shows "find (\<lambda>y. P y \<and> k y = k x) xs = Some x"
  using assms by (induction xs) (auto simp: image_iff)

lemma consume_rows_nonempty: "spent ts = n \<Longrightarrow> 0 < n \<Longrightarrow> ts \<noteq> []"
  by auto

section \<open>Properties\<close>


lemma demo_consume_runs:
  "\<not> isl (consume_points_atomic demo_env (demo_request 7 None) demo_db)"
  "\<not> isl (consume_points_atomic demo_env (demo_request 7 (Some ''k'')) demo_db)"
  "\<not> replays demo_env (demo_request 7 None) demo_db" "\<not> replays demo_env (demo_request 7 (Some ''k'')) demo_db"
  "\<not> replays demo_env (demo_request 99 None) demo_db"
  "covered_by (demo_request 7 None) demo_db = [10, 11]"
  by code_simp+


text \<open>A fresh consume runs exactly when there is something covered, usable and large enough.\<close>

lemma consume_run_iff:
  assumes "db_wf env db" "coverage_key_ok db" "\<not> replays env req db" "0 < cr_amount req"
  defines "cov \<equiv> covered_by req db"
  shows "(\<exists>ts db'. consume_points_atomic env req db = Inr (ts, db')) \<longleftrightarrow>
    cov \<noteq> [] \<and> user_ready db (cr_realm_id req) (cr_user_id req) cov \<and>
    cr_amount req \<le> window_available env req cov db + pool_available env req cov db"
proof -
  let ?db = "db\<lparr>db_seq := Suc (db_seq db)\<rparr>" and ?c = "env_uuid_str env (env_uuid env (db_seq db))"
  have wf: "db_wf env ?db" by (rule db_wf_seq[OF assms(1)])
  have dist: "distinct cov"
    unfolding cov_def covered_by_def by (rule covered_distinct[OF assms(2)])
  have fresh: "(\<exists>ts db'. consume_fresh env req ?c cov ?db = Inr (ts, db')) \<longleftrightarrow>
      user_ready db (cr_realm_id req) (cr_user_id req) cov \<and> cr_amount req \<le> window_available env req cov db + pool_available env req cov db"
  proof
    assume "\<exists>ts db'. consume_fresh env req ?c cov ?db = Inr (ts, db')"
    then obtain ts db' where "consume_fresh env req ?c cov ?db = Inr (ts, db')" by blast
    from consume_fresh_needs_ready[OF this] consume_fresh_correct[OF this wf]
    show "user_ready db (cr_realm_id req) (cr_user_id req) cov \<and> cr_amount req \<le> window_available env req cov db + pool_available env req cov db"
      unfolding seq_frames by blast
  next
    assume "user_ready db (cr_realm_id req) (cr_user_id req) cov \<and> cr_amount req \<le> window_available env req cov db + pool_available env req cov db"
    then show "\<exists>ts db'. consume_fresh env req ?c cov ?db = Inr (ts, db')"
      using consume_fresh_total[OF wf _ dist, of req ?c] assms(4) unfolding seq_frames by force
  qed
  have nonempty: "ts \<noteq> []" if "consume_fresh env req ?c cov ?db = Inr (ts, db')" for ts db'
    using consume_fresh_correct[OF that wf] consume_rows_nonempty[OF _ assms(4)] by metis
  have lift: "(\<exists>ts db'. consume_points_atomic env req db = Inr (ts, db')) \<longleftrightarrow>
      cov \<noteq> [] \<and> (\<exists>ts db'. consume_fresh env req ?c cov ?db = Inr (ts, db'))"
  proof
    assume "\<exists>ts db'. consume_points_atomic env req db = Inr (ts, db')"
    then show "cov \<noteq> [] \<and> (\<exists>ts db'. consume_fresh env req ?c cov ?db = Inr (ts, db'))"
      unfolding cov_def using consume_points_InrE[OF _ assms(3)] by metis
  next
    assume run: "cov \<noteq> [] \<and> (\<exists>ts db'. consume_fresh env req ?c cov ?db = Inr (ts, db'))"
    then obtain t us db' where "consume_fresh env req ?c cov ?db = Inr (t # us, db')"
      using nonempty by (metis list.exhaust)
    with run show "\<exists>ts db'. consume_points_atomic env req db = Inr (ts, db')"
      unfolding consume_points_atomic_fresh[OF assms(3)] cov_def[symmetric]
      by (cases "cr_idempotency_key req") simp_all
  qed
  from lift fresh show ?thesis by blast
qed



text \<open>
  C3: rolling windows are never overspent.  For every window of every entitlement active at
  the time of a consume, what counts against the window afterwards is at most its limit, or
  what already counted against it before (a window that was full or over its limit gets
  nothing more).
\<close>

theorem consume_respects_windows:
  assumes "db_wf env db" "coverage_key_ok db" "\<not> replays env req db" "0 < cr_amount req"
    and "consume_points_atomic env req db = Inr (ts, db')"
    and "e \<in> set (active_entitlements db (cr_realm_id req) (cr_user_id req) b ct (env_now env))"
    and "w \<in> set (ent_quota_windows e)"
  defines "used \<equiv> \<lambda>d. sum_consume_in_window d (cr_realm_id req) (cr_user_id req) b ct
                        (env_now env - secs (qw_window_seconds w))"
  shows "used db' \<le> max (qw_limit w) (used db)"
proof -
  let ?db = "db\<lparr>db_seq := Suc (db_seq db)\<rparr>" and ?c = "env_uuid_str env (env_uuid env (db_seq db))"
  let ?cov = "covered_by req db"
  have wf: "db_wf env ?db" by (rule db_wf_seq[OF assms(1)])
  obtain db1 where f: "consume_fresh env req ?c ?cov ?db = Inr (ts, db1)" and "db_transactions db' = db_transactions db1"
    using consume_points_InrE[OF assms(5,3)] consume_commit_frame(3) by metis
  have enough: "cr_amount req \<le> window_available env req ?cov ?db + pool_available env req ?cov ?db"
    and "db_transactions db1 = db_transactions db @ ts"
    using consume_fresh_correct[OF f wf] by auto
  with \<open>db_transactions db' = db_transactions db1\<close> have ts: "db_transactions db' = db_transactions db @ ts" by simp
  have "distinct ?cov" unfolding covered_by_def by (rule covered_distinct[OF assms(2)])
  from consume_fresh_total[OF wf consume_fresh_needs_ready[OF f] this _ enough, of ?c] f assms(4)
  have "\<forall>b ct. typed_spent b ct ts \<le> (if b \<in> set ?cov then spendable env req ?db b ct else 0)" by auto
  from this[rule_format, of b ct]
  have "typed_spent b ct ts \<le> (if b \<in> set ?cov then spendable env req db b ct else 0)"
    by (simp only: seq_frames)
  also have "\<dots> \<le> compute_window_spendable_in_tx db (cr_realm_id req) (cr_user_id req) b ct (env_now env)"
    by (simp add: spendable_def window_spendable_nonneg)
  finally have spent: "typed_spent b ct ts \<le> \<dots>" .
  have "used db' \<le> used db + typed_spent b ct ts"
    unfolding used_def by (rule sum_consume_appended[OF ts])
  with spent spendable_within_limit[OF assms(6,7)] show ?thesis
    unfolding used_def by (cases "0 < typed_spent b ct ts") auto
qed

theorem consume_respects_windows_witness:
  "\<exists>ts db'. consume_points_atomic demo_env (demo_request 7 None) demo_db = Inr (ts, db') \<and>
     sum_consume_in_window db' ''r'' 1 10 SubscriptionCredit (secs 100 - secs 3600) \<le> 5"
proof -
  obtain ts db' where run: "consume_points_atomic demo_env (demo_request 7 None) demo_db = Inr (ts, db')"
    using demo_consume_runs(1) by (metis isl_def sum.collapse(2) surj_pair)
  have key: "coverage_key_ok demo_db" by code_simp
  have "0 < cr_amount (demo_request 7 None)" by (simp add: demo_request_def)
  from consume_respects_windows[OF demo_wf key demo_consume_runs(3) this run, of demo_entitlement 10
      SubscriptionCredit "\<lparr>qw_window_seconds = 3600, qw_limit = 5, qw_key = ''hour''\<rparr>"]
  have "sum_consume_in_window db' ''r'' 1 10 SubscriptionCredit (secs 100 - secs 3600) \<le>
      max 5 (sum_consume_in_window demo_db ''r'' 1 10 SubscriptionCredit (secs 100 - secs 3600))"
    by (simp add: demo_defs demo_request_def active_entitlements_def secs_def)
  moreover have "sum_consume_in_window demo_db ''r'' 1 10 SubscriptionCredit (secs 100 - secs 3600) = 1"
    by code_simp
  ultimately show ?thesis using run by auto
qed



text \<open>
  C5: a consume is idempotent.  Repeating a successful keyed consume within 24 hours of the
  first, on whatever clock and identifier stream, charges nothing: the tables stay as they
  are and the rows returned are those of the first call.
\<close>

theorem consume_replay_is_idempotent:
  assumes "db_wf env db" "\<not> replays env req db" "cr_idempotency_key req = Some key"
    and "\<forall>t \<in> set (db_transactions db).
           txn_correlation_id t \<noteq> Some (env_uuid_str env (env_uuid env (db_seq db)))"
    and "consume_points_atomic env req db = Inr (ts, db')"
    and "env_sql_now env' < env_sql_now env + secs (24 * 3600)"
  shows "\<exists>us. consume_points_atomic env' req db' = Inr (us, db') \<and> mset us = mset ts"
proof -
  let ?c = "env_uuid_str env (env_uuid env (db_seq db))" and ?r = "cr_realm_id req"
  obtain db1 t us where f: "consume_fresh env req ?c (covered_by req db) (db\<lparr>db_seq := Suc (db_seq db)\<rparr>) = Inr (ts, db1)"
    and ts: "ts = t # us" and db': "db' = record_completed_idempotency_in_tx env db1 ?r key (txn_id t)"
    by (rule consume_points_InrE[OF assms(5,2)]) (use assms(3) in auto)
  have wf1: "db_wf env db1" and tx: "db_transactions db1 = db_transactions db @ ts"
    and rows: "\<forall>t \<in> set ts. consume_row env req ?c t"
    by (rule consume_fresh_correct[OF f db_wf_seq[OF assms(1)]], simp)+
  have tx': "db_transactions db' = db_transactions db @ ts"
    unfolding db' by (subst record_idempotency_frame) (simp add: tx)
  have dist: "distinct (map txn_id (db_transactions db'))"
    using record_idempotency_wf[OF wf1] by (simp add: db' db_wf_def db_inv_def)
  have "find (\<lambda>x. txn_realm_id x = ?r \<and> txn_id x = txn_id t) (db_transactions db') = Some t"
    using rows ts tx' dist by (intro find_row_by_key) (auto simp: consume_row_def)
  moreover have "filter (\<lambda>x. txn_realm_id x = ?r \<and> txn_correlation_id x = Some ?c) (db_transactions db') = ts"
    using assms(4) rows unfolding tx' by (auto simp: consume_row_def filter_empty_conv filter_id_conv)
  moreover have "check_completed_idempotency_in_tx env' db' ?r key = Some (txn_id t)"
    unfolding db' by (rule check_after_record[OF assms(6)])
  moreover have "txn_correlation_id t = Some ?c" using rows ts by (simp add: consume_row_def)
  ultimately show ?thesis
    using assms(3) by (simp add: consume_points_atomic_def replay_consume_by_primary_def)
qed

theorem consume_replay_is_idempotent_witness:
  "\<exists>ts db' us. consume_points_atomic demo_env (demo_request 7 (Some ''k'')) demo_db = Inr (ts, db') \<and>
     consume_points_atomic demo_env (demo_request 7 (Some ''k'')) db' = Inr (us, db') \<and> mset us = mset ts"
proof -
  obtain ts db' where run: "consume_points_atomic demo_env (demo_request 7 (Some ''k'')) demo_db = Inr (ts, db')"
    using demo_consume_runs(2) by (metis isl_def sum.collapse(2) surj_pair)
  have fresh: "\<forall>t \<in> set (db_transactions demo_db).
      txn_correlation_id t \<noteq> Some (env_uuid_str demo_env (env_uuid demo_env (db_seq demo_db)))"
    by code_simp
  have "cr_idempotency_key (demo_request 7 (Some ''k'')) = Some ''k''" by (simp add: demo_request_def)
  from consume_replay_is_idempotent[OF demo_wf demo_consume_runs(4) this fresh run, of demo_env] run
  show ?thesis by (auto simp: demo_env_def secs_def)
qed

text \<open>
  C6: the allocation planner is the reference allocation.  The loop of
  \<open>plan_consume_allocation\<close> emits, in ledger order, exactly the positive shares of the
  reference allocation; its total is the request cut to what the ledgers hold, and it reports
  full coverage exactly when they hold enough.
\<close>

theorem plan_consume_allocation_is_greedy:
  "cp_allocations (plan_consume_allocation ls amount) =
     filter (\<lambda>x. 0 < snd x) (map (\<lambda>i. (i, greedy_take ls amount i)) [0..<length ls]) \<and>
   sum_list (map snd (cp_allocations (plan_consume_allocation ls amount))) =
     (if amount \<le> 0 then 0 else min amount (pool_capacity ls)) \<and>
   (cp_fully_covers (plan_consume_allocation ls amount) = (amount \<le> max 0 (pool_capacity ls)))"
  using plan_allocation_loop_rest[of 0 ls amount] plan_allocation_loop_sum[of 0 ls amount]
    plan_allocation_loop_greedy[of 0 ls amount] pool_capacity_nonneg[of ls]
  by (simp add: plan_consume_allocation_simps del: pool_capacity_nonneg) linarith

text \<open>
  The replay does not return the rows in the order of the first call: that one lists window
  rows before pool rows, the replay sorts by bucket.
\<close>

lemma consume_replay_reorders:
  "(case consume_points_atomic demo_env (demo_request 7 (Some ''k''))
          (demo_db\<lparr>db_entitlements := [demo_entitlement\<lparr>ent_bucket_id := 11\<rparr>]\<rparr>) of
      Inl e \<Rightarrow> False
    | Inr (ts, db') \<Rightarrow> map txn_bucket_id ts = [11, 10] \<and>
        (case consume_points_atomic demo_env (demo_request 7 (Some ''k'')) db' of
           Inl e \<Rightarrow> False
         | Inr (us, _) \<Rightarrow> map txn_bucket_id us = [10, 11]))"
  by code_simp

end
