(* ===== verification/PointsGrant.thy ===== *)
theory PointsGrant
  imports PointsInvariant PointsDemo
begin

text \<open>
  Granting: \<open>determine_transaction_type\<close>, \<open>grant_points_atomic\<close> and
  \<open>recharge_points_atomic\<close> of \<open>infra/src/points/postgres_repository.rs\<close>, and what
  they promise: one ledger row and one transaction per grant, the derived balance moves by
  the amount granted, a key or an external reference is honoured once.
\<close>

section \<open>Operations\<close>

definition determine_transaction_type :: "credit_type \<Rightarrow> credit_source_type \<Rightarrow> transaction_type" where
  "determine_transaction_type credit_type source_type =
     (case (credit_type, source_type) of
        (RegistrationCredit, _) \<Rightarrow> RegistrationGrant
      | (FreePeriodicCredit, _) \<Rightarrow> FreePeriodicGrant
      | (SubscriptionCredit, SrcSubscriptionInitial) \<Rightarrow> SubscriptionGrant
      | (SubscriptionCredit, SrcSubscriptionRenewal) \<Rightarrow> SubscriptionRenewal
      | (SubscriptionCredit, SrcSubscriptionUpgrade) \<Rightarrow> SubscriptionUpgrade
      | (SubscriptionCredit, SrcSubscriptionDowngrade) \<Rightarrow> SubscriptionDowngrade
      | (GrantedCredit, SrcAdminGrant) \<Rightarrow> Grant
      | (GrantedCredit, SrcSdkGrant) \<Rightarrow> Grant
      | _ \<Rightarrow> Recharge)"

record grant_request =
  gr_realm_id :: string
  gr_user_id :: uuid
  gr_bucket_id :: uuid
  gr_credit_type :: credit_type
  gr_source_type :: credit_source_type
  gr_amount :: i64
  gr_expires_at :: "instant option"
  gr_effective_at :: "instant option"
  gr_source_id :: "string option"
  gr_description :: "string option"
  gr_idempotency_key :: "string option"

record recharge_request =
  rc_realm_id :: string
  rc_user_id :: uuid
  rc_bucket_id :: uuid
  rc_credit_type :: credit_type
  rc_source_type :: credit_source_type
  rc_amount :: i64
  rc_expires_at :: "instant option"
  rc_source_id :: "string option"
  rc_external_ref_id :: "string option"

text \<open>
  The tail both operations share: the ledger row, the wallet counters, the balance snapshot of
  the bucket and the transaction row, whose external reference may name the transaction.
\<close>

definition write_credit ::
  "env \<Rightarrow> points_db \<Rightarrow> uuid \<Rightarrow> points_credit_ledger \<Rightarrow> string \<Rightarrow> (uuid \<Rightarrow> string option)
     \<Rightarrow> (points_credit_ledger \<times> points_transaction) tx" where
  "write_credit env db wallet_id l description external_ref_id =
     and_then (create_ledger_in_tx db l) (\<lambda>(created_ledger, db1).
     and_then (apply_wallet_delta_in_tx env db1 wallet_id
                 (wallet_delta_grant (led_credit_type l) (led_granted_amount l))) (\<lambda>(_, db2).
     (let (balance_after, topup_after, subscription_after) = derived_to_balance_snapshots
            (compute_available_balance db2 (led_realm_id l) (led_user_id l) [led_bucket_id l] (env_now env));
          (tid, db3) = now_v7 env db2
      in and_then (create_transaction_in_tx db3
           \<lparr>txn_id = tid, txn_wallet_id = wallet_id, txn_user_id = led_user_id l,
            txn_realm_id = led_realm_id l, txn_bucket_id = led_bucket_id l,
            txn_transaction_type = determine_transaction_type (led_credit_type l) (led_source_type l),
            txn_amount = led_granted_amount l, txn_balance_after = balance_after,
            txn_topup_balance_after = topup_after, txn_subscription_balance_after = subscription_after,
            txn_credit_type = Some (led_credit_type l), txn_description = Some description,
            txn_client_app_id = None, txn_subscription_id = None,
            txn_external_ref_id = external_ref_id tid, txn_correlation_id = None,
            txn_effective_at = led_effective_at l, txn_distribution_event_id = None,
            txn_distribution_rule_id = None, txn_created_at = env_now env\<rparr>)
          (\<lambda>(t, db4). Inr ((created_ledger, t), db4)))))"

definition fresh_ledger ::
  "env \<Rightarrow> uuid \<Rightarrow> string \<Rightarrow> uuid \<Rightarrow> uuid \<Rightarrow> credit_type \<Rightarrow> credit_source_type \<Rightarrow> string \<Rightarrow> i64 \<Rightarrow> instant option
     \<Rightarrow> instant option \<Rightarrow> points_credit_ledger" where
  "fresh_ledger env i realm_id user_id bucket_id credit_type source_type source_id amount expires_at effective_at =
     \<lparr>led_id = i, led_user_id = user_id, led_realm_id = realm_id, led_bucket_id = bucket_id,
      led_credit_type = credit_type, led_source_type = source_type, led_source_id = source_id,
      led_granted_amount = amount, led_used_amount = 0, led_revoked_amount = 0,
      led_expires_at = expires_at, led_effective_at = effective_at, led_status = LedgerActive,
      led_distribution_event_id = None, led_distribution_rule_id = None,
      led_created_at = env_now env, led_updated_at = env_now env\<rparr>"

definition grant_points_atomic :: "env \<Rightarrow> grant_request \<Rightarrow> points_db \<Rightarrow> points_credit_ledger tx" where
  "grant_points_atomic env req db =
     and_then (ensure ((gr_user_id req, gr_realm_id req) \<in> set (db_accounts db)) NotFound) (\<lambda>_.
     and_then (ensure (\<exists>b \<in> set (db_buckets db). bkt_id b = gr_bucket_id req \<and> bkt_realm_id b = gr_realm_id req)
                NotFound) (\<lambda>_.
     case Option.bind (gr_idempotency_key req) (check_completed_idempotency_in_tx env db (gr_realm_id req)) of
       Some _ \<Rightarrow>
         (let (i, db1) = now_v7 env db in
          Inr (fresh_ledger env i (gr_realm_id req) (gr_user_id req) (gr_bucket_id req) (gr_credit_type req)
                 (gr_source_type req) ''idempotency'' 0 None (gr_effective_at req), db1))
     | None \<Rightarrow>
         and_then (ensure_wallet_in_tx env db (gr_realm_id req) (gr_user_id req) (gr_bucket_id req)) (\<lambda>(wallet, db1).
         and_then (ensure (wal_status wallet = WalletActive)
                    (BadRequest (''Cannot grant points to '' @ wallet_status_as_str (wal_status wallet) @ '' wallet''))) (\<lambda>_.
         (let source_id = (case gr_source_id req of None \<Rightarrow> ''system'' | Some s \<Rightarrow> s);
              (i, db2) = now_v7 env db1;
              l = fresh_ledger env i (gr_realm_id req) (gr_user_id req) (gr_bucket_id req) (gr_credit_type req)
                    (gr_source_type req) source_id (gr_amount req) (gr_expires_at req) (gr_effective_at req);
              description = (case gr_description req of
                 Some d \<Rightarrow> d
               | None \<Rightarrow> credit_source_type_as_str (gr_source_type req) @ '': '' @ show_int (gr_amount req) @
                         '' points granted'')
          in and_then (write_credit env db2 (wal_id wallet) l description
                (\<lambda>tid. Some (source_id @ '':'' @ env_uuid_str env tid))) (\<lambda>((created, t), db3).
             Inr (created, case gr_idempotency_key req of
                None \<Rightarrow> db3
              | Some key \<Rightarrow> record_completed_idempotency_in_tx env db3 (gr_realm_id req) key (txn_id t))))))))"

definition recharge_points_atomic :: "env \<Rightarrow> recharge_request \<Rightarrow> points_db \<Rightarrow> points_transaction tx" where
  "recharge_points_atomic env req db =
     and_then (ensure_wallet_in_tx env db (rc_realm_id req) (rc_user_id req) (rc_bucket_id req)) (\<lambda>(wallet, db1).
     and_then (ensure (wal_status wallet = WalletActive)
                (BadRequest (''Cannot recharge points to '' @ wallet_status_as_str (wal_status wallet) @ '' wallet''))) (\<lambda>_.
     (let source_id = (case rc_source_id req of
             Some s \<Rightarrow> s
           | None \<Rightarrow> (case rc_external_ref_id req of Some e \<Rightarrow> e | None \<Rightarrow> ''system''));
          (i, db2) = now_v7 env db1;
          l = fresh_ledger env i (rc_realm_id req) (rc_user_id req) (rc_bucket_id req) (rc_credit_type req)
                (rc_source_type req) source_id (rc_amount req) (rc_expires_at req) None
      in and_then (write_credit env db2 (wal_id wallet) l
            (''Points recharge ('' @ credit_source_type_as_str (rc_source_type req) @ '')'')
            (\<lambda>_. rc_external_ref_id req)) (\<lambda>((_, t), db3). Inr (t, db3)))))"

section \<open>The shared tail\<close>

lemma create_ledger_Inr_iff [result_simps]:
  "create_ledger_in_tx db l = Inr (l', db') \<longleftrightarrow>
     ledger_check l \<and> ledger_source_allowed (led_source_type l) \<and> led_id l \<notin> led_id ` set (db_ledgers db) \<and>
     (led_distribution_rule_id l = None \<or>
        (\<forall>x \<in> set (db_ledgers db). \<not> (led_distribution_rule_id x \<noteq> None \<and>
           led_distribution_event_id x = led_distribution_event_id l \<and>
           led_distribution_rule_id x = led_distribution_rule_id l))) \<and>
     l' = l \<and> db' = db\<lparr>db_ledgers := db_ledgers db @ [l]\<rparr>"
  unfolding create_ledger_in_tx_def key_unused_iff by (simp add: result_simps) blast

lemma create_ledger_wf:
  assumes "db_wf env db" "create_ledger_in_tx db l = Inr (l', db')" "status_ok l"
    "\<forall>n \<ge> db_seq db. env_uuid env n \<noteq> led_id l"
  shows "db_wf env db'"
  using assms by (auto simp: result_simps db_wf_def db_inv_def ids_fresh_def ledgers_inv_def ledger_ok_def)

lemma wallet_delta_grant_check:
  "wallet_check w \<Longrightarrow> 0 \<le> amount \<Longrightarrow> wallet_check (add_wallet_delta env (wallet_delta_grant ct amount) w)"
  by (auto simp: wallet_check_def add_wallet_delta_def wallet_delta_grant_def split: credit_type.splits)

text \<open>Two databases with the same ledgers have the same derived balances.\<close>

lemma available_ledgers_cong:
  "db_ledgers db' = db_ledgers db \<Longrightarrow> available_ledgers db' = available_ledgers db"
  by (simp add: available_ledgers_def fun_eq_iff)

lemma available_total_cong: "db_ledgers db' = db_ledgers db \<Longrightarrow> available_total db' = available_total db"
  by (simp add: available_total_def available_ledgers_cong[of db' db] fun_eq_iff)

lemma compute_available_cong:
  "db_ledgers db' = db_ledgers db \<Longrightarrow> compute_available_balance db' = compute_available_balance db"
  by (simp add: compute_available_balance_def available_ledgers_cong[of db' db] fun_eq_iff)

lemma write_credit_effect:
  assumes "write_credit env db w l d ext = Inr ((l', t), db')" "db_wf env db" "status_ok l"
    and "\<forall>n \<ge> db_seq db. env_uuid env n \<noteq> led_id l"
  shows "db_wf env db' \<and> l' = l \<and> db_ledgers db' = db_ledgers db @ [l] \<and>
    db_transactions db' = db_transactions db @ [t] \<and> ledger_check l \<and>
    ledger_source_allowed (led_source_type l) \<and> txn_id t = env_uuid env (db_seq db) \<and>
    txn_amount t = led_granted_amount l \<and> txn_user_id t = led_user_id l \<and> txn_bucket_id t = led_bucket_id l \<and>
    txn_external_ref_id t = ext (txn_id t) \<and> txn_created_at t = env_now env \<and>
    txn_balance_after t =
      available_total db' (led_realm_id l) (led_user_id l) [led_bucket_id l] (env_now env) \<and>
    db_idempotency db' = db_idempotency db \<and> db_seq db' = Suc (db_seq db) \<and>
    (\<forall>x \<in> set (db_transactions db). ext (txn_id t) \<noteq> None \<longrightarrow>
       \<not> (txn_user_id x = led_user_id l \<and> txn_external_ref_id x = ext (txn_id t)))"
proof -
  from assms(1) obtain db1 w' db2 where
    c: "create_ledger_in_tx db l = Inr (l', db1)" and
    d: "apply_wallet_delta_in_tx env db1 w (wallet_delta_grant (led_credit_type l) (led_granted_amount l)) = Inr (w', db2)"
    by (auto simp: write_credit_def and_then_Inr_iff now_v7_def Let_def split_beta)
  obtain ba ta sa where snap: "derived_to_balance_snapshots (compute_available_balance db2 (led_realm_id l)
      (led_user_id l) [led_bucket_id l] (env_now env)) = (ba, ta, sa)"
    by (metis prod_cases3)
  have ba: "ba = available_total db2 (led_realm_id l) (led_user_id l) [led_bucket_id l] (env_now env)"
    using snap by (simp add: derived_to_balance_snapshots_eq compute_available_balance_total)
  have wf2: "db_wf env db2"
    using apply_wallet_delta_wf[OF create_ledger_wf[OF assms(2) c assms(3,4)] d] .
  have db1: "l' = l" "db1 = db\<lparr>db_ledgers := db_ledgers db @ [l]\<rparr>" "ledger_check l"
      "ledger_source_allowed (led_source_type l)"
    using c by (simp_all add: result_simps)
  then obtain ws where db2: "db2 = db\<lparr>db_ledgers := db_ledgers db @ [l], db_wallets := ws\<rparr>"
    using d by (auto simp: result_simps)
  let ?db3 = "db2\<lparr>db_seq := Suc (db_seq db)\<rparr>"
  let ?row = "\<lparr>txn_id = env_uuid env (db_seq db), txn_wallet_id = w, txn_user_id = led_user_id l,
            txn_realm_id = led_realm_id l, txn_bucket_id = led_bucket_id l,
            txn_transaction_type = determine_transaction_type (led_credit_type l) (led_source_type l),
            txn_amount = led_granted_amount l, txn_balance_after = ba,
            txn_topup_balance_after = ta, txn_subscription_balance_after = sa,
            txn_credit_type = Some (led_credit_type l), txn_description = Some d,
            txn_client_app_id = None, txn_subscription_id = None,
            txn_external_ref_id = ext (env_uuid env (db_seq db)), txn_correlation_id = None,
            txn_effective_at = led_effective_at l, txn_distribution_event_id = None,
            txn_distribution_rule_id = None, txn_created_at = env_now env\<rparr>"
  have t: "create_transaction_in_tx ?db3 ?row = Inr (t, db')"
    using assms(1) c d snap db2 by (simp add: write_credit_def now_v7_def and_then_Inr_iff)
  have wf3: "db_wf env ?db3" using wf2 db2 by (auto simp: db_wf_def intro: ids_fresh_seq)
  have new: "\<forall>n \<ge> db_seq ?db3. env_uuid env n \<noteq> txn_id ?row"
    using assms(2) by (auto simp: db_wf_def ids_fresh_def inj_eq)
  have "db_wf env db'" by (rule create_transaction_wf[OF wf3 t new])
  with t db1 db2 ba show ?thesis
    by (auto simp: create_transaction_Inr_iff available_total_def available_ledgers_def)
qed

text \<open>The credit succeeds as soon as the row satisfies the constraints and the reference is unused.\<close>

lemma write_credit_total:
  assumes "db_wf env db" "status_ok l" "\<forall>n \<ge> db_seq db. env_uuid env n \<noteq> led_id l"
    and "ledger_check l" "ledger_source_allowed (led_source_type l)" "led_id l \<notin> led_id ` set (db_ledgers db)"
    and "led_distribution_rule_id l = None" "w \<in> wal_id ` set (db_wallets db)"
    and "\<forall>x \<in> set (db_transactions db). ext (env_uuid env (db_seq db)) \<noteq> None \<longrightarrow>
           \<not> (txn_user_id x = led_user_id l \<and> txn_external_ref_id x = ext (env_uuid env (db_seq db)))"
  shows "\<exists>x db'. write_credit env db w l d ext = Inr (x, db')"
proof -
  let ?db1 = "db\<lparr>db_ledgers := db_ledgers db @ [l]\<rparr>"
  have c: "create_ledger_in_tx db l = Inr (l, ?db1)"
    using assms(4-7) by (simp add: create_ledger_Inr_iff)
  obtain x where x: "x \<in> set (db_wallets db)" "wal_id x = w" using assms(8) by blast
  have winv: "wallets_inv (db_wallets db)" using assms(1) by (simp add: db_wf_def db_inv_def)
  then have f: "find (\<lambda>y. wal_id y = w) (db_wallets db) = Some x"
    using find_key_in[of wal_id "db_wallets db" x] x by (simp add: wallets_inv_def)
  have pos: "0 \<le> led_granted_amount l" using assms(4) by (simp add: ledger_check_def)
  have "wallet_check (add_wallet_delta env (wallet_delta_grant (led_credit_type l) (led_granted_amount l)) x)"
    using winv x(1) pos by (intro wallet_delta_grant_check) (auto simp: wallets_inv_def)
  then obtain w' db2 where d: "apply_wallet_delta_in_tx env ?db1 w
      (wallet_delta_grant (led_credit_type l) (led_granted_amount l)) = Inr (w', db2)"
      "db_transactions db2 = db_transactions db" "db_seq db2 = db_seq db"
    using f by (auto simp: apply_wallet_delta_in_tx_def Let_def ensure_def)
  obtain ba ta sa where snap: "derived_to_balance_snapshots (compute_available_balance db2 (led_realm_id l)
      (led_user_id l) [led_bucket_id l] (env_now env)) = (ba, ta, sa)"
    by (metis prod_cases3)
  have new: "\<forall>x \<in> set (db_transactions db). txn_id x \<noteq> env_uuid env (db_seq db)"
    using assms(1) by (force simp: db_wf_def ids_fresh_def)
  from snapshots_nonneg[OF snap] c d snap assms(9) new show ?thesis
    by (auto simp: write_credit_def now_v7_def create_transaction_in_tx_def ensure_def Let_def)
qed

section \<open>Grants\<close>

definition grant_replays :: "env \<Rightarrow> grant_request \<Rightarrow> points_db \<Rightarrow> bool" where
  "grant_replays env req db \<longleftrightarrow>
     Option.bind (gr_idempotency_key req) (check_completed_idempotency_in_tx env db (gr_realm_id req)) \<noteq> None"

definition grant_ledger :: "env \<Rightarrow> grant_request \<Rightarrow> uuid \<Rightarrow> points_credit_ledger" where
  "grant_ledger env req i = fresh_ledger env i (gr_realm_id req) (gr_user_id req) (gr_bucket_id req)
     (gr_credit_type req) (gr_source_type req) (case gr_source_id req of None \<Rightarrow> ''system'' | Some s \<Rightarrow> s)
     (gr_amount req) (gr_expires_at req) (gr_effective_at req)"

lemma fresh_ledger_simps [simp]:
  "led_id (fresh_ledger env i r u b ct st s a ex ef) = i"
  "led_user_id (fresh_ledger env i r u b ct st s a ex ef) = u"
  "led_realm_id (fresh_ledger env i r u b ct st s a ex ef) = r"
  "led_bucket_id (fresh_ledger env i r u b ct st s a ex ef) = b"
  "led_credit_type (fresh_ledger env i r u b ct st s a ex ef) = ct"
  "led_source_type (fresh_ledger env i r u b ct st s a ex ef) = st"
  "led_granted_amount (fresh_ledger env i r u b ct st s a ex ef) = a"
  "led_effective_at (fresh_ledger env i r u b ct st s a ex ef) = ef"
  "led_distribution_rule_id (fresh_ledger env i r u b ct st s a ex ef) = None"
  "remaining_amount (fresh_ledger env i r u b ct st s a ex ef) = a"
  by (simp_all add: fresh_ledger_def remaining_amount_def)

lemma fresh_ledger_check:
  "ledger_check (fresh_ledger env i r u b ct st s a ex ef) \<longleftrightarrow>
     0 < a \<and> (case (ef, ex) of (Some f, Some e) \<Rightarrow> f \<le> e | _ \<Rightarrow> True)"
  by (auto simp: ledger_check_def fresh_ledger_def remaining_amount_def)

lemma fresh_ledger_status_ok: "0 < a \<Longrightarrow> status_ok (fresh_ledger env i r u b ct st s a ex ef)"
  by (simp add: status_ok_def fresh_ledger_def remaining_amount_def)

lemma grant_points_InrE:
  assumes "grant_points_atomic env req db = Inr (l, db')" "\<not> grant_replays env req db"
  obtains w db1 d t db3 where
    "ensure_wallet_in_tx env db (gr_realm_id req) (gr_user_id req) (gr_bucket_id req) = Inr (w, db1)"
    "wal_status w = WalletActive"
    "write_credit env (db1\<lparr>db_seq := Suc (db_seq db1)\<rparr>) (wal_id w) (grant_ledger env req (env_uuid env (db_seq db1))) d
       (\<lambda>tid. Some ((case gr_source_id req of None \<Rightarrow> ''system'' | Some s \<Rightarrow> s) @ '':'' @ env_uuid_str env tid)) =
       Inr ((l, t), db3)"
    "db' = (case gr_idempotency_key req of None \<Rightarrow> db3
        | Some key \<Rightarrow> record_completed_idempotency_in_tx env db3 (gr_realm_id req) key (txn_id t))"
    "(gr_user_id req, gr_realm_id req) \<in> set (db_accounts db)"
    "\<exists>b \<in> set (db_buckets db). bkt_id b = gr_bucket_id req \<and> bkt_realm_id b = gr_realm_id req"
proof -
  from assms show ?thesis
    unfolding grant_points_atomic_def grant_replays_def grant_ledger_def[symmetric] now_v7_def Let_def
    by (auto simp: and_then_Inr_iff ensure_Inr_iff grant_ledger_def intro: that)
qed

lemma ensure_wallet_total:
  assumes "case find_wallet_by_user_bucket db r u b of
       None \<Rightarrow> (\<exists>a \<in> set (db_accounts db). fst a = u) \<and> (\<exists>x \<in> set (db_buckets db). bkt_id x = b)
     | Some w \<Rightarrow> wal_status w = WalletActive"
  shows "\<exists>w db1. ensure_wallet_in_tx env db r u b = Inr (w, db1) \<and> wal_status w = WalletActive"
  using assms
  by (auto simp: ensure_wallet_in_tx_def create_wallet_in_tx_def find_wallet_by_user_bucket_def now_v7_def
      ensure_def Let_def split: option.splits)

lemma write_credit_frame:
  "write_credit env db w l d ext = Inr (x, db') \<Longrightarrow>
     db_accounts db' = db_accounts db \<and> db_buckets db' = db_buckets db"
  by (auto simp: write_credit_def and_then_Inr_iff create_ledger_Inr_iff apply_wallet_delta_Inr_iff
      create_transaction_Inr_iff now_v7_def Let_def split_beta)

lemma write_credit_check:
  "write_credit env db w l d ext = Inr x \<Longrightarrow> ledger_check l \<and> ledger_source_allowed (led_source_type l)"
  by (auto simp: write_credit_def and_then_Inr_iff create_ledger_Inr_iff)

lemma db_wf_bump: "db_wf env db \<Longrightarrow> db_wf env (db\<lparr>db_seq := Suc (db_seq db)\<rparr>)"
  by (auto simp: db_wf_def intro: ids_fresh_seq)

lemma bumped_id_fresh: "db_wf env db \<Longrightarrow> \<forall>n \<ge> Suc (db_seq db). env_uuid env n \<noteq> env_uuid env (db_seq db)"
  by (auto simp: db_wf_def ids_fresh_def inj_eq)

text \<open>The credit of a grant or a recharge, from the wallet lock to the transaction row.\<close>

lemma credit_effect:
  assumes "db_wf env db" "ensure_wallet_in_tx env db r u b = Inr (w, db1)"
    and "write_credit env (db1\<lparr>db_seq := Suc (db_seq db1)\<rparr>) (wal_id w)
           (fresh_ledger env (env_uuid env (db_seq db1)) r u b ct st s a ex ef) d ext = Inr ((l, t), db')"
  shows "db_wf env db'" "l = fresh_ledger env (env_uuid env (db_seq db1)) r u b ct st s a ex ef" "0 < a"
    "db_ledgers db' = db_ledgers db @ [l]" "db_transactions db' = db_transactions db @ [t]"
    "txn_amount t = a" "txn_balance_after t = available_total db' r u [b] (env_now env)"
    "txn_external_ref_id t = ext (txn_id t)" "txn_user_id t = u"
    "db_idempotency db' = db_idempotency db"
    "\<forall>x \<in> set (db_transactions db). ext (txn_id t) \<noteq> None \<longrightarrow>
       \<not> (txn_user_id x = u \<and> txn_external_ref_id x = ext (txn_id t))"
proof -
  have wf1: "db_wf env db1" by (rule ensure_wallet_wf(1)[OF assms(1,2)])
  have same: "db_ledgers db1 = db_ledgers db" "db_transactions db1 = db_transactions db"
      "db_idempotency db1 = db_idempotency db"
    using assms(2) by (cases rule: ensure_wallet_InrE; simp)+
  show pos: "0 < a" using write_credit_check[OF assms(3)] by (simp add: fresh_ledger_check)
  note e = write_credit_effect[OF assms(3) db_wf_bump[OF wf1] fresh_ledger_status_ok[OF pos]]
  from e bumped_id_fresh[OF wf1] same
  show "db_wf env db'" "l = fresh_ledger env (env_uuid env (db_seq db1)) r u b ct st s a ex ef"
    "db_ledgers db' = db_ledgers db @ [l]" "db_transactions db' = db_transactions db @ [t]"
    "txn_amount t = a" "txn_balance_after t = available_total db' r u [b] (env_now env)"
    "txn_external_ref_id t = ext (txn_id t)" "txn_user_id t = u"
    "db_idempotency db' = db_idempotency db"
    "\<forall>x \<in> set (db_transactions db). ext (txn_id t) \<noteq> None \<longrightarrow>
       \<not> (txn_user_id x = u \<and> txn_external_ref_id x = ext (txn_id t))"
    by auto
qed

lemma available_total_append:
  assumes "db_ledgers db' = db_ledgers db @ [l]"
  shows "available_total db' r u bs now = available_total db r u bs now +
    (if led_realm_id l = r \<and> led_user_id l = u \<and> (bs = [] \<or> led_bucket_id l \<in> set bs) \<and> live_at now l
     then remaining_amount l else 0)"
  by (auto simp: available_total_def available_ledgers_def assms)

lemma grant_commit_frame:
  assumes "db' = (case key of None \<Rightarrow> db3 | Some k \<Rightarrow> record_completed_idempotency_in_tx env db3 r k t)"
  shows "db_wf env db3 \<Longrightarrow> db_wf env db'" "db_ledgers db' = db_ledgers db3"
    "db_transactions db' = db_transactions db3" "db_accounts db' = db_accounts db3" "db_buckets db' = db_buckets db3"
proof -
  show "db_wf env db3 \<Longrightarrow> db_wf env db'"
    using assms by (auto split: option.splits intro: record_idempotency_wf)
  have "\<exists>n ks. db' = db3\<lparr>db_seq := n, db_idempotency := ks\<rparr>"
  proof (cases key)
    case None
    with assms show ?thesis by (intro exI[of _ "db_seq db3"] exI[of _ "db_idempotency db3"]) simp
  next
    case (Some k)
    with assms have "db' = record_completed_idempotency_in_tx env db3 r k t" by simp
    then show ?thesis using record_idempotency_frame by metis
  qed
  then show "db_ledgers db' = db_ledgers db3" "db_transactions db' = db_transactions db3"
    "db_accounts db' = db_accounts db3" "db_buckets db' = db_buckets db3" by auto
qed

text \<open>
  C7: a grant credits exactly its amount.  A successful, non-replayed \<open>grant_points_atomic\<close>
  appends one active ledger row holding the whole amount and one transaction row whose
  \<open>balance_after\<close> is the bucket's derived balance; at every instant the bucket's derived
  balance has grown by the amount if the row is live then and by nothing otherwise, and the
  balances of every other user and realm are what they were.
\<close>

theorem grant_credits_amount:
  assumes "db_wf env db" "\<not> grant_replays env req db" "grant_points_atomic env req db = Inr (l, db')"
  shows "db_wf env db' \<and> db_ledgers db' = db_ledgers db @ [l] \<and> remaining_amount l = gr_amount req \<and>
    0 < gr_amount req \<and>
    (\<exists>t. db_transactions db' = db_transactions db @ [t] \<and> txn_amount t = gr_amount req \<and>
       txn_balance_after t =
         available_total db' (gr_realm_id req) (gr_user_id req) [gr_bucket_id req] (env_now env)) \<and>
    (\<forall>now. available_total db' (gr_realm_id req) (gr_user_id req) [gr_bucket_id req] now =
       available_total db (gr_realm_id req) (gr_user_id req) [gr_bucket_id req] now +
       (if live_at now l then gr_amount req else 0)) \<and>
    (\<forall>r u bs now. (r, u) \<noteq> (gr_realm_id req, gr_user_id req) \<longrightarrow>
       available_total db' r u bs now = available_total db r u bs now)"
proof -
  obtain w db1 d t db3 where
    w: "ensure_wallet_in_tx env db (gr_realm_id req) (gr_user_id req) (gr_bucket_id req) = Inr (w, db1)" and
    c: "write_credit env (db1\<lparr>db_seq := Suc (db_seq db1)\<rparr>) (wal_id w) (grant_ledger env req (env_uuid env (db_seq db1))) d
       (\<lambda>tid. Some ((case gr_source_id req of None \<Rightarrow> ''system'' | Some s \<Rightarrow> s) @ '':'' @ env_uuid_str env tid)) =
       Inr ((l, t), db3)" and
    db': "db' = (case gr_idempotency_key req of None \<Rightarrow> db3
        | Some key \<Rightarrow> record_completed_idempotency_in_tx env db3 (gr_realm_id req) key (txn_id t))"
    by (rule grant_points_InrE[OF assms(3,2)])
  note e = credit_effect[OF assms(1) w c[unfolded grant_ledger_def]]
  note f = grant_commit_frame[OF db']
  have app: "db_ledgers db' = db_ledgers db @ [l]" using e(4) f(2) by simp
  have "txn_balance_after t = available_total db' (gr_realm_id req) (gr_user_id req) [gr_bucket_id req] (env_now env)"
    using e(7) available_total_cong[OF f(2)] by simp
  moreover have "available_total db' (gr_realm_id req) (gr_user_id req) [gr_bucket_id req] now =
       available_total db (gr_realm_id req) (gr_user_id req) [gr_bucket_id req] now +
       (if live_at now l then gr_amount req else 0)" for now
    by (simp add: available_total_append[OF app] e(2))
  moreover have "available_total db' r u bs now = available_total db r u bs now"
    if "(r, u) \<noteq> (gr_realm_id req, gr_user_id req)" for r u bs now
    using that by (auto simp: available_total_append[OF app] e(2))
  ultimately show ?thesis
    using e(1,2,3,5,6) f(1,3) app by simp
qed

definition demo_grant :: "i64 \<Rightarrow> string option \<Rightarrow> grant_request" where
  "demo_grant amount key = \<lparr>gr_realm_id = ''r'', gr_user_id = 1, gr_bucket_id = 11, gr_credit_type = GrantedCredit,
     gr_source_type = SrcAdminGrant, gr_amount = amount, gr_expires_at = Some (secs 800), gr_effective_at = None,
     gr_source_id = Some ''admin-1'', gr_description = None, gr_idempotency_key = key\<rparr>"

lemma demo_grant_runs:
  "\<not> isl (grant_points_atomic demo_env (demo_grant 25 (Some ''g'')) demo_db)"
  "\<not> grant_replays demo_env (demo_grant 25 (Some ''g'')) demo_db"
  "\<not> grant_replays demo_env (demo_grant 0 None) demo_db"
  by code_simp+

theorem grant_credits_amount_witness:
  "\<exists>l db'. grant_points_atomic demo_env (demo_grant 25 (Some ''g'')) demo_db = Inr (l, db') \<and>
     remaining_amount l = 25 \<and> db_ledgers db' = db_ledgers demo_db @ [l]"
proof -
  obtain l db' where run: "grant_points_atomic demo_env (demo_grant 25 (Some ''g'')) demo_db = Inr (l, db')"
    using demo_grant_runs(1) by (metis isl_def sum.collapse(2) surj_pair)
  with grant_credits_amount[OF demo_wf demo_grant_runs(2) run] show ?thesis
    by (auto simp: demo_grant_def)
qed

text \<open>
  C8: a keyed grant is honoured once.  Repeating it within 24 hours, on any clock, returns a
  placeholder of amount zero and leaves every table as it was; only an identifier is drawn.
\<close>

theorem grant_replay_is_noop:
  assumes "db_wf env db" "\<not> grant_replays env req db" "gr_idempotency_key req = Some key"
    and "grant_points_atomic env req db = Inr (l, db')" "env_sql_now env' < env_sql_now env + secs (24 * 3600)"
  shows "\<exists>l'. grant_points_atomic env' req db' = Inr (l', db'\<lparr>db_seq := Suc (db_seq db')\<rparr>) \<and>
    remaining_amount l' = 0 \<and> led_granted_amount l' = 0"
proof -
  obtain w db1 d t db3 where
    w: "ensure_wallet_in_tx env db (gr_realm_id req) (gr_user_id req) (gr_bucket_id req) = Inr (w, db1)" and
    c: "write_credit env (db1\<lparr>db_seq := Suc (db_seq db1)\<rparr>) (wal_id w) (grant_ledger env req (env_uuid env (db_seq db1))) d
       (\<lambda>tid. Some ((case gr_source_id req of None \<Rightarrow> ''system'' | Some s \<Rightarrow> s) @ '':'' @ env_uuid_str env tid)) =
       Inr ((l, t), db3)" and
    db': "db' = (case gr_idempotency_key req of None \<Rightarrow> db3
        | Some key \<Rightarrow> record_completed_idempotency_in_tx env db3 (gr_realm_id req) key (txn_id t))" and
    acc: "(gr_user_id req, gr_realm_id req) \<in> set (db_accounts db)"
      "\<exists>b \<in> set (db_buckets db). bkt_id b = gr_bucket_id req \<and> bkt_realm_id b = gr_realm_id req"
    by (rule grant_points_InrE[OF assms(4,2)])
  have "db_accounts db3 = db_accounts db \<and> db_buckets db3 = db_buckets db"
    using w c write_credit_frame[OF c] by (cases rule: ensure_wallet_InrE) simp_all
  then have acc': "(gr_user_id req, gr_realm_id req) \<in> set (db_accounts db')"
      "\<exists>b \<in> set (db_buckets db'). bkt_id b = gr_bucket_id req \<and> bkt_realm_id b = gr_realm_id req"
    using acc grant_commit_frame(4,5)[OF db'] by simp_all
  have "check_completed_idempotency_in_tx env' db' (gr_realm_id req) key = Some (txn_id t)"
    using db' assms(3) check_after_record[OF assms(5)] by simp
  with acc' assms(3) show ?thesis
    by (simp add: grant_points_atomic_def ensure_def now_v7_def)
qed

theorem grant_replay_is_noop_witness:
  "\<exists>l db' l'. grant_points_atomic demo_env (demo_grant 25 (Some ''g'')) demo_db = Inr (l, db') \<and>
     grant_points_atomic demo_env (demo_grant 25 (Some ''g'')) db' = Inr (l', db'\<lparr>db_seq := Suc (db_seq db')\<rparr>) \<and>
     remaining_amount l' = 0"
proof -
  obtain l db' where run: "grant_points_atomic demo_env (demo_grant 25 (Some ''g'')) demo_db = Inr (l, db')"
    using demo_grant_runs(1) by (metis isl_def sum.collapse(2) surj_pair)
  have "gr_idempotency_key (demo_grant 25 (Some ''g'')) = Some ''g''" by (simp add: demo_grant_def)
  from grant_replay_is_noop[OF demo_wf demo_grant_runs(2) this run, of demo_env] run show ?thesis
    by (auto simp: demo_env_def secs_def)
qed



section \<open>Recharges\<close>

lemma recharge_points_InrE:
  assumes "recharge_points_atomic env req db = Inr (t, db')"
  obtains w db1 s d l where
    "ensure_wallet_in_tx env db (rc_realm_id req) (rc_user_id req) (rc_bucket_id req) = Inr (w, db1)"
    "wal_status w = WalletActive"
    "write_credit env (db1\<lparr>db_seq := Suc (db_seq db1)\<rparr>) (wal_id w)
       (fresh_ledger env (env_uuid env (db_seq db1)) (rc_realm_id req) (rc_user_id req) (rc_bucket_id req)
          (rc_credit_type req) (rc_source_type req) s (rc_amount req) (rc_expires_at req) None) d
       (\<lambda>_. rc_external_ref_id req) = Inr ((l, t), db')"
  using assms unfolding recharge_points_atomic_def now_v7_def Let_def
  by (auto simp: and_then_Inr_iff ensure_Inr_iff intro: that)

text \<open>
  C10: a payment is credited once.  After a recharge under an external reference, no further
  recharge of that user under the same reference succeeds, whatever its amount, bucket or
  realm, in this or any later database that still holds the first one's transaction.
\<close>

theorem recharge_reference_used_once:
  assumes "db_wf env db" "recharge_points_atomic env req db = Inr (t, db')" "rc_external_ref_id req = Some ref"
    and "set (db_transactions db') \<subseteq> set (db_transactions db'')" "db_wf env' db''"
    and "rc_user_id req' = rc_user_id req" "rc_external_ref_id req' = Some ref"
  shows "\<exists>e. recharge_points_atomic env' req' db'' = Inl e"
proof (rule ccontr)
  assume "\<not> ?thesis"
  then obtain t' db3 where again: "recharge_points_atomic env' req' db'' = Inr (t', db3)"
    by (metis old.prod.exhaust sumE)
  obtain w db1 s d l where
    w: "ensure_wallet_in_tx env db (rc_realm_id req) (rc_user_id req) (rc_bucket_id req) = Inr (w, db1)" and
    c: "write_credit env (db1\<lparr>db_seq := Suc (db_seq db1)\<rparr>) (wal_id w)
       (fresh_ledger env (env_uuid env (db_seq db1)) (rc_realm_id req) (rc_user_id req) (rc_bucket_id req)
          (rc_credit_type req) (rc_source_type req) s (rc_amount req) (rc_expires_at req) None) d
       (\<lambda>_. rc_external_ref_id req) = Inr ((l, t), db')"
    by (rule recharge_points_InrE[OF assms(2)])
  note e = credit_effect[OF assms(1) w c]
  obtain w' db1' s' d' l' where
    w': "ensure_wallet_in_tx env' db'' (rc_realm_id req') (rc_user_id req') (rc_bucket_id req') = Inr (w', db1')" and
    c': "write_credit env' (db1'\<lparr>db_seq := Suc (db_seq db1')\<rparr>) (wal_id w')
       (fresh_ledger env' (env_uuid env' (db_seq db1')) (rc_realm_id req') (rc_user_id req') (rc_bucket_id req')
          (rc_credit_type req') (rc_source_type req') s' (rc_amount req') (rc_expires_at req') None) d'
       (\<lambda>_. rc_external_ref_id req') = Inr ((l', t'), db3)"
    by (rule recharge_points_InrE[OF again])
  note e' = credit_effect[OF assms(5) w' c']
  have "t \<in> set (db_transactions db'')" using e(5) assms(4) by auto
  with e'(11) e(8,9) assms(3,6,7) show False by simp
qed

definition demo_recharge :: "i64 \<Rightarrow> string \<Rightarrow> recharge_request" where
  "demo_recharge amount ref = \<lparr>rc_realm_id = ''r'', rc_user_id = 1, rc_bucket_id = 10, rc_credit_type = TopupCredit,
     rc_source_type = SrcTopup, rc_amount = amount, rc_expires_at = None, rc_source_id = None,
     rc_external_ref_id = Some ref\<rparr>"

theorem recharge_reference_used_once_witness:
  "\<exists>t db' e. recharge_points_atomic demo_env (demo_recharge 5 ''pi_1'') demo_db = Inr (t, db') \<and>
     recharge_points_atomic demo_env (demo_recharge 900 ''pi_1'') db' = Inl e"
proof -
  have "\<not> isl (recharge_points_atomic demo_env (demo_recharge 5 ''pi_1'') demo_db)" by code_simp
  then obtain t db' where run: "recharge_points_atomic demo_env (demo_recharge 5 ''pi_1'') demo_db = Inr (t, db')"
    by (metis isl_def sum.collapse(2) surj_pair)
  have wf: "db_wf demo_env db'"
    by (rule recharge_points_InrE[OF run]) (rule credit_effect(1)[OF demo_wf])
  from recharge_reference_used_once[OF demo_wf run _ _ wf, where ref = "''pi_1''" and req' = "demo_recharge 900 ''pi_1''"] run
  show ?thesis by (auto simp: demo_recharge_def)
qed

end
