(* ===== verification/PointsRevoke.thy ===== *)
theory PointsRevoke
  imports PointsGrant "HOL-Library.Signed_Division"
begin

text \<open>
  Taking points back: the revocations by credit type, by source and by distribution source, the
  proportional top-up refunds and the expiry scan of
  \<open>infra/src/points/postgres_repository.rs\<close>.  All of them are one loop that revokes an
  amount of a row and records it; its effect on the ledger table is computed once here and the
  operations only choose rows and amounts.
\<close>

section \<open>Operations\<close>

record revoke_points_output =
  rpo_revocation_id :: uuid
  rpo_ledger_ids :: "uuid list"
  rpo_total_revoked :: i64
  rpo_revoked_at :: instant

definition empty_output :: "env \<Rightarrow> points_db \<Rightarrow> revoke_points_output \<times> points_db" where
  "empty_output env db =
     (let (i, db1) = now_v7 env db in
      (\<lparr>rpo_revocation_id = i, rpo_ledger_ids = [], rpo_total_revoked = 0, rpo_revoked_at = env_now env\<rparr>, db1))"

definition output_of :: "env \<Rightarrow> uuid list \<Rightarrow> i64 \<Rightarrow> points_db \<Rightarrow> revoke_points_output \<times> points_db" where
  "output_of env ledger_ids total_revoked db =
     (let (i, db1) = now_v7 env db in
      (\<lparr>rpo_revocation_id = i, rpo_ledger_ids = ledger_ids, rpo_total_revoked = total_revoked,
        rpo_revoked_at = env_now env\<rparr>, db1))"

text \<open>What a revocation record says besides the row and the amount.\<close>

record revocation_cause =
  rcause_realm_id :: string
  rcause_user_id :: uuid
  rcause_type :: revocation_type
  rcause_reason :: string
  rcause_reference_id :: "string option"

text \<open>The loop body: \<open>(total_revoked, ledger_ids)\<close> and the database, one row and amount.\<close>

definition revoke_ledger_step ::
  "env \<Rightarrow> revocation_cause \<Rightarrow> i64 \<times> uuid list \<times> points_db \<Rightarrow> uuid \<times> i64
     \<Rightarrow> (core_error, i64 \<times> uuid list \<times> points_db) result" where
  "revoke_ledger_step env cause s p =
     (case (s, p) of ((total_revoked, ledger_ids, db), (ledger_id, amount_to_revoke)) \<Rightarrow>
      and_then (update_ledger_in_tx env db ledger_id (Revocation amount_to_revoke)) (\<lambda>(updated, db1).
      (let (i, db2) = now_v7 env db1 in
       and_then (create_revocation_record_in_tx db2
          \<lparr>rev_id = i, rev_ledger_id = led_id updated, rev_user_id = rcause_user_id cause,
           rev_realm_id = rcause_realm_id cause, rev_revocation_type = rcause_type cause,
           rev_revoked_amount = amount_to_revoke, rev_reason = rcause_reason cause,
           rev_reference_id = rcause_reference_id cause, rev_created_at = env_now env\<rparr>) (\<lambda>db3.
         Inr (total_revoked + amount_to_revoke, ledger_ids @ [led_id updated], db3)))))"

definition revoke_ledger_list_in_tx ::
  "env \<Rightarrow> points_db \<Rightarrow> revocation_cause \<Rightarrow> (uuid \<times> i64) list
     \<Rightarrow> (core_error, i64 \<times> uuid list \<times> points_db) result" where
  "revoke_ledger_list_in_tx env db cause ledgers = try_fold (revoke_ledger_step env cause) (0, [], db) ledgers"

definition record_key_opt :: "env \<Rightarrow> points_db \<Rightarrow> string \<Rightarrow> string option \<Rightarrow> points_db" where
  "record_key_opt env db realm_id key =
     (case key of
        None \<Rightarrow> db
      | Some k \<Rightarrow> (let (i, db1) = now_v7 env db in record_completed_idempotency_in_tx env db1 realm_id k i))"

definition revoke_points_by_credit_type_atomic ::
  "env \<Rightarrow> uuid \<Rightarrow> credit_type \<Rightarrow> revocation_cause \<Rightarrow> string option \<Rightarrow> points_db \<Rightarrow> revoke_points_output tx" where
  "revoke_points_by_credit_type_atomic env bucket_id credit_type cause idempotency_key db =
     (if Option.bind idempotency_key (check_completed_idempotency_in_tx env db (rcause_realm_id cause)) \<noteq> None
      then Inr (empty_output env db)
      else case find_wallet_by_user_bucket db (rcause_realm_id cause) (rcause_user_id cause) bucket_id of
        None \<Rightarrow> Inr (empty_output env db)
      | Some _ \<Rightarrow>
          (let ledgers = find_active_ledgers_by_credit_type_and_bucket db (rcause_realm_id cause)
                 (rcause_user_id cause) bucket_id credit_type;
               tuples = map (\<lambda>l. (led_id l, remaining_amount l)) (filter (\<lambda>l. 0 < remaining_amount l) ledgers)
           in and_then (revoke_ledger_list_in_tx env db cause tuples) (\<lambda>(total_revoked, ledger_ids, db1).
              Inr (output_of env ledger_ids total_revoked
                     (record_key_opt env db1 (rcause_realm_id cause) idempotency_key)))))"

definition revoke_points_by_source_id_atomic ::
  "env \<Rightarrow> uuid \<Rightarrow> string \<Rightarrow> revocation_cause \<Rightarrow> string option \<Rightarrow> points_db \<Rightarrow> revoke_points_output tx" where
  "revoke_points_by_source_id_atomic env bucket_id source_id cause idempotency_key db =
     (if Option.bind idempotency_key (check_completed_idempotency_in_tx env db (rcause_realm_id cause)) \<noteq> None
      then Inr (empty_output env db)
      else case find_wallet_by_user_bucket db (rcause_realm_id cause) (rcause_user_id cause) bucket_id of
        None \<Rightarrow> Inr (empty_output env db)
      | Some _ \<Rightarrow>
          (case find (\<lambda>l. led_realm_id l = rcause_realm_id cause \<and> led_user_id l = rcause_user_id cause \<and>
                          led_bucket_id l = bucket_id \<and> led_source_id l = source_id \<and> 0 < remaining_amount l)
                  (db_ledgers db) of
             None \<Rightarrow> Inr (empty_output env db)
           | Some l \<Rightarrow>
               and_then (revoke_ledger_step env cause (0, [], db) (led_id l, remaining_amount l))
                 (\<lambda>(total_revoked, ledger_ids, db1).
                    Inr (output_of env ledger_ids total_revoked
                           (record_key_opt env db1 (rcause_realm_id cause) idempotency_key)))))"

subsection \<open>Refunds\<close>

text \<open>
  The 128-bit product and truncating division; \<open>None\<close> is the division by zero, which
  panics.  A quotient outside 64 bits becomes \<open>i64::MAX\<close> before the cap.
\<close>

definition proportional_refund_for_grant :: "i64 \<Rightarrow> i64 \<Rightarrow> i64 \<Rightarrow> i64 \<Rightarrow> i64 option" where
  "proportional_refund_for_grant granted_amount remaining refund_amount original_payment_amount =
     (if original_payment_amount = 0 then None
      else (let rounded = (granted_amount * refund_amount + original_payment_amount sdiv 2)
                            sdiv original_payment_amount
            in Some (min (if in_i64 rounded then rounded else i64_max) remaining)))"

definition division_by_zero :: core_error where
  "division_by_zero = InternalServerError ''attempt to divide by zero''"

text \<open>One ledger of a refund loop; \<open>basis\<close> is the column the share is computed from.\<close>

definition refund_step ::
  "env \<Rightarrow> revocation_cause \<Rightarrow> (points_credit_ledger \<Rightarrow> i64) \<Rightarrow> i64 \<Rightarrow> i64
     \<Rightarrow> i64 \<times> uuid list \<times> points_db \<Rightarrow> points_credit_ledger
     \<Rightarrow> (core_error, i64 \<times> uuid list \<times> points_db) result" where
  "refund_step env cause basis refund_amount original_payment_amount s l =
     and_then (ok_or (proportional_refund_for_grant (basis l) (remaining_amount l) refund_amount original_payment_amount)
                division_by_zero) (\<lambda>amount_to_revoke.
     if amount_to_revoke \<le> 0 then Inr s
     else revoke_ledger_step env cause s (led_id l, amount_to_revoke))"

definition refund_cause :: "string \<Rightarrow> uuid \<Rightarrow> i64 \<Rightarrow> i64 \<Rightarrow> string \<Rightarrow> revocation_cause" where
  "refund_cause realm_id user_id refund_amount original_payment_amount refund_id =
     \<lparr>rcause_realm_id = realm_id, rcause_user_id = user_id, rcause_type = RevRefund,
      rcause_reason = ''Proportional refund ('' @ show_int refund_amount @ ''/'' @
        show_int original_payment_amount @ '')'',
      rcause_reference_id = Some refund_id\<rparr>"

definition revoke_topup_proportional_atomic ::
  "env \<Rightarrow> string \<Rightarrow> uuid \<Rightarrow> uuid \<Rightarrow> i64 \<Rightarrow> i64 \<Rightarrow> string \<Rightarrow> points_db \<Rightarrow> revoke_points_output tx" where
  "revoke_topup_proportional_atomic env realm_id user_id bucket_id refund_amount original_payment_amount refund_id db =
     (let key = ''refund:topup:'' @ refund_id in
      if check_completed_idempotency_in_tx env db realm_id key \<noteq> None then Inr (empty_output env db)
      else and_then (try_fold
             (refund_step env (refund_cause realm_id user_id refund_amount original_payment_amount refund_id)
                remaining_amount refund_amount original_payment_amount) (0, [], db)
             (find_active_ledgers_by_credit_type_and_bucket db realm_id user_id bucket_id TopupCredit))
        (\<lambda>(total_revoked, ledger_ids, db1).
           Inr (output_of env ledger_ids total_revoked (record_key_opt env db1 realm_id (Some key)))))"

record topup_refund_request =
  trr_realm_id :: string
  trr_user_id :: uuid
  trr_payment_attempt_id :: uuid
  trr_payment_provider :: string
  trr_refund_id :: string
  trr_refund_amount :: i64
  trr_original_payment_amount :: i64
  trr_provider_cumulative_refunded :: "i64 option"

record topup_refund_outcome =
  tro_duplicate :: bool
  tro_fully_refunded :: bool
  tro_revoked :: revoke_points_output

text \<open>
  The refund row: \<open>INSERT ... ON CONFLICT DO NOTHING RETURNING\<close>, with the cumulative figure of
  the provider or, without one, the sum over the attempt's recorded refunds.
\<close>

definition cumulative_refunded :: "points_db \<Rightarrow> topup_refund_request \<Rightarrow> i64" where
  "cumulative_refunded db req =
     (case trr_provider_cumulative_refunded req of
        Some c \<Rightarrow> c
      | None \<Rightarrow> sum_list (map rfd_amount
          (filter (\<lambda>r. rfd_payment_attempt_id r = trr_payment_attempt_id req) (db_refunds db))) +
          trr_refund_amount req)"

definition same_refund :: "topup_refund_request \<Rightarrow> payment_refund \<Rightarrow> bool" where
  "same_refund req r \<longleftrightarrow> rfd_realm_id r = trr_realm_id req \<and>
     rfd_payment_provider r = trr_payment_provider req \<and> rfd_refund_id r = trr_refund_id req"

definition insert_refund :: "env \<Rightarrow> points_db \<Rightarrow> topup_refund_request \<Rightarrow> i64 option tx" where
  "insert_refund env db req =
     (let (i, db1) = now_v7 env db;
          cumulative = cumulative_refunded db req
      in and_then (ensure (trr_payment_provider req \<in> {''stripe'', ''creem''} \<and> 0 < trr_refund_amount req \<and>
                     0 < trr_original_payment_amount req \<and> 0 < cumulative)
                    (DatabaseError ''payment_refunds_check'')) (\<lambda>_.
         if \<exists>r \<in> set (db_refunds db). same_refund req r
         then Inr (None, db1)
         else Inr (Some cumulative, db1\<lparr>db_refunds := db_refunds db @
           [\<lparr>rfd_id = i, rfd_realm_id = trr_realm_id req, rfd_payment_provider = trr_payment_provider req,
             rfd_payment_attempt_id = trr_payment_attempt_id req, rfd_refund_id = trr_refund_id req,
             rfd_amount = trr_refund_amount req,
             rfd_original_payment_amount = trr_original_payment_amount req,
             rfd_cumulative_refunded_after = cumulative\<rparr>]\<rparr>)))"

definition refundable_ledgers :: "env \<Rightarrow> topup_refund_request \<Rightarrow> points_db \<Rightarrow> points_credit_ledger list" where
  "refundable_ledgers env req db =
     sort_key (\<lambda>l. (led_bucket_id l, led_id l))
       (filter (\<lambda>l. led_credit_type l = TopupCredit \<and> led_distribution_rule_id l \<noteq> None \<and>
                    led_status l = LedgerActive \<and> 0 < remaining_amount l \<and>
                    (\<exists>e \<in> set (db_events db). led_distribution_event_id l = Some (evt_id e) \<and>
                       evt_realm_id e = trr_realm_id req \<and> evt_user_id e = trr_user_id req \<and>
                       evt_source_id e = env_uuid_str env (trr_payment_attempt_id req)))
         (db_ledgers db))"

definition revoke_topup_refund_atomic :: "env \<Rightarrow> topup_refund_request \<Rightarrow> points_db \<Rightarrow> topup_refund_outcome tx" where
  "revoke_topup_refund_atomic env req db =
     and_then (insert_refund env db req) (\<lambda>(inserted, db1).
     case inserted of
       None \<Rightarrow>
         and_then (ok_or (find (same_refund req) (db_refunds db1)) (DatabaseError ''no rows returned'')) (\<lambda>existing.
         (let (output, db2) = empty_output env db1 in
          Inr (\<lparr>tro_duplicate = True,
                tro_fully_refunded =
                  rfd_original_payment_amount existing \<le> rfd_cumulative_refunded_after existing,
                tro_revoked = output\<rparr>, db2)))
     | Some cumulative_refunded_after \<Rightarrow>
         (let fully_refunded = trr_original_payment_amount req \<le> cumulative_refunded_after;
              effective_refund_amount =
                (if fully_refunded then trr_original_payment_amount req else trr_refund_amount req)
          in and_then (try_fold
               (refund_step env (refund_cause (trr_realm_id req) (trr_user_id req) effective_refund_amount
                    (trr_original_payment_amount req) (trr_refund_id req))
                  led_granted_amount effective_refund_amount (trr_original_payment_amount req)) (0, [], db1)
               (refundable_ledgers env req db1)) (\<lambda>(total_revoked, ledger_ids, db2).
             (let (output, db3) = output_of env ledger_ids total_revoked db2 in
              Inr (\<lparr>tro_duplicate = False, tro_fully_refunded = fully_refunded, tro_revoked = output\<rparr>, db3)))))"

subsection \<open>Expiry\<close>

record expiration_summary =
  exs_expired_count :: nat
  exs_total_expired :: i64
  exs_expired_at :: instant

definition expire_step ::
  "env \<Rightarrow> i64 \<times> points_db \<Rightarrow> points_credit_ledger \<Rightarrow> (core_error, i64 \<times> points_db) result" where
  "expire_step env s l =
     (case s of (total_expired, db) \<Rightarrow>
      (let amount = remaining_amount l in
       and_then (update_ledger_in_tx env db (led_id l) (SetStatus LedgerExpired)) (\<lambda>(_, db1).
       (let (i, db2) = now_v7 env db1 in
        and_then (create_revocation_record_in_tx db2
          \<lparr>rev_id = i, rev_ledger_id = led_id l, rev_user_id = led_user_id l,
           rev_realm_id = led_realm_id l, rev_revocation_type = RevExpire,
           rev_revoked_amount = amount, rev_reason = ''Points expired'',
           rev_reference_id = None, rev_created_at = env_now env\<rparr>) (\<lambda>db3.
        and_then (ok_or (find_wallet_by_user_bucket db3 (led_realm_id l) (led_user_id l) (led_bucket_id l)) NotFound)
          (\<lambda>_. Inr (total_expired + amount, db3)))))))"

definition scan_and_expire_points_atomic :: "env \<Rightarrow> nat \<Rightarrow> points_db \<Rightarrow> expiration_summary tx" where
  "scan_and_expire_points_atomic env batch_size db =
     (let ledgers = find_expired_ledgers db (env_now env) batch_size in
      if ledgers = [] then Inr (\<lparr>exs_expired_count = 0, exs_total_expired = 0, exs_expired_at = env_now env\<rparr>, db)
      else and_then (try_fold (expire_step env) (0, db) ledgers) (\<lambda>(total_expired, db').
        Inr (\<lparr>exs_expired_count = length ledgers, exs_total_expired = total_expired,
               exs_expired_at = env_now env\<rparr>, db')))"

end
