(* ===== verification/PointsRevokeProps.thy ===== *)
theory PointsRevokeProps
  imports PointsRevoke
begin

text \<open>
  What the revocations of \<open>PointsRevoke\<close> do: the exact effect of the revocation loop on
  the tables, and from it the properties of each operation.
\<close>

section \<open>The revocation loop\<close>

definition take_back :: "env \<Rightarrow> i64 \<Rightarrow> points_credit_ledger \<Rightarrow> points_credit_ledger" where
  "take_back env a l =
     (if a = 0 then l
      else l\<lparr>led_revoked_amount := led_revoked_amount l + a,
             led_status := (if remaining_amount l = a then LedgerRevoked else led_status l),
             led_updated_at := env_sql_now env\<rparr>)"

definition amount_for :: "(uuid \<times> i64) list \<Rightarrow> uuid \<Rightarrow> i64" where
  "amount_for ps i = (case map_of ps i of None \<Rightarrow> 0 | Some a \<Rightarrow> a)"

definition ledger_total :: "points_db \<Rightarrow> i64" where
  "ledger_total db = sum_list (map remaining_amount (db_ledgers db))"

lemma take_back_simps [simp]:
  "led_id (take_back env a l) = led_id l" "remaining_amount (take_back env a l) = remaining_amount l - a"
  "ledger_origin (take_back env a l) = ledger_origin l"
  by (simp_all add: take_back_def ledger_origin_def)

lemma updated_ledger_take_back:
  "updated_ledger (Revocation a) l = Inr l0 \<Longrightarrow> 0 < a \<Longrightarrow> l0\<lparr>led_updated_at := env_sql_now env\<rparr> = take_back env a l"
  by (auto simp: take_back_def Let_def split: if_splits)

lemma amount_for_simps [simp]:
  "amount_for [] i = 0" "amount_for ((j, a) # ps) i = (if i = j then a else amount_for ps i)"
  by (simp_all add: amount_for_def)

lemma amount_for_absent: "i \<notin> fst ` set ps \<Longrightarrow> amount_for ps i = 0"
  by (simp add: amount_for_def map_of_eq_None_iff[THEN iffD2])

lemma sort_key_empty: "sort_key f xs = [] \<longleftrightarrow> xs = []"
  by (metis length_0_conv length_sort)

lemma sum_list_absent_key: "j \<notin> k ` set xs \<Longrightarrow> sum_list (map (\<lambda>x. if k x = j then (a::int) else 0) xs) = 0"
  by (induction xs) auto

lemma sum_list_one_key:
  "distinct (map k xs) \<Longrightarrow> j \<in> k ` set xs \<Longrightarrow> sum_list (map (\<lambda>x. if k x = j then (a::int) else 0) xs) = a"
  by (induction xs) (auto simp: sum_list_absent_key)

lemma revoke_ledger_step_effect:
  assumes "revoke_ledger_step env cause (tot, ids, db) (i, a) = Inr (tot', ids', db')" "db_wf env db" "0 < a"
  shows "db_wf env db' \<and> tot' = tot + a \<and> ids' = ids @ [i] \<and>
    db_ledgers db' = map (\<lambda>l. take_back env (if led_id l = i then a else 0) l) (db_ledgers db) \<and>
    (\<exists>r. db' = db\<lparr>db_ledgers := db_ledgers db', db_revocations := db_revocations db @ [r], db_seq := Suc (db_seq db)\<rparr> \<and>
       rev_ledger_id r = i \<and> rev_revoked_amount r = a \<and> rev_revocation_type r = rcause_type cause)"
proof -
  from assms(1) obtain l' db1 where
    u: "update_ledger_in_tx env db i (Revocation a) = Inr (l', db1)"
    by (auto simp: revoke_ledger_step_def and_then_Inr_iff)
  have inv: "ledgers_inv (db_ledgers db)" using assms(2) by (simp add: db_wf_def db_inv_def)
  from update_ledger_effect[OF inv u] obtain l l0 where
    l: "l \<in> set (db_ledgers db)" "led_id l = i" "updated_ledger (Revocation a) l = Inr l0"
      "l' = l0\<lparr>led_updated_at := env_sql_now env\<rparr>" "ledger_origin l' = ledger_origin l"
      "db1 = db\<lparr>db_ledgers := update_where (\<lambda>x. led_id x = led_id l) (\<lambda>_. l') (db_ledgers db)\<rparr>"
    by metis
  have wf1: "db_wf env db1"
    using update_ledger_wf[OF assms(2) u] assms(3) by (simp add: keeps_status_ok_def)
  have id: "led_id l' = i" using l(2,5) by (auto dest: ledger_origin_id)
  have row: "(if led_id x = led_id l then l' else x) = take_back env (if led_id x = i then a else 0) x"
    if "x \<in> set (db_ledgers db)" for x
    using updated_ledger_take_back[OF l(3) assms(3), of env] l(1,2,4) that inv
      distinct_key_unique[of led_id "db_ledgers db" x l] by (auto simp: ledgers_inv_def take_back_def)
  have led: "db_ledgers db1 = map (\<lambda>l. take_back env (if led_id l = i then a else 0) l) (db_ledgers db)"
    unfolding l(6) by (simp add: update_where_def row)
  let ?r = "\<lparr>rev_id = env_uuid env (db_seq db1), rev_ledger_id = i, rev_user_id = rcause_user_id cause,
           rev_realm_id = rcause_realm_id cause, rev_revocation_type = rcause_type cause,
           rev_revoked_amount = a, rev_reason = rcause_reason cause,
           rev_reference_id = rcause_reference_id cause, rev_created_at = env_now env\<rparr>"
  let ?db2 = "db1\<lparr>db_seq := Suc (db_seq db1)\<rparr>"
  from assms(1) u id have r: "create_revocation_record_in_tx ?db2 ?r = Inr db'" "tot' = tot + a" "ids' = ids @ [i]"
    by (auto simp: revoke_ledger_step_def now_v7_def Let_def and_then_Inr_iff)
  have "db_wf env db'"
    by (rule create_revocation_wf[OF db_wf_bump[OF wf1] r(1)])
  with r led l(6) show ?thesis
    by (auto simp: create_revocation_Inr_iff intro!: exI[of _ ?r])
qed

text \<open>The frame of the loop: ledgers, revocation records and the identifier counter only.\<close>

definition revoked_by :: "env \<Rightarrow> revocation_cause \<Rightarrow> (uuid \<times> i64) list \<Rightarrow> points_db \<Rightarrow> points_db \<Rightarrow> bool" where
  "revoked_by env cause ps db db' \<longleftrightarrow>
     db_ledgers db' = map (\<lambda>l. take_back env (amount_for ps (led_id l)) l) (db_ledgers db) \<and>
     (\<exists>rs n. db' = db\<lparr>db_ledgers := db_ledgers db', db_revocations := db_revocations db @ rs, db_seq := n\<rparr> \<and>
        map (\<lambda>r. (rev_ledger_id r, rev_revoked_amount r)) rs = ps \<and> db_seq db \<le> n \<and>
        (\<forall>r \<in> set rs. rev_revocation_type r = rcause_type cause))"

lemma revoked_by_refl: "revoked_by env cause [] db db"
  by (auto simp: revoked_by_def take_back_def intro!: exI[of _ "[]"] exI[of _ "db_seq db"])

lemma revoked_by_frame:
  assumes "revoked_by env cause ps db db'"
  shows "db_refunds db' = db_refunds db" "db_events db' = db_events db" "db_wallets db' = db_wallets db"
    "db_idempotency db' = db_idempotency db" "db_transactions db' = db_transactions db"
proof -
  from assms obtain rs n where
    eq: "db' = db\<lparr>db_ledgers := db_ledgers db', db_revocations := db_revocations db @ rs, db_seq := n\<rparr>"
    unfolding revoked_by_def by blast
  show "db_refunds db' = db_refunds db" "db_events db' = db_events db" "db_wallets db' = db_wallets db"
    "db_idempotency db' = db_idempotency db" "db_transactions db' = db_transactions db"
    by (subst eq, simp)+
qed

lemma revoke_fold_effect:
  assumes "try_fold (revoke_ledger_step env cause) (tot, ids, db) ps = Inr (tot', ids', db')" "db_wf env db"
    and "\<forall>(i, a) \<in> set ps. 0 < a" "distinct (map fst ps)"
  shows "db_wf env db' \<and> tot' = tot + sum_list (map snd ps) \<and> ids' = ids @ map fst ps \<and> revoked_by env cause ps db db'"
  using assms
proof (induction ps arbitrary: tot ids db)
  case Nil
  then show ?case by (simp add: revoked_by_refl)
next
  case (Cons p ps)
  obtain i a where p: "p = (i, a)" by (cases p)
  from Cons.prems(1) obtain tot1 ids1 db1 where
    step: "revoke_ledger_step env cause (tot, ids, db) (i, a) = Inr (tot1, ids1, db1)" and
    rest: "try_fold (revoke_ledger_step env cause) (tot1, ids1, db1) ps = Inr (tot', ids', db')"
    unfolding p by (auto simp: and_then_Inr_iff)
  have a: "0 < a" using Cons.prems(3) p by simp
  from revoke_ledger_step_effect[OF step Cons.prems(2) a] obtain r where
    s: "db_wf env db1" "tot1 = tot + a" "ids1 = ids @ [i]"
      "db_ledgers db1 = map (\<lambda>l. take_back env (if led_id l = i then a else 0) l) (db_ledgers db)"
      "db1 = db\<lparr>db_ledgers := db_ledgers db1, db_revocations := db_revocations db @ [r], db_seq := Suc (db_seq db)\<rparr>"
      "rev_ledger_id r = i" "rev_revoked_amount r = a" "rev_revocation_type r = rcause_type cause"
    by blast
  from Cons.IH[OF rest s(1)] Cons.prems(3,4) p have
    ih: "db_wf env db'" "tot' = tot1 + sum_list (map snd ps)" "ids' = ids1 @ map fst ps" "revoked_by env cause ps db1 db'"
    by auto
  have absent: "amount_for ps i = 0" using Cons.prems(4) p by (simp add: amount_for_absent)
  have "db_ledgers db' = map (\<lambda>l. take_back env (amount_for (p # ps) (led_id l)) l) (db_ledgers db)"
    using ih(4) unfolding revoked_by_def s(4) p by (auto simp: absent) (simp_all add: take_back_def)
  moreover from ih(4) obtain rs n where
    rs: "db' = db1\<lparr>db_ledgers := db_ledgers db', db_revocations := db_revocations db1 @ rs, db_seq := n\<rparr>"
      "map (\<lambda>r. (rev_ledger_id r, rev_revoked_amount r)) rs = ps" "db_seq db1 \<le> n"
      "\<forall>r \<in> set rs. rev_revocation_type r = rcause_type cause"
    by (auto simp: revoked_by_def)
  have db1: "db_revocations db1 = db_revocations db @ [r]" "db_seq db1 = Suc (db_seq db)"
    by (subst s(5), simp)+
  have "db' = db\<lparr>db_ledgers := db_ledgers db', db_revocations := db_revocations db @ (r # rs), db_seq := n\<rparr>"
    by (subst rs(1), subst s(5)) (simp add: db1)
  with rs(2-4) s(6-8) db1 p have "\<exists>rs n.
      db' = db\<lparr>db_ledgers := db_ledgers db', db_revocations := db_revocations db @ rs, db_seq := n\<rparr> \<and>
      map (\<lambda>r. (rev_ledger_id r, rev_revoked_amount r)) rs = p # ps \<and> db_seq db \<le> n \<and>
      (\<forall>r \<in> set rs. rev_revocation_type r = rcause_type cause)"
    by (intro exI[of _ "r # rs"] exI[of _ n]) auto
  ultimately show ?case
    using ih(1-3) s(2,3) p unfolding revoked_by_def by simp
qed

lemma revocation_total:
  assumes "ledgers_inv (db_ledgers db)" "l \<in> set (db_ledgers db)" "0 < a" "a \<le> remaining_amount l"
  shows "\<exists>l' db'. update_ledger_in_tx env db (led_id l) (Revocation a) = Inr (l', db')"
proof -
  have f: "find (\<lambda>x. led_id x = led_id l) (db_ledgers db) = Some l"
    using find_key_in[of led_id "db_ledgers db" l] assms(1,2) by (simp add: ledgers_inv_def)
  have "ledger_check l" using assms(1,2) by (simp add: ledgers_inv_def ledger_ok_def)
  then have "ledger_check (l\<lparr>led_revoked_amount := led_revoked_amount l + a, led_status := s\<rparr>)" for s
    using assms(3,4) by (auto simp: ledger_check_def remaining_amount_def)
  with f assms(4) show ?thesis
    by (auto simp: update_ledger_in_tx_def Let_def ensure_def remaining_amount_def)
qed

text \<open>Rows, each named once, that hold the amounts asked of them.\<close>

definition payable :: "points_db \<Rightarrow> (uuid \<times> i64) list \<Rightarrow> bool" where
  "payable db ps \<longleftrightarrow> distinct (map fst ps) \<and>
     (\<forall>(i, a) \<in> set ps. \<exists>l \<in> set (db_ledgers db). led_id l = i \<and> 0 < a \<and> a \<le> remaining_amount l)"

lemma revoke_fold_total:
  assumes "db_wf env db" "payable db ps"
  shows "\<exists>s'. try_fold (revoke_ledger_step env cause) (tot, ids, db) ps = Inr s'"
  using assms
proof (induction ps arbitrary: tot ids db)
  case Nil
  then show ?case by simp
next
  case (Cons p ps)
  obtain i a where p: "p = (i, a)" by (cases p)
  from Cons.prems(2) p obtain l where l: "l \<in> set (db_ledgers db)" "led_id l = i" "0 < a" "a \<le> remaining_amount l"
    by (auto simp: payable_def)
  have inv: "ledgers_inv (db_ledgers db)" using Cons.prems(1) by (simp add: db_wf_def db_inv_def)
  from revocation_total[OF inv l(1,3,4), of env] l(2,3)
  obtain tot1 ids1 db1 where step: "revoke_ledger_step env cause (tot, ids, db) (i, a) = Inr (tot1, ids1, db1)"
    by (auto simp: revoke_ledger_step_def now_v7_def Let_def create_revocation_record_in_tx_def ensure_def)
  note e = revoke_ledger_step_effect[OF step Cons.prems(1) l(3)]
  have "payable db1 ps"
  proof -
    have "\<exists>x \<in> set (db_ledgers db1). led_id x = j \<and> 0 < b \<and> b \<le> remaining_amount x" if jb: "(j, b) \<in> set ps" for j b
    proof -
      from Cons.prems(2) p jb obtain x where x: "x \<in> set (db_ledgers db)" "led_id x = j" "0 < b" "b \<le> remaining_amount x"
        by (fastforce simp: payable_def)
      have "j \<noteq> i" using Cons.prems(2) p jb by (force simp: payable_def)
      with x have "take_back env (if led_id x = i then a else 0) x \<in> set (db_ledgers db1)" "led_id x \<noteq> i"
        using e by auto
      with x show ?thesis by (intro bexI[of _ x]) (auto simp: take_back_def)
    qed
    then show ?thesis using Cons.prems(2) p by (auto simp: payable_def)
  qed
  with Cons.IH[OF conjunct1[OF e]] step p show ?case by fastforce
qed

lemma revoked_by_sum:
  assumes "revoked_by env cause ps db db'" "db_wf env db" "payable db ps"
  shows "ledger_total db' = ledger_total db - sum_list (map snd ps)"
proof -
  have "sum_list (map (\<lambda>l. amount_for ps (led_id l)) ls) = sum_list (map snd ps)"
    if "distinct (map led_id ls)" "distinct (map fst ps)" "fst ` set ps \<subseteq> led_id ` set ls" for ls
    using that(2,3)
  proof (induction ps)
    case (Cons p ps)
    obtain i a where p: "p = (i, a)" by (cases p)
    from Cons.prems p obtain l where l: "l \<in> set ls" "led_id l = i" by auto
    have "sum_list (map (\<lambda>l. amount_for (p # ps) (led_id l)) ls) =
        sum_list (map (\<lambda>l. amount_for ps (led_id l)) ls) + sum_list (map (\<lambda>l. if led_id l = i then a else 0) ls)"
      unfolding p sum_list_addf[symmetric]
      using Cons.prems(1) p by (intro arg_cong[of _ _ sum_list] map_cong) (auto simp: amount_for_absent)
    also have "sum_list (map (\<lambda>l. if led_id l = i then a else 0) ls) = a"
      using that(1) l by (intro sum_list_one_key) auto
    finally show ?case using Cons p by auto
  qed simp
  moreover have "fst ` set ps \<subseteq> led_id ` set (db_ledgers db)" using assms(3) by (fastforce simp: payable_def)
  moreover have "distinct (map led_id (db_ledgers db))" "distinct (map fst ps)"
    using assms(2,3) by (simp_all add: db_wf_def db_inv_def ledgers_inv_def payable_def)
  ultimately have "sum_list (map (\<lambda>l. amount_for ps (led_id l)) (db_ledgers db)) = sum_list (map snd ps)" by blast
  with assms(1) show ?thesis
    by (simp add: revoked_by_def ledger_total_def comp_def sum_list_subtractf)
qed

section \<open>Revocation by credit type\<close>

lemma record_key_opt_frame:
  "\<exists>n ks. record_key_opt env db r key = db\<lparr>db_seq := n, db_idempotency := ks\<rparr>"
proof (cases key)
  case None
  then show ?thesis
    by (intro exI[of _ "db_seq db"] exI[of _ "db_idempotency db"]) (simp add: record_key_opt_def)
next
  case (Some k)
  let ?db = "db\<lparr>db_seq := Suc (db_seq db)\<rparr>"
  have "record_key_opt env db r key = record_completed_idempotency_in_tx env ?db r k (env_uuid env (db_seq db))"
    using Some by (simp add: record_key_opt_def now_v7_def)
  then show ?thesis
    using record_idempotency_frame[of env ?db r k "env_uuid env (db_seq db)"] by auto
qed

lemma record_key_opt_wf: "db_wf env db \<Longrightarrow> db_wf env (record_key_opt env db r key)"
  by (auto simp: record_key_opt_def now_v7_def split: option.splits intro!: record_idempotency_wf db_wf_bump)

lemma output_of_frame:
  "output_of env ids tot db = (out, db') \<Longrightarrow>
     db' = db\<lparr>db_seq := Suc (db_seq db)\<rparr> \<and> rpo_total_revoked out = tot \<and> rpo_ledger_ids out = ids"
  by (auto simp: output_of_def now_v7_def)

text \<open>Revoking the whole of some rows: each listed row ends revoked with nothing left.\<close>

definition in_full :: "points_credit_ledger list \<Rightarrow> (uuid \<times> i64) list" where
  "in_full ls = map (\<lambda>l. (led_id l, remaining_amount l)) (filter (\<lambda>l. 0 < remaining_amount l) ls)"

lemma payable_in_full:
  assumes "distinct (map led_id ls)" "set ls \<subseteq> set (db_ledgers db)"
  shows "payable db (in_full ls)"
  using assms by (auto simp: payable_def in_full_def comp_def distinct_map inj_on_def)

lemma sum_in_full: "\<forall>l \<in> set ls. 0 \<le> remaining_amount l \<Longrightarrow>
    sum_list (map snd (in_full ls)) = sum_list (map remaining_amount ls)"
  by (induction ls) (auto simp: in_full_def)

lemma amount_for_in_full:
  assumes "distinct (map led_id ls)" "l \<in> set ls" "0 < remaining_amount l"
  shows "amount_for (in_full ls) (led_id l) = remaining_amount l"
proof -
  have "map_of (in_full ls) (led_id l) = Some (remaining_amount l)"
    using assms by (intro map_of_is_SomeI) (auto simp: in_full_def comp_def distinct_map inj_on_def)
  then show ?thesis by (simp add: amount_for_def)
qed

lemma amount_for_not_listed: "led_id l \<notin> led_id ` set ls \<Longrightarrow> amount_for (in_full ls) (led_id l) = 0"
  by (rule amount_for_absent) (auto simp: in_full_def)

lemma revoke_in_full:
  assumes "db_wf env db" "distinct (map led_id ls)" "set ls \<subseteq> set (db_ledgers db)"
  obtains db' where
    "revoke_ledger_list_in_tx env db cause (in_full ls) =
       Inr (sum_list (map remaining_amount ls), map fst (in_full ls), db')"
    "db_wf env db'" "revoked_by env cause (in_full ls) db db'"
    "ledger_total db' = ledger_total db - sum_list (map remaining_amount ls)"
proof -
  have pay: "payable db (in_full ls)" by (rule payable_in_full[OF assms(2,3)])
  from revoke_fold_total[OF assms(1) pay, of cause 0 "[]"] obtain tot ids db' where
    run: "try_fold (revoke_ledger_step env cause) (0, [], db) (in_full ls) = Inr (tot, ids, db')"
    by (metis prod_cases3)
  have "\<forall>(i, a) \<in> set (in_full ls). 0 < a" "distinct (map fst (in_full ls))"
    using pay by (auto simp: payable_def)
  note e = revoke_fold_effect[OF run assms(1) this]
  have sum: "sum_list (map snd (in_full ls)) = sum_list (map remaining_amount ls)"
    using assms(1,3) by (intro sum_in_full) (auto simp: db_wf_def dest: db_inv_remaining_nonneg)
  from e have rb: "revoked_by env cause (in_full ls) db db'" by blast
  show ?thesis
    using that[of db'] run e sum revoked_by_sum[OF rb assms(1) pay]
    by (simp add: revoke_ledger_list_in_tx_def)
qed

text \<open>What is left after rows were revoked in full: the others as they were, and empty rows.\<close>

lemma revoked_in_full_rows:
  assumes "db_wf env db" "revoked_by env cause (in_full ls) db db'" "distinct (map led_id ls)"
    and "set ls \<subseteq> set (db_ledgers db)" "\<And>l. l \<in> set ls \<Longrightarrow> 0 < remaining_amount l"
  shows "set (db_ledgers db') \<subseteq> (set (db_ledgers db) - set ls) \<union> {x. remaining_amount x = 0}"
    and "set (db_ledgers db) - set ls \<subseteq> set (db_ledgers db')"
    and "\<exists>rs. db_revocations db' = db_revocations db @ rs \<and>
           sum_list (map rev_revoked_amount rs) = sum_list (map remaining_amount ls)"
proof -
  have dist: "distinct (map led_id (db_ledgers db))"
    using assms(1) by (simp add: db_wf_def db_inv_def ledgers_inv_def)
  have led: "db_ledgers db' = map (\<lambda>l. take_back env (amount_for (in_full ls) (led_id l)) l) (db_ledgers db)"
    using assms(2) by (simp add: revoked_by_def)
  have out: "take_back env (amount_for (in_full ls) (led_id l)) l = l" if "l \<in> set (db_ledgers db) - set ls" for l
  proof -
    have "led_id l \<notin> led_id ` set ls"
      using that assms(4) distinct_key_unique[OF dist, of l] by blast
    then show ?thesis by (simp add: amount_for_not_listed take_back_def)
  qed
  have "remaining_amount (take_back env (amount_for (in_full ls) (led_id l)) l) = 0" if "l \<in> set ls" for l
    using amount_for_in_full[OF assms(3) that assms(5)[OF that]] by simp
  then have "take_back env (amount_for (in_full ls) (led_id l)) l \<in>
      (set (db_ledgers db) - set ls) \<union> {x. remaining_amount x = 0}" if "l \<in> set (db_ledgers db)" for l
    using that out[of l] by (cases "l \<in> set ls") (blast, simp)
  then show "set (db_ledgers db') \<subseteq> (set (db_ledgers db) - set ls) \<union> {x. remaining_amount x = 0}"
    unfolding led set_map by blast
  from out show "set (db_ledgers db) - set ls \<subseteq> set (db_ledgers db')"
    unfolding led set_map by force
  from assms(2) obtain rs n where rs: "db' = db\<lparr>db_ledgers := db_ledgers db', db_revocations := db_revocations db @ rs, db_seq := n\<rparr>"
      "map (\<lambda>r. (rev_ledger_id r, rev_revoked_amount r)) rs = in_full ls"
    unfolding revoked_by_def by blast
  have "db_revocations db' = db_revocations db @ rs" by (subst rs(1)) simp
  moreover have "map rev_revoked_amount rs = map snd (in_full ls)" using arg_cong[OF rs(2), of "map snd"] by (simp add: comp_def)
  ultimately show "\<exists>rs. db_revocations db' = db_revocations db @ rs \<and>
           sum_list (map rev_revoked_amount rs) = sum_list (map remaining_amount ls)"
    using sum_in_full[of ls] assms(5) by (auto intro!: exI[of _ rs] simp: less_imp_le)
qed

lemma active_rows:
  fixes env db r u b ct
  assumes "db_wf env db"
  defines "rows \<equiv> find_active_ledgers_by_credit_type_and_bucket db r u b ct"
  shows "set rows \<subseteq> set (db_ledgers db)" "distinct (map led_id rows)" "\<And>l. l \<in> set rows \<Longrightarrow> 0 < remaining_amount l"
  using assms(1)
  by (auto simp: rows_def find_active_ledgers_by_credit_type_and_bucket_def distinct_map inj_on_def db_wf_def
      db_inv_def ledgers_inv_def)

text \<open>
  C11: revoking a credit type empties it.  On well-formed tables, with the wallet present and
  no completed key, \<open>revoke_points_by_credit_type_atomic\<close> succeeds, reports and takes out of
  the ledgers exactly what the user's active rows of that type and bucket still held, leaves
  none of them active, changes no other row, and appends revocation records for that amount.
\<close>

theorem revoke_by_credit_type_empties:
  fixes env db b ct cause key w
  assumes "db_wf env db"
    and "Option.bind key (check_completed_idempotency_in_tx env db (rcause_realm_id cause)) = None"
    and "find_wallet_by_user_bucket db (rcause_realm_id cause) (rcause_user_id cause) b = Some w"
  defines "rows \<equiv> \<lambda>d. find_active_ledgers_by_credit_type_and_bucket d (rcause_realm_id cause) (rcause_user_id cause) b ct"
  shows "\<exists>out db'. revoke_points_by_credit_type_atomic env b ct cause key db = Inr (out, db') \<and> db_wf env db' \<and>
    rpo_total_revoked out = sum_list (map remaining_amount (rows db)) \<and>
    ledger_total db' = ledger_total db - rpo_total_revoked out \<and> rows db' = [] \<and>
    (\<forall>l \<in> set (db_ledgers db). l \<notin> set (rows db) \<longrightarrow> l \<in> set (db_ledgers db')) \<and>
    (\<exists>rs. db_revocations db' = db_revocations db @ rs \<and>
       sum_list (map rev_revoked_amount rs) = rpo_total_revoked out)"
proof -
  have a: "set (rows db) \<subseteq> set (db_ledgers db)" "distinct (map led_id (rows db))"
      "\<And>l. l \<in> set (rows db) \<Longrightarrow> 0 < remaining_amount l"
    unfolding rows_def using active_rows[OF assms(1)] by blast+
  obtain db1 where r: "revoke_ledger_list_in_tx env db cause (in_full (rows db)) =
       Inr (sum_list (map remaining_amount (rows db)), map fst (in_full (rows db)), db1)"
    "db_wf env db1" "revoked_by env cause (in_full (rows db)) db db1"
    "ledger_total db1 = ledger_total db - sum_list (map remaining_amount (rows db))"
    by (rule revoke_in_full[OF assms(1) a(2,1)])
  let ?db2 = "record_key_opt env db1 (rcause_realm_id cause) key"
  obtain out db' where o: "output_of env (map fst (in_full (rows db))) (sum_list (map remaining_amount (rows db))) ?db2 = (out, db')"
    by (metis surj_pair)
  have run: "revoke_points_by_credit_type_atomic env b ct cause key db = Inr (out, db')"
    using assms(2,3) r(1) o
    by (simp add: revoke_points_by_credit_type_atomic_def rows_def in_full_def Let_def)
  obtain n ks where k: "?db2 = db1\<lparr>db_seq := n, db_idempotency := ks\<rparr>" using record_key_opt_frame by blast
  note f = output_of_frame[OF o]
  have led: "db_ledgers db' = db_ledgers db1" and rev: "db_revocations db' = db_revocations db1"
    using f k by auto
  note rest = revoked_in_full_rows[OF assms(1) r(3) a(2,1,3), folded led rev]
  have "rows db' = []"
    using rest(1) unfolding rows_def find_active_ledgers_by_credit_type_and_bucket_def
    by (auto simp: filter_empty_conv sort_key_empty)
  moreover have "ledger_total db' = ledger_total db1" using led by (simp add: ledger_total_def)
  moreover have "db_wf env db'" using record_key_opt_wf[OF r(2)] f by (auto intro: db_wf_bump)
  ultimately show ?thesis
    using run f r(4) rest(2,3) by (intro exI[of _ out] exI[of _ db']) auto
qed

definition demo_cause :: revocation_cause where
  "demo_cause = \<lparr>rcause_realm_id = ''r'', rcause_user_id = 1, rcause_type = RevCancel,
     rcause_reason = ''plan cancelled'', rcause_reference_id = None\<rparr>"

theorem revoke_by_credit_type_empties_witness:
  "\<exists>out db'. revoke_points_by_credit_type_atomic demo_env 10 TopupCredit demo_cause None demo_db = Inr (out, db') \<and>
     rpo_total_revoked out = 19 \<and> ledger_total db' = 6"
proof -
  have "find_wallet_by_user_bucket demo_db (rcause_realm_id demo_cause) (rcause_user_id demo_cause) 10 = Some demo_wallet"
    by (simp add: find_wallet_by_user_bucket_def demo_defs demo_cause_def)
  moreover have "sum_list (map remaining_amount (find_active_ledgers_by_credit_type_and_bucket demo_db
      (rcause_realm_id demo_cause) (rcause_user_id demo_cause) 10 TopupCredit)) = 19" "ledger_total demo_db = 25"
    by code_simp+
  ultimately show ?thesis
    using revoke_by_credit_type_empties[OF demo_wf, of None demo_cause 10 demo_wallet TopupCredit] by auto
qed

section \<open>Proportional refunds\<close>

lemma sdiv_nonneg: "0 \<le> (a::int) \<Longrightarrow> 0 < b \<Longrightarrow> a sdiv b = a div b"
  by (simp add: signed_divide_int_def sgn_if)

text \<open>
  C12: the refund share is fair and bounded.  For a refund between zero and the original
  payment and a row whose remaining amount is within its 64-bit grant, the share revoked is the
  grant times the refunded fraction, rounded to the nearest point, capped at what the row still
  holds; it is never negative, and a full refund takes all of it.
\<close>

theorem proportional_refund_is_fair:
  assumes "0 < original" "0 \<le> refund" "refund \<le> original" "0 \<le> rem" "rem \<le> granted" "granted \<le> i64_max"
  shows "\<exists>q. proportional_refund_for_grant granted rem refund original = Some (min q rem) \<and>
    2 * \<bar>q * original - granted * refund\<bar> \<le> original \<and> 0 \<le> min q rem \<and>
    (refund = original \<longrightarrow> min q rem = rem)"
proof -
  define q where "q = (granted * refund + original div 2) div original"
  have num: "0 \<le> granted * refund" using assms by simp
  have "granted * refund \<le> granted * original" using assms by (intro mult_left_mono) auto
  then have "granted * refund + original div 2 < (granted + 1) * original"
    using assms(1) by (simp add: algebra_simps)
  moreover have dm: "q * original + (granted * refund + original div 2) mod original = granted * refund + original div 2"
    unfolding q_def by (simp add: mult.commute)
  moreover have mod: "0 \<le> (granted * refund + original div 2) mod original"
      "(granted * refund + original div 2) mod original < original"
    using assms(1) by simp_all
  ultimately have "q * original < (granted + 1) * original" by linarith
  then have "q \<le> granted" using assms(1) by (simp add: mult_less_cancel_right)
  have "0 \<le> q" unfolding q_def using num assms(1) by (intro pos_imp_zdiv_nonneg_iff[THEN iffD2]) auto
  then have fits: "in_i64 q" using \<open>q \<le> granted\<close> assms(6) by (simp add: i64_bounds)
  have round: "(granted * refund + original sdiv 2) sdiv original = q"
    unfolding q_def using num assms(1) by (simp add: sdiv_nonneg)
  have "original \<le> 2 * (original div 2) + 1" "2 * (original div 2) \<le> original" by presburger+
  with mod dm have near: "2 * \<bar>q * original - granted * refund\<bar> \<le> original"
    by (cases "0 \<le> q * original - granted * refund") (simp_all add: abs_if)
  have full: "refund = original \<Longrightarrow> rem \<le> q"
    unfolding q_def using assms by (simp add: div_mult_self3)
  have "proportional_refund_for_grant granted rem refund original = Some (min q rem)"
    using assms(1) fits round by (simp add: proportional_refund_for_grant_def)
  with near full \<open>0 \<le> q\<close> assms(4) show ?thesis by (intro exI[of _ q]) auto
qed

theorem proportional_refund_is_fair_witness:
  "\<exists>q. proportional_refund_for_grant 100 70 1 3 = Some (min q 70) \<and> 2 * \<bar>q * 3 - 100 * 1\<bar> \<le> (3::int)"
  using proportional_refund_is_fair[of 3 1 70 100] by (auto simp: i64_max_def)

text \<open>The refund loop is the revocation loop over the positive shares.\<close>

definition refund_shares :: "(points_credit_ledger \<Rightarrow> i64) \<Rightarrow> i64 \<Rightarrow> i64 \<Rightarrow> points_credit_ledger list \<Rightarrow> (uuid \<times> i64) list" where
  "refund_shares basis refund original ls = filter (\<lambda>p. 0 < snd p)
     (map (\<lambda>l. (led_id l, the (proportional_refund_for_grant (basis l) (remaining_amount l) refund original))) ls)"

lemma refund_fold:
  assumes "original \<noteq> 0"
  shows "try_fold (refund_step env cause basis refund original) s ls =
    try_fold (revoke_ledger_step env cause) s (refund_shares basis refund original ls)"
proof (induction ls arbitrary: s)
  case Nil
  then show ?case by (simp add: refund_shares_def)
next
  case (Cons l ls)
  obtain a where a: "proportional_refund_for_grant (basis l) (remaining_amount l) refund original = Some a"
    using assms by (simp add: proportional_refund_for_grant_def Let_def)
  show ?case
    using Cons by (cases "0 < a") (simp_all add: refund_step_def a refund_shares_def cong: and_then_cong)
qed

lemma refund_share_le: "proportional_refund_for_grant g rem refund original = Some a \<Longrightarrow> a \<le> rem"
  by (auto simp: proportional_refund_for_grant_def Let_def split: if_splits)

lemma payable_refund_shares:
  assumes "distinct (map led_id ls)" "set ls \<subseteq> set (db_ledgers db)" "original \<noteq> 0"
  shows "payable db (refund_shares basis refund original ls)"
proof -
  have sub: "distinct (map fst (filter P (map (\<lambda>l. (led_id l, f l)) ls)))" for P f
    using assms(1) by (induction ls) auto
  have "the (proportional_refund_for_grant (basis l) (remaining_amount l) refund original) \<le> remaining_amount l" for l
    using assms(3) by (simp add: proportional_refund_for_grant_def Let_def)
  with sub assms(2) show ?thesis by (auto simp: payable_def refund_shares_def)
qed

text \<open>A full refund asks every row for the whole of what it holds.\<close>

lemma refund_shares_full:
  assumes "0 < original" "\<forall>l \<in> set ls. 0 \<le> remaining_amount l \<and> remaining_amount l \<le> led_granted_amount l \<and>
      led_granted_amount l \<le> i64_max"
  shows "refund_shares led_granted_amount original original ls = in_full ls"
proof -
  have "the (proportional_refund_for_grant (led_granted_amount l) (remaining_amount l) original original) = remaining_amount l"
    if "l \<in> set ls" for l
  proof -
    define q where "q = (led_granted_amount l * original + original div 2) div original"
    have l: "0 \<le> remaining_amount l" "remaining_amount l \<le> led_granted_amount l" "led_granted_amount l \<le> i64_max"
      using assms(2) that by auto
    have q: "q = led_granted_amount l"
      unfolding q_def using assms(1) by (simp add: div_mult_self3)
    have "(led_granted_amount l * original + original sdiv 2) sdiv original = q"
      unfolding q_def using l assms(1) by (simp add: sdiv_nonneg)
    with l q assms(1) show ?thesis by (simp add: proportional_refund_for_grant_def i64_bounds)
  qed
  then have "map (\<lambda>l. (led_id l, the (proportional_refund_for_grant (led_granted_amount l) (remaining_amount l) original original))) ls =
      map (\<lambda>l. (led_id l, remaining_amount l)) ls" by simp
  then have "refund_shares led_granted_amount original original ls =
      filter (\<lambda>p. 0 < snd p) (map (\<lambda>l. (led_id l, remaining_amount l)) ls)"
    unfolding refund_shares_def by (simp only:)
  then show ?thesis by (simp add: in_full_def filter_map comp_def)
qed

definition refund_row_ok :: "points_db \<Rightarrow> topup_refund_request \<Rightarrow> bool" where
  "refund_row_ok db req \<longleftrightarrow> trr_payment_provider req \<in> {''stripe'', ''creem''} \<and> 0 < trr_refund_amount req \<and>
     0 < trr_original_payment_amount req \<and> 0 < cumulative_refunded db req"

definition fully_refunded_by :: "points_db \<Rightarrow> topup_refund_request \<Rightarrow> bool" where
  "fully_refunded_by db req \<longleftrightarrow> trr_original_payment_amount req \<le> cumulative_refunded db req"

definition effective_refund :: "points_db \<Rightarrow> topup_refund_request \<Rightarrow> i64" where
  "effective_refund db req =
     (if fully_refunded_by db req then trr_original_payment_amount req else trr_refund_amount req)"

lemma refundable_rows:
  fixes env req db
  assumes "db_wf env' db"
  defines "rows \<equiv> refundable_ledgers env req db"
  shows "set rows \<subseteq> set (db_ledgers db)" "distinct (map led_id rows)" "\<And>l. l \<in> set rows \<Longrightarrow> 0 < remaining_amount l"
  using assms(1)
  by (auto simp: rows_def refundable_ledgers_def distinct_map inj_on_def db_wf_def db_inv_def ledgers_inv_def)

lemma refundable_cong:
  "db_ledgers db' = db_ledgers db \<Longrightarrow> db_events db' = db_events db \<Longrightarrow>
     refundable_ledgers env req db' = refundable_ledgers env req db"
  by (simp add: refundable_ledgers_def)

text \<open>A first delivery: the refund row is stored, then every refundable row gives its share.\<close>

lemma topup_refund_run:
  fixes env req db
  assumes "db_wf env db" "refund_row_ok db req" "\<not> (\<exists>r \<in> set (db_refunds db). same_refund req r)"
  defines "shares \<equiv> refund_shares led_granted_amount (effective_refund db req) (trr_original_payment_amount req)
             (refundable_ledgers env req db)"
  obtains out db1 db2 db' cause where
    "revoke_topup_refund_atomic env req db = Inr (out, db')" "db_wf env db1" "db_wf env db2"
    "db_ledgers db1 = db_ledgers db" "db_events db1 = db_events db" "db_revocations db1 = db_revocations db"
    "revoked_by env cause shares db1 db2" "db' = db2\<lparr>db_seq := Suc (db_seq db2)\<rparr>"
    "\<not> tro_duplicate out" "tro_fully_refunded out = fully_refunded_by db req"
    "rpo_total_revoked (tro_revoked out) = sum_list (map snd shares)" "payable db shares"
    "\<exists>r. find (same_refund req) (db_refunds db') = Some r \<and>
       (rfd_original_payment_amount r \<le> rfd_cumulative_refunded_after r) = fully_refunded_by db req"
proof -
  define row where "row = \<lparr>rfd_id = env_uuid env (db_seq db), rfd_realm_id = trr_realm_id req,
     rfd_payment_provider = trr_payment_provider req, rfd_payment_attempt_id = trr_payment_attempt_id req,
     rfd_refund_id = trr_refund_id req, rfd_amount = trr_refund_amount req,
     rfd_original_payment_amount = trr_original_payment_amount req,
     rfd_cumulative_refunded_after = cumulative_refunded db req\<rparr>"
  define db1 where "db1 = db\<lparr>db_seq := Suc (db_seq db), db_refunds := db_refunds db @ [row]\<rparr>"
  have ins: "insert_refund env db req = Inr (Some (cumulative_refunded db req), db1)"
      "db_ledgers db1 = db_ledgers db" "db_events db1 = db_events db" "db_revocations db1 = db_revocations db"
    using assms(2,3) by (simp_all add: insert_refund_def refund_row_ok_def ensure_def now_v7_def Let_def row_def db1_def)
  have ins5: "db_wf env db1"
    using db_wf_bump[OF assms(1)] by (simp add: db1_def db_wf_def db_inv_def ids_fresh_def)
  have "find (same_refund req) (db_refunds db) = None" using assms(3) by (auto simp: find_None_iff)
  then have stored: "find (same_refund req) (db_refunds db1) = Some row"
      "(rfd_original_payment_amount row \<le> rfd_cumulative_refunded_after row) = fully_refunded_by db req"
    by (simp_all add: db1_def row_def same_refund_def find_append fully_refunded_by_def)
  let ?cause = "refund_cause (trr_realm_id req) (trr_user_id req) (effective_refund db req)
     (trr_original_payment_amount req) (trr_refund_id req)"
  have rows: "refundable_ledgers env req db1 = refundable_ledgers env req db"
    by (rule refundable_cong) (simp_all add: ins)
  have op: "trr_original_payment_amount req \<noteq> 0" using assms(2) by (simp add: refund_row_ok_def)
  have pay: "payable db shares"
    unfolding shares_def by (rule payable_refund_shares[OF refundable_rows(2,1)[OF assms(1)] op])
  then have pay1: "payable db1 shares" using ins(2) by (simp add: payable_def)
  from revoke_fold_total[OF ins5 pay1, of ?cause 0 "[]"] obtain tot ids db2 where
    run: "try_fold (revoke_ledger_step env ?cause) (0, [], db1) shares = Inr (tot, ids, db2)"
    by (metis prod_cases3)
  have "\<forall>(i, a) \<in> set shares. 0 < a" "distinct (map fst shares)"
    using pay by (auto simp: payable_def)
  note e = revoke_fold_effect[OF run ins5 this]
  have loop: "try_fold (refund_step env ?cause led_granted_amount (effective_refund db req)
      (trr_original_payment_amount req)) (0, [], db1) (refundable_ledgers env req db1) = Inr (tot, ids, db2)"
    using run unfolding rows refund_fold[OF op] shares_def .
  obtain out db' where o: "output_of env ids tot db2 = (out, db')" by (metis surj_pair)
  have "revoke_topup_refund_atomic env req db =
      Inr (\<lparr>tro_duplicate = False, tro_fully_refunded = fully_refunded_by db req, tro_revoked = out\<rparr>, db')"
    unfolding revoke_topup_refund_atomic_def ins(1) Let_def fully_refunded_by_def[symmetric] effective_refund_def[symmetric]
    by (simp add: effective_refund_def[symmetric] fully_refunded_by_def[symmetric] loop o)
  moreover have "db_refunds db2 = db_refunds db1" using e revoked_by_frame(1) by blast
  ultimately show ?thesis
    using that[of _ db' db1 db2 ?cause] ins ins5 stored e pay output_of_frame[OF o] by simp
qed

text \<open>
  C13: a refund takes back the paid share, and a full refund everything.  The first delivery of
  an admissible refund succeeds: every active top-up row the payment funded loses exactly its
  proportional share, no other row changes; once the cumulative refunds reach the payment the
  outcome says so and no active top-up row of that payment is left.
\<close>

theorem topup_refund_revokes_shares:
  assumes "db_wf env db" "refund_row_ok db req" "\<not> (\<exists>r \<in> set (db_refunds db). same_refund req r)"
    and "\<forall>l \<in> set (db_ledgers db). led_granted_amount l \<le> i64_max"
  shows "\<exists>out db'. revoke_topup_refund_atomic env req db = Inr (out, db') \<and> db_wf env db' \<and> \<not> tro_duplicate out \<and>
    tro_fully_refunded out = fully_refunded_by db req \<and>
    db_ledgers db' = map (\<lambda>l. take_back env (amount_for (refund_shares led_granted_amount (effective_refund db req)
        (trr_original_payment_amount req) (refundable_ledgers env req db)) (led_id l)) l) (db_ledgers db) \<and>
    ledger_total db' = ledger_total db - rpo_total_revoked (tro_revoked out) \<and>
    (fully_refunded_by db req \<longrightarrow> refundable_ledgers env req db' = [])"
proof -
  let ?rows = "refundable_ledgers env req db"
  let ?shares = "refund_shares led_granted_amount (effective_refund db req) (trr_original_payment_amount req) ?rows"
  obtain out db1 db2 db' cause where
    run: "revoke_topup_refund_atomic env req db = Inr (out, db')" and wf: "db_wf env db1" "db_wf env db2" and
    d1: "db_ledgers db1 = db_ledgers db" "db_events db1 = db_events db" and
    rb: "revoked_by env cause ?shares db1 db2" and d': "db' = db2\<lparr>db_seq := Suc (db_seq db2)\<rparr>" and
    out: "\<not> tro_duplicate out" "tro_fully_refunded out = fully_refunded_by db req"
      "rpo_total_revoked (tro_revoked out) = sum_list (map snd ?shares)" "payable db ?shares"
    by (rule topup_refund_run[OF assms(1-3)])
  have "payable db1 ?shares" using out(4) d1 by (simp add: payable_def)
  from revoked_by_sum[OF rb wf(1) this] have sum: "ledger_total db' = ledger_total db - sum_list (map snd ?shares)"
    using d1 d' by (simp add: ledger_total_def)
  have "refundable_ledgers env req db' = []" if full: "fully_refunded_by db req"
  proof -
    have ok: "0 \<le> remaining_amount l \<and> remaining_amount l \<le> led_granted_amount l" if "l \<in> set (db_ledgers db)" for l
      using that assms(1) by (auto simp: db_wf_def db_inv_def ledgers_inv_def ledger_ok_def ledger_check_def remaining_amount_def)
    have "?shares = in_full ?rows"
      using full assms(2,4) ok refundable_rows(1)[OF assms(1), of env req]
      by (auto simp: effective_refund_def refund_row_ok_def intro!: refund_shares_full)
    with rb have "revoked_by env cause (in_full ?rows) db1 db2" by simp
    from revoked_in_full_rows(1)[OF wf(1) this refundable_rows(2)[OF assms(1)]] refundable_rows(1)[OF assms(1), of env req]
      refundable_rows(3)[OF assms(1)] d1
    have "set (db_ledgers db2) \<subseteq> (set (db_ledgers db) - set ?rows) \<union> {x. remaining_amount x = 0}" by simp
    moreover have "db_events db' = db_events db"
      using revoked_by_frame(2)[OF rb] d1 d' by simp
    ultimately show ?thesis
      using d' by (auto simp: refundable_ledgers_def filter_empty_conv sort_key_empty)
  qed
  with run out sum rb d' d1 db_wf_bump[OF wf(2)] show ?thesis
    by (intro exI[of _ out] exI[of _ db']) (auto simp: revoked_by_def)
qed

definition demo_refund_db :: points_db where
  "demo_refund_db = demo_db\<lparr>
     db_events := [\<lparr>evt_id = 500, evt_realm_id = ''r'', evt_user_id = 1, evt_trigger = ''topup'',
       evt_event_key = ''payment:77'', evt_source_id = ''77'', evt_owner_type = ''entitlement_mapping'',
       evt_mapping_id = Some 900, evt_status = ''completed'', evt_result_count = Some 2,
       evt_completed_at = Some (secs 1)\<rparr>],
     db_ledgers := db_ledgers demo_db @ [(demo_ledger 203 10 TopupCredit SrcTopup 9 2 None)
       \<lparr>led_distribution_event_id := Some 500, led_distribution_rule_id := Some 600\<rparr>]\<rparr>"

definition demo_refund :: "i64 \<Rightarrow> topup_refund_request" where
  "demo_refund amount = \<lparr>trr_realm_id = ''r'', trr_user_id = 1, trr_payment_attempt_id = 77,
     trr_payment_provider = ''creem'', trr_refund_id = ''rf_1'', trr_refund_amount = amount,
     trr_original_payment_amount = 300, trr_provider_cumulative_refunded = None\<rparr>"

lemma demo_refund_wf: "db_wf demo_env demo_refund_db"
  by (simp add: demo_refund_db_def demo_defs db_wf_def db_inv_def ids_fresh_def ledgers_inv_def wallets_inv_def
      ledger_ok_def ledger_check_def status_ok_def wallet_check_def remaining_amount_def inj_def)

lemma demo_refund_ready:
  "refund_row_ok demo_refund_db (demo_refund 300)" "\<not> (\<exists>r \<in> set (db_refunds demo_refund_db). same_refund (demo_refund 300) r)"
  "\<forall>l \<in> set (db_ledgers demo_refund_db). led_granted_amount l \<le> i64_max" "fully_refunded_by demo_refund_db (demo_refund 300)"
  by code_simp+

theorem topup_refund_revokes_shares_witness:
  "\<exists>out db'. revoke_topup_refund_atomic demo_env (demo_refund 300) demo_refund_db = Inr (out, db') \<and>
     tro_fully_refunded out \<and> refundable_ledgers demo_env (demo_refund 300) db' = []"
  using topup_refund_revokes_shares[OF demo_refund_wf demo_refund_ready(1-3)] demo_refund_ready(4) by blast

text \<open>
  C14: a refund is processed once.  A second delivery of a recorded refund, with whatever
  amounts, changes nothing but the identifier counter, revokes zero points, is reported as a
  duplicate and repeats the full-refund verdict of the first.
\<close>

theorem topup_refund_duplicate_is_noop:
  assumes "db_wf env db" "refund_row_ok db req" "\<not> (\<exists>r \<in> set (db_refunds db). same_refund req r)"
    and "revoke_topup_refund_atomic env req db = Inr (out, db')"
    and "same_refund req = same_refund req'" "refund_row_ok db' req'"
  shows "\<exists>out'. revoke_topup_refund_atomic env' req' db' =
      Inr (out', db'\<lparr>db_seq := Suc (Suc (db_seq db'))\<rparr>) \<and> tro_duplicate out' \<and>
    tro_fully_refunded out' = tro_fully_refunded out \<and> rpo_total_revoked (tro_revoked out') = 0"
proof -
  obtain r where r: "find (same_refund req) (db_refunds db') = Some r"
      "(rfd_original_payment_amount r \<le> rfd_cumulative_refunded_after r) = tro_fully_refunded out"
    by (rule topup_refund_run[OF assms(1-3)]) (use assms(4) in auto)
  have "insert_refund env' db' req' = Inr (None, db'\<lparr>db_seq := Suc (db_seq db')\<rparr>)"
    using assms(5,6) find_SomeD[OF r(1)]
    by (auto simp: insert_refund_def refund_row_ok_def ensure_def now_v7_def Let_def)
  with r assms(5) show ?thesis
    by (simp add: revoke_topup_refund_atomic_def empty_output_def now_v7_def)
qed

theorem topup_refund_duplicate_is_noop_witness:
  "\<exists>out db' out'. revoke_topup_refund_atomic demo_env (demo_refund 300) demo_refund_db = Inr (out, db') \<and>
     revoke_topup_refund_atomic demo_env (demo_refund 120) db' = Inr (out', db'\<lparr>db_seq := Suc (Suc (db_seq db'))\<rparr>) \<and>
     tro_duplicate out' \<and> tro_fully_refunded out'"
proof -
  obtain out db1 db2 db' cause where run: "revoke_topup_refund_atomic demo_env (demo_refund 300) demo_refund_db = Inr (out, db')"
    and full: "tro_fully_refunded out = fully_refunded_by demo_refund_db (demo_refund 300)"
    by (rule topup_refund_run[OF demo_refund_wf demo_refund_ready(1,2)])
  have same: "same_refund (demo_refund 300) = same_refund (demo_refund 120)"
    by (simp add: same_refund_def demo_refund_def fun_eq_iff)
  have "case revoke_topup_refund_atomic demo_env (demo_refund 300) demo_refund_db of
      Inl _ \<Rightarrow> False | Inr (_, db') \<Rightarrow> refund_row_ok db' (demo_refund 120)"
    by code_simp
  then have "refund_row_ok db' (demo_refund 120)" by (simp add: run)
  from topup_refund_duplicate_is_noop[OF demo_refund_wf demo_refund_ready(1,2) run same this, of demo_env]
    run full demo_refund_ready(4) show ?thesis by auto
qed

end
