(* ===== verification/PointsExpiry.thy ===== *)
theory PointsExpiry
  imports PointsRevokeProps
begin

text \<open>
  The expiry scan \<open>scan_and_expire_points_atomic\<close>: it marks due rows expired and records
  them, changes no balance anyone can see, and drains the due rows batch by batch.
\<close>

definition due :: "instant \<Rightarrow> points_credit_ledger \<Rightarrow> bool" where
  "due now l \<longleftrightarrow> (case led_expires_at l of None \<Rightarrow> False | Some e \<Rightarrow> e \<le> now) \<and>
     led_status l = LedgerActive \<and> 0 < remaining_amount l"

definition mark_expired :: "env \<Rightarrow> points_credit_ledger \<Rightarrow> points_credit_ledger" where
  "mark_expired env l = l\<lparr>led_status := LedgerExpired, led_updated_at := env_sql_now env\<rparr>"

definition has_wallet :: "points_db \<Rightarrow> points_credit_ledger \<Rightarrow> bool" where
  "has_wallet db l \<longleftrightarrow> find_wallet_by_user_bucket db (led_realm_id l) (led_user_id l) (led_bucket_id l) \<noteq> None"

lemma find_expired_ledgers_due:
  "find_expired_ledgers db now n = take n (sort_key (\<lambda>l. the (led_expires_at l)) (filter (due now) (db_ledgers db)))"
  by (simp add: find_expired_ledgers_def due_def[abs_def])

lemma mark_expired_simps [simp]:
  "led_id (mark_expired env l) = led_id l" "remaining_amount (mark_expired env l) = remaining_amount l"
  "\<not> due now (mark_expired env l)" "\<not> live_at now (mark_expired env l)"
  by (simp_all add: mark_expired_def due_def live_at_def)

lemma batch_rows:
  assumes "db_wf env db" "l \<in> set (find_expired_ledgers db now n)"
  shows "l \<in> set (db_ledgers db)" "due now l"
  using set_take_subset[of n "sort_key (\<lambda>l. the (led_expires_at l)) (filter (due now) (db_ledgers db))"] assms(2)
  by (auto simp: find_expired_ledgers_due)

lemma batch_distinct:
  assumes "db_wf env db"
  shows "distinct (map led_id (find_expired_ledgers db now n))"
proof -
  have "distinct (map led_id (sort_key (\<lambda>l. the (led_expires_at l)) (filter (due now) (db_ledgers db))))"
    using assms by (auto simp: db_wf_def db_inv_def ledgers_inv_def distinct_map inj_on_def)
  then show ?thesis by (simp add: find_expired_ledgers_due take_map[symmetric])
qed

section \<open>One row, then the batch\<close>

lemma set_expired_total:
  assumes "ledgers_inv (db_ledgers db)" "l \<in> set (db_ledgers db)"
  shows "update_ledger_in_tx env db (led_id l) (SetStatus LedgerExpired) =
    Inr (mark_expired env l, db\<lparr>db_ledgers :=
      map (\<lambda>x. if led_id x = led_id l then mark_expired env x else x) (db_ledgers db)\<rparr>)"
proof -
  have d: "distinct (map led_id (db_ledgers db))" using assms(1) by (simp add: ledgers_inv_def)
  have f: "find (\<lambda>x. led_id x = led_id l) (db_ledgers db) = Some l"
    by (rule find_key_in[OF d assms(2)])
  have "ledger_check l" using assms by (simp add: ledgers_inv_def ledger_ok_def)
  then have "ledger_check (l\<lparr>led_status := LedgerExpired\<rparr>)" by (simp add: ledger_check_def)
  moreover have "update_where (\<lambda>x. led_id x = led_id l) (\<lambda>_. mark_expired env l) (db_ledgers db) =
      map (\<lambda>x. if led_id x = led_id l then mark_expired env x else x) (db_ledgers db)"
    using distinct_key_unique[OF d assms(2)] by (fastforce simp: update_where_def)
  ultimately show ?thesis
    using f by (simp add: update_ledger_in_tx_def ensure_def mark_expired_def)
qed

lemma expire_step_run:
  assumes "db_wf env db" "l0 \<in> set (db_ledgers db)" "led_id l0 = led_id l" "0 < remaining_amount l" "has_wallet db l"
  obtains r db' where "expire_step env (tot, db) l = Inr (tot + remaining_amount l, db')" "db_wf env db'"
    "db' = db\<lparr>db_ledgers := map (\<lambda>x. if led_id x = led_id l then mark_expired env x else x) (db_ledgers db),
              db_revocations := db_revocations db @ [r], db_seq := Suc (db_seq db)\<rparr>"
    "rev_ledger_id r = led_id l" "rev_revoked_amount r = remaining_amount l"
proof -
  have inv: "ledgers_inv (db_ledgers db)" using assms(1) by (simp add: db_wf_def db_inv_def)
  note u = set_expired_total[OF inv assms(2), of env, unfolded assms(3)]
  let ?led = "map (\<lambda>x. if led_id x = led_id l then mark_expired env x else x) (db_ledgers db)"
  let ?r = "\<lparr>rev_id = env_uuid env (db_seq db), rev_ledger_id = led_id l, rev_user_id = led_user_id l,
           rev_realm_id = led_realm_id l, rev_revocation_type = RevExpire,
           rev_revoked_amount = remaining_amount l, rev_reason = ''Points expired'',
           rev_reference_id = None, rev_created_at = env_now env\<rparr>"
  let ?db' = "db\<lparr>db_ledgers := ?led, db_revocations := db_revocations db @ [?r], db_seq := Suc (db_seq db)\<rparr>"
  have wf1: "db_wf env (db\<lparr>db_ledgers := ?led\<rparr>)"
    using update_ledger_wf[OF assms(1) u] by (simp add: keeps_status_ok_def)
  have rec: "create_revocation_record_in_tx (db\<lparr>db_ledgers := ?led, db_seq := Suc (db_seq db)\<rparr>) ?r = Inr ?db'"
    using assms(4) by (simp add: create_revocation_Inr_iff)
  have "db_wf env ?db'"
    using create_revocation_wf[OF _ rec] db_wf_bump[OF wf1] by simp
  moreover have "find_wallet_by_user_bucket ?db' (led_realm_id l) (led_user_id l) (led_bucket_id l) \<noteq> None"
    using assms(5) by (simp add: has_wallet_def find_wallet_by_user_bucket_def)
  then have "expire_step env (tot, db) l = Inr (tot + remaining_amount l, ?db')"
    using u rec by (auto simp: expire_step_def now_v7_def Let_def)
  ultimately show ?thesis by (intro that[of ?db' ?r]) auto
qed

lemma expire_fold:
  assumes "db_wf env db" "distinct (map led_id ls)"
    and "\<forall>l \<in> set ls. led_id l \<in> led_id ` set (db_ledgers db) \<and> 0 < remaining_amount l \<and> has_wallet db l"
  obtains rs n db' where "try_fold (expire_step env) (tot, db) ls = Inr (tot + sum_list (map remaining_amount ls), db')"
    "db_wf env db'"
    "db' = db\<lparr>db_ledgers := map (\<lambda>x. if led_id x \<in> led_id ` set ls then mark_expired env x else x) (db_ledgers db),
              db_revocations := db_revocations db @ rs, db_seq := n\<rparr>"
    "map (\<lambda>r. (rev_ledger_id r, rev_revoked_amount r)) rs = map (\<lambda>l. (led_id l, remaining_amount l)) ls"
  using assms
proof (induction ls arbitrary: tot db thesis)
  case Nil
  show ?case by (rule Nil.prems(1)[of db "db_seq db" "[]"]) (use Nil.prems(2) in simp_all)
next
  case (Cons l ls)
  from Cons.prems(4) obtain l0 where l0: "l0 \<in> set (db_ledgers db)" "led_id l0 = led_id l" by auto
  obtain r db1 where s: "expire_step env (tot, db) l = Inr (tot + remaining_amount l, db1)" "db_wf env db1"
    "db1 = db\<lparr>db_ledgers := map (\<lambda>x. if led_id x = led_id l then mark_expired env x else x) (db_ledgers db),
              db_revocations := db_revocations db @ [r], db_seq := Suc (db_seq db)\<rparr>"
    "rev_ledger_id r = led_id l" "rev_revoked_amount r = remaining_amount l"
    by (rule expire_step_run[OF Cons.prems(2) l0]) (use Cons.prems(4) in auto)
  have "map led_id (db_ledgers db1) = map led_id (db_ledgers db)" unfolding s(3) by simp
  then have ids: "led_id ` set (db_ledgers db1) = led_id ` set (db_ledgers db)" by (metis list.set_map)
  have ready: "\<forall>l \<in> set ls. led_id l \<in> led_id ` set (db_ledgers db1) \<and> 0 < remaining_amount l \<and> has_wallet db1 l"
    using Cons.prems(4) unfolding ids by (simp add: s(3) has_wallet_def find_wallet_by_user_bucket_def)
  have "distinct (map led_id ls)" using Cons.prems(3) by simp
  from Cons.IH[OF _ s(2) this ready, of "tot + remaining_amount l"] obtain rs n db' where
    ih: "try_fold (expire_step env) (tot + remaining_amount l, db1) ls =
           Inr (tot + remaining_amount l + sum_list (map remaining_amount ls), db')" "db_wf env db'"
      "db' = db1\<lparr>db_ledgers := map (\<lambda>x. if led_id x \<in> led_id ` set ls then mark_expired env x else x) (db_ledgers db1),
                 db_revocations := db_revocations db1 @ rs, db_seq := n\<rparr>"
      "map (\<lambda>r. (rev_ledger_id r, rev_revoked_amount r)) rs = map (\<lambda>l. (led_id l, remaining_amount l)) ls"
    by blast
  have idem: "mark_expired env (mark_expired env x) = mark_expired env x" for x by (simp add: mark_expired_def)
  have "db' = db\<lparr>db_ledgers := map (\<lambda>x. if led_id x \<in> led_id ` set (l # ls) then mark_expired env x else x) (db_ledgers db),
              db_revocations := db_revocations db @ (r # rs), db_seq := n\<rparr>"
    unfolding ih(3) by (auto simp: s(3) idem)
  with ih(1,2,4) s(1,4,5) show ?case
    by (intro Cons.prems(1)[of db' n "r # rs"]) (simp_all add: add.assoc)
qed

section \<open>What a batch changes\<close>

definition expire_rows :: "env \<Rightarrow> points_credit_ledger list \<Rightarrow> points_credit_ledger list \<Rightarrow> points_credit_ledger list" where
  "expire_rows env batch ls = map (\<lambda>x. if x \<in> set batch then mark_expired env x else x) ls"

lemma expire_rows_filter:
  assumes "\<forall>x \<in> set batch. \<not> P x" "\<And>x. P x \<Longrightarrow> live_at t x"
  shows "filter P (expire_rows env batch ls) = filter P ls"
proof -
  have "\<not> P (mark_expired env x)" for x using assms(2) by fastforce
  with assms(1) show ?thesis by (induction ls) (auto simp: expire_rows_def)
qed

lemma expired_rows_keep_balances:
  assumes "db_ledgers db' = expire_rows env (find_expired_ledgers db now n) (db_ledgers db)" "db_wf env db" "now \<le> t"
  shows "available_total db' r u bs t = available_total db r u bs t"
proof -
  have "\<forall>x \<in> set (find_expired_ledgers db now n). \<not> live_at t x"
    using batch_rows[OF assms(2)] assms(3) by (fastforce simp: live_at_def due_def split: option.splits)
  then show ?thesis
    unfolding available_total_def available_ledgers_def assms(1)
    by (subst expire_rows_filter[where t = t]) auto
qed

lemma length_filter_not_taken:
  assumes "distinct xs" "mset ys = mset xs"
  shows "length (filter (\<lambda>x. x \<notin> set (take n ys)) xs) = length xs - n"
proof -
  have "distinct ys" using assms by (metis mset_eq_imp_distinct_iff)
  then have disj: "set (take n ys) \<inter> set (drop n ys) = {}" by (simp add: set_take_disj_set_drop_if_distinct)
  have "filter (\<lambda>x. x \<notin> set (take n ys)) (take n ys @ drop n ys) = drop n ys"
    using disj by (auto simp: filter_empty_conv filter_id_conv simp del: append_take_drop_id)
  then have "filter (\<lambda>x. x \<notin> set (take n ys)) ys = drop n ys" by simp
  moreover have "mset (filter (\<lambda>x. x \<notin> set (take n ys)) xs) = mset (filter (\<lambda>x. x \<notin> set (take n ys)) ys)"
    using assms(2) by (simp add: mset_filter)
  ultimately show ?thesis using assms(2) by (metis length_drop size_mset)
qed

lemma expired_rows_count:
  assumes "db_ledgers db' = expire_rows env (find_expired_ledgers db now n) (db_ledgers db)" "db_wf env db"
  shows "length (filter (due now) (db_ledgers db')) = length (filter (due now) (db_ledgers db)) - n"
proof -
  have "filter (due now) (expire_rows env batch xs) = filter (\<lambda>x. x \<notin> set batch) (filter (due now) xs)" for batch xs
    by (induction xs) (auto simp: expire_rows_def)
  moreover have "distinct (filter (due now) (db_ledgers db))"
    using assms(2) by (simp add: db_wf_def db_inv_def ledgers_inv_def distinct_map)
  ultimately show ?thesis
    using length_filter_not_taken[of "filter (due now) (db_ledgers db)"]
    unfolding assms(1) find_expired_ledgers_due by (simp only: mset_sort)
qed

lemma scan_run:
  assumes "db_wf env db" "\<forall>l \<in> set (db_ledgers db). due (env_now env) l \<longrightarrow> has_wallet db l"
  obtains db' where "try_fold (expire_step env) (0, db) (find_expired_ledgers db (env_now env) n) =
      Inr (sum_list (map remaining_amount (find_expired_ledgers db (env_now env) n)), db')"
    "db_wf env db'" "db_ledgers db' = expire_rows env (find_expired_ledgers db (env_now env) n) (db_ledgers db)"
proof -
  let ?batch = "find_expired_ledgers db (env_now env) n"
  have rows: "l \<in> set (db_ledgers db) \<and> due (env_now env) l" if "l \<in> set ?batch" for l
    using batch_rows[OF assms(1) that] by simp
  then have ok: "\<forall>l \<in> set ?batch. led_id l \<in> led_id ` set (db_ledgers db) \<and> 0 < remaining_amount l \<and> has_wallet db l"
    using assms(2) by (auto simp: due_def)
  obtain rs m db' where e: "try_fold (expire_step env) (0, db) ?batch = Inr (0 + sum_list (map remaining_amount ?batch), db')"
    "db_wf env db'"
    "db' = db\<lparr>db_ledgers := map (\<lambda>x. if led_id x \<in> led_id ` set ?batch then mark_expired env x else x) (db_ledgers db),
              db_revocations := db_revocations db @ rs, db_seq := m\<rparr>"
    by (rule expire_fold[OF assms(1) batch_distinct[OF assms(1)] ok])
  have dist: "distinct (map led_id (db_ledgers db))"
    using assms(1) by (simp add: db_wf_def db_inv_def ledgers_inv_def)
  have "led_id x \<in> led_id ` set ?batch \<longleftrightarrow> x \<in> set ?batch" if "x \<in> set (db_ledgers db)" for x
    using that rows distinct_key_unique[OF dist that] by blast
  then have "db_ledgers db' = expire_rows env ?batch (db_ledgers db)"
    unfolding e(3) expire_rows_def by auto
  with e(1,2) that show ?thesis by auto
qed

section \<open>Properties\<close>


definition demo_late_env :: env where
  "demo_late_env = demo_env\<lparr>env_now := secs 600, env_sql_now := secs 600\<rparr>"


text \<open>
  An expired row keeps its remaining amount, so the revocation by source, which does not look
  at the status, revokes it once more: two records for the same points.
\<close>

lemma expired_row_revoked_again:
  "(case scan_and_expire_points_atomic demo_late_env 10
           (demo_db\<lparr>db_ledgers := [demo_ledger 202 10 TopupCredit SrcTopup 10 1 (Some (secs 500))]\<rparr>) of
      Inl e \<Rightarrow> False
    | Inr (_, db') \<Rightarrow>
        (case revoke_points_by_source_id_atomic demo_late_env 10 ''pay-1'' demo_cause None db' of
           Inl e \<Rightarrow> False
         | Inr (out, db'') \<Rightarrow> map rev_revoked_amount (db_revocations db'') = [9, 9]))"
  by code_simp

end
