(* ===== verification/PaymentAttempt.thy ===== *)
theory PaymentAttempt
  imports PointsTables
begin

text \<open>
  Payment attempts: the status machine of \<open>domain/src/payment_attempt/entities.rs\<close>, the
  repository of \<open>infra/src/payment_attempt/postgres_repository.rs\<close> over its table (with
  the check constraints and the one-time-role unique index of \<open>0002_billing.sql\<close>) and
  the service of \<open>domain/src/payment_attempt/services.rs\<close>.  A status change is two
  database round trips, a read that validates the transition and a write guarded by the status
  read; both halves are definitions of their own, so that runs of concurrent requests can
  interleave them.  The row a guarded write returns is read back in a further statement; the model
  reads it in the state the write left.
\<close>

section \<open>Statuses\<close>

datatype payment_attempt_status =
  Pending | RequiresAction | Succeeded | Failed | Cancelled | Expired

definition can_transition_to :: "payment_attempt_status \<Rightarrow> payment_attempt_status \<Rightarrow> bool" where
  "can_transition_to self target \<longleftrightarrow>
     self = target \<or>
     (case (self, target) of
        (Pending, RequiresAction) \<Rightarrow> True
      | (Pending, Succeeded) \<Rightarrow> True
      | (Pending, Failed) \<Rightarrow> True
      | (Pending, Cancelled) \<Rightarrow> True
      | (Pending, Expired) \<Rightarrow> True
      | (RequiresAction, Succeeded) \<Rightarrow> True
      | (RequiresAction, Failed) \<Rightarrow> True
      | (RequiresAction, Cancelled) \<Rightarrow> True
      | (RequiresAction, Expired) \<Rightarrow> True
      | _ \<Rightarrow> False)"

definition can_transition_to_failed_for_async_recovery :: "payment_attempt_status \<Rightarrow> bool" where
  "can_transition_to_failed_for_async_recovery self \<longleftrightarrow> self = Succeeded"

definition is_terminal :: "payment_attempt_status \<Rightarrow> bool" where
  "is_terminal self \<longleftrightarrow> self \<in> {Succeeded, Failed, Cancelled, Expired}"

definition is_active :: "payment_attempt_status \<Rightarrow> bool" where
  "is_active self \<longleftrightarrow> self \<in> {Pending, RequiresAction}"

definition status_to_string :: "payment_attempt_status \<Rightarrow> string" where
  "status_to_string s = (case s of
       Pending \<Rightarrow> ''Pending'' | RequiresAction \<Rightarrow> ''RequiresAction'' | Succeeded \<Rightarrow> ''Succeeded''
     | Failed \<Rightarrow> ''Failed'' | Cancelled \<Rightarrow> ''Cancelled'' | Expired \<Rightarrow> ''Expired'')"

definition status_from_str :: "string \<Rightarrow> (core_error, payment_attempt_status) result" where
  "status_from_str s =
     (if s = ''Pending'' then Inr Pending
      else if s = ''RequiresAction'' then Inr RequiresAction
      else if s = ''Succeeded'' then Inr Succeeded
      else if s = ''Failed'' then Inr Failed
      else if s = ''Cancelled'' then Inr Cancelled
      else if s = ''Expired'' then Inr Expired
      else Inl (BadRequest (''Invalid payment attempt status: '' @ s)))"

datatype purchasable_target = EntitlementMapping

definition target_to_string :: "purchasable_target \<Rightarrow> string" where
  "target_to_string t = (case t of EntitlementMapping \<Rightarrow> ''entitlement_mapping'')"

definition target_from_str :: "string \<Rightarrow> (core_error, purchasable_target) result" where
  "target_from_str s =
     (if s \<in> {''entitlement_mapping'', ''subscription_entitlement'', ''points_package''}
      then Inr EntitlementMapping
      else Inl (BadRequest (''Invalid purchasable target: '' @ s)))"

definition invalid_status_transition :: "string \<Rightarrow> string \<Rightarrow> core_error" where
  "invalid_status_transition from to = BadRequest (''Invalid status transition: '' @ from @ '' -> '' @ to)"

definition attempt_not_found :: core_error where
  "attempt_not_found = NotFound"

section \<open>Attempts and their table\<close>

text \<open>The metadata is JSON the code only stores and returns: its text.\<close>

record payment_attempt =
  pa_id :: uuid
  pa_realm_id :: string
  pa_user_id :: uuid
  pa_payment_provider :: string
  pa_target_type :: purchasable_target
  pa_target_id :: uuid
  pa_amount :: i64
  pa_currency :: string
  pa_status :: payment_attempt_status
  pa_is_one_time_role :: bool
  pa_provider_reference :: "string option"
  pa_provider_status :: "string option"
  pa_metadata :: "string option"
  pa_expires_at :: instant
  pa_completed_at :: "instant option"
  pa_created_at :: instant
  pa_updated_at :: instant

datatype billing_type = Recurring | OneTime | NonRenewing

record rule_row =
  rule_id :: uuid
  rule_realm_id :: string
  rule_mapping_id :: "uuid option"
  rule_bucket_id :: uuid
  rule_enabled :: bool
  rule_trigger_sources :: "string list"
  rule_display_order :: int

record captured_rule =
  cap_attempt_id :: uuid
  cap_rule_id :: uuid
  cap_bucket_id :: uuid

record pay_db =
  pay_attempts :: "payment_attempt list"
  pay_rules :: "rule_row list"
  pay_captured :: "captured_rule list"
  pay_seq :: nat

type_synonym 'a pay_result = "(core_error, 'a) result \<times> pay_db"

definition attempt_check :: "payment_attempt \<Rightarrow> bool" where
  "attempt_check a \<longleftrightarrow> 0 < pa_amount a \<and>
     pa_payment_provider a \<in> {''stripe'', ''creem'', ''apple'', ''google'', ''wechat''}"

text \<open>The partial unique index: one succeeded one-time-role attempt per user and target.\<close>

definition guarded_role :: "payment_attempt \<Rightarrow> bool" where
  "guarded_role a \<longleftrightarrow> pa_status a = Succeeded \<and> pa_is_one_time_role a"

definition role_conflict :: "payment_attempt list \<Rightarrow> payment_attempt \<Rightarrow> bool" where
  "role_conflict as a \<longleftrightarrow> guarded_role a \<and>
     (\<exists>x \<in> set as. pa_id x \<noteq> pa_id a \<and> guarded_role x \<and>
        pa_user_id x = pa_user_id a \<and> pa_target_id x = pa_target_id a)"

definition role_index_error :: "string \<Rightarrow> core_error" where
  "role_index_error action = DatabaseError (''Failed to '' @ action @ '' payment attempt: idx_payment_attempts_one_time_role'')"

section \<open>Repository\<close>

record create_attempt_input =
  ci_realm_id :: string
  ci_user_id :: uuid
  ci_payment_provider :: string
  ci_target_type :: string
  ci_target_id :: uuid
  ci_billing_type :: billing_type
  ci_amount :: i64
  ci_currency :: string
  ci_provider_reference :: "string option"
  ci_metadata :: "string option"
  ci_is_one_time_role :: bool

record renewal_attempt_input =
  ri_realm_id :: string
  ri_user_id :: uuid
  ri_payment_provider :: string
  ri_target_id :: uuid
  ri_amount :: i64
  ri_currency :: string
  ri_provider_reference :: string
  ri_completed_at :: instant

definition trigger_for_billing_type :: "billing_type \<Rightarrow> string" where
  "trigger_for_billing_type billing_type = (case billing_type of
       OneTime \<Rightarrow> ''topup''
     | Recurring \<Rightarrow> ''subscription_initial''
     | NonRenewing \<Rightarrow> ''subscription_initial'')"

text \<open>
  The insert: the table admits only the canonical target text, so a legacy spelling fails the
  check before it would be parsed.
\<close>

definition insert_attempt_in_tx ::
  "env \<Rightarrow> pay_db \<Rightarrow> create_attempt_input \<Rightarrow> payment_attempt_status \<Rightarrow> instant \<Rightarrow> instant option
     \<Rightarrow> (core_error, payment_attempt \<times> pay_db) result" where
  "insert_attempt_in_tx env db input status expires_at completed_at =
     (let i = env_uuid env (pay_seq db);
          a = \<lparr>pa_id = i, pa_realm_id = ci_realm_id input, pa_user_id = ci_user_id input,
               pa_payment_provider = ci_payment_provider input, pa_target_type = EntitlementMapping,
               pa_target_id = ci_target_id input, pa_amount = ci_amount input,
               pa_currency = ci_currency input, pa_status = status,
               pa_is_one_time_role = ci_is_one_time_role input,
               pa_provider_reference = ci_provider_reference input, pa_provider_status = None,
               pa_metadata = ci_metadata input, pa_expires_at = expires_at,
               pa_completed_at = completed_at, pa_created_at = env_now env, pa_updated_at = env_now env\<rparr>
      in and_then (ensure (ci_target_type input = ''entitlement_mapping'' \<and> attempt_check a)
                    (DatabaseError ''Failed to create payment attempt: payment_attempts_check'')) (\<lambda>_.
         and_then (ensure (\<forall>x \<in> set (pay_attempts db). pa_id x \<noteq> i)
                    (DatabaseError ''Failed to create payment attempt: payment_attempts_pkey'')) (\<lambda>_.
         and_then (ensure (\<not> role_conflict (pay_attempts db) a) (role_index_error ''create'')) (\<lambda>_.
           Inr (a, db\<lparr>pay_attempts := pay_attempts db @ [a], pay_seq := Suc (pay_seq db)\<rparr>)))))"

definition snapshot_matched_rules_in_tx :: "pay_db \<Rightarrow> uuid \<Rightarrow> string \<Rightarrow> uuid \<Rightarrow> string \<Rightarrow> pay_db" where
  "snapshot_matched_rules_in_tx db attempt_id realm_id mapping_id trigger =
     db\<lparr>pay_captured := pay_captured db @
       map (\<lambda>r. \<lparr>cap_attempt_id = attempt_id, cap_rule_id = rule_id r, cap_bucket_id = rule_bucket_id r\<rparr>)
         (sort_key (\<lambda>r. (rule_display_order r, rule_id r))
           (filter (\<lambda>r. rule_realm_id r = realm_id \<and> rule_mapping_id r = Some mapping_id \<and>
                        rule_enabled r \<and> trigger \<in> set (rule_trigger_sources r))
             (pay_rules db)))\<rparr>"

definition create_payment_attempt :: "env \<Rightarrow> create_attempt_input \<Rightarrow> pay_db \<Rightarrow> payment_attempt pay_result" where
  "create_payment_attempt env input db =
     (case insert_attempt_in_tx env db input Pending (env_now env + secs (2 * 3600)) None of
        Inl e \<Rightarrow> (Inl e, db)
      | Inr (a, db1) \<Rightarrow>
          (Inr a, snapshot_matched_rules_in_tx db1 (pa_id a) (ci_realm_id input) (ci_target_id input)
                    (trigger_for_billing_type (ci_billing_type input))))"

definition insert_succeeded_renewal_attempt ::
  "env \<Rightarrow> renewal_attempt_input \<Rightarrow> pay_db \<Rightarrow> payment_attempt pay_result" where
  "insert_succeeded_renewal_attempt env input db =
     (case insert_attempt_in_tx env db
             \<lparr>ci_realm_id = ri_realm_id input, ci_user_id = ri_user_id input,
              ci_payment_provider = ri_payment_provider input, ci_target_type = ''entitlement_mapping'',
              ci_target_id = ri_target_id input, ci_billing_type = Recurring, ci_amount = ri_amount input,
              ci_currency = ri_currency input, ci_provider_reference = Some (ri_provider_reference input),
              ci_metadata = None, ci_is_one_time_role = False\<rparr>
             Succeeded (ri_completed_at input) (Some (ri_completed_at input)) of
        Inl e \<Rightarrow> (Inl e, db)
      | Inr (a, db1) \<Rightarrow> (Inr a, db1))"

definition find_payment_attempt_by_id :: "pay_db \<Rightarrow> string \<Rightarrow> uuid \<Rightarrow> payment_attempt option" where
  "find_payment_attempt_by_id db realm_id attempt_id =
     find (\<lambda>a. pa_id a = attempt_id \<and> pa_realm_id a = realm_id) (pay_attempts db)"

definition find_payment_attempt_by_id_only :: "pay_db \<Rightarrow> uuid \<Rightarrow> payment_attempt option" where
  "find_payment_attempt_by_id_only db attempt_id = find (\<lambda>a. pa_id a = attempt_id) (pay_attempts db)"

definition find_payment_attempts_by_user :: "pay_db \<Rightarrow> string \<Rightarrow> uuid \<Rightarrow> nat \<Rightarrow> payment_attempt list" where
  "find_payment_attempts_by_user db realm_id user_id limit =
     take limit (sort_key (\<lambda>a. - pa_created_at a)
       (filter (\<lambda>a. pa_realm_id a = realm_id \<and> pa_user_id a = user_id) (pay_attempts db)))"

definition find_payment_attempt_by_provider_reference ::
  "pay_db \<Rightarrow> string \<Rightarrow> string \<Rightarrow> payment_attempt option" where
  "find_payment_attempt_by_provider_reference db provider reference =
     (case sort_key (\<lambda>a. - pa_created_at a)
             (filter (\<lambda>a. pa_payment_provider a = provider \<and> pa_provider_reference a = Some reference)
               (pay_attempts db)) of
        [] \<Rightarrow> None
      | a # _ \<Rightarrow> Some a)"

definition update_payment_attempt :: "env \<Rightarrow> payment_attempt \<Rightarrow> pay_db \<Rightarrow> payment_attempt pay_result" where
  "update_payment_attempt env attempt db =
     (let a = attempt\<lparr>pa_updated_at := env_now env\<rparr> in
      if find_payment_attempt_by_id_only db (pa_id attempt) = None
      then (Inl (DatabaseError ''Failed to update payment attempt: None of the records are updated''), db)
      else if \<not> attempt_check a then (Inl (DatabaseError ''Failed to update payment attempt: payment_attempts_check''), db)
      else if role_conflict (pay_attempts db) a then (Inl (role_index_error ''update''), db)
      else (Inr a, db\<lparr>pay_attempts := update_where (\<lambda>x. pa_id x = pa_id attempt) (\<lambda>_. a) (pay_attempts db)\<rparr>))"

definition guarded_columns :: "env \<Rightarrow> payment_attempt \<Rightarrow> payment_attempt \<Rightarrow> payment_attempt" where
  "guarded_columns env attempt x =
     x\<lparr>pa_status := pa_status attempt, pa_provider_reference := pa_provider_reference attempt,
       pa_provider_status := pa_provider_status attempt, pa_completed_at := pa_completed_at attempt,
       pa_updated_at := env_sql_now env\<rparr>"

definition update_payment_attempt_with_status_guard ::
  "env \<Rightarrow> payment_attempt \<Rightarrow> payment_attempt_status \<Rightarrow> pay_db \<Rightarrow> payment_attempt pay_result" where
  "update_payment_attempt_with_status_guard env attempt expected_status db =
     (case find_payment_attempt_by_id db (pa_realm_id attempt) (pa_id attempt) of
        None \<Rightarrow> (Inl attempt_not_found, db)
      | Some current \<Rightarrow>
          if pa_status current = expected_status
          then (if role_conflict (pay_attempts db) (guarded_columns env attempt current)
                then (Inl (role_index_error ''guarded-update''), db)
                else (let db' = db\<lparr>pay_attempts :=
                            update_where (\<lambda>x. pa_id x = pa_id attempt \<and> pa_realm_id x = pa_realm_id attempt \<and>
                                              pa_status x = expected_status)
                              (guarded_columns env attempt) (pay_attempts db)\<rparr>
                      in (ok_or (find_payment_attempt_by_id db' (pa_realm_id attempt) (pa_id attempt))
                            attempt_not_found, db')))
          else if pa_status current = pa_status attempt then (Inr current, db)
          else (Inl (invalid_status_transition (status_to_string expected_status)
                       (status_to_string (pa_status current))), db))"

definition list_expired_attempts :: "pay_db \<Rightarrow> instant \<Rightarrow> payment_attempt list" where
  "list_expired_attempts db before =
     filter (\<lambda>a. pa_expires_at a < before \<and> pa_status a = Pending) (pay_attempts db)"

definition has_succeeded_attempt :: "pay_db \<Rightarrow> uuid \<Rightarrow> uuid \<Rightarrow> bool" where
  "has_succeeded_attempt db user_id target_id \<longleftrightarrow>
     (\<exists>a \<in> set (pay_attempts db). pa_user_id a = user_id \<and> pa_target_id a = target_id \<and> pa_status a = Succeeded)"

definition find_captured_rule_refs :: "pay_db \<Rightarrow> string \<Rightarrow> uuid \<Rightarrow> (uuid \<times> uuid) list" where
  "find_captured_rule_refs db realm_id attempt_id =
     map (\<lambda>(s, r). (cap_rule_id s, cap_bucket_id s))
       (sort_key (\<lambda>(s, r). (rule_display_order r, rule_id r))
         (filter (\<lambda>(s, r). cap_attempt_id s = attempt_id \<and> rule_id r = cap_rule_id s \<and> rule_realm_id r = realm_id)
           (List.product (pay_captured db) (pay_rules db))))"

section \<open>Service\<close>

text \<open>
  The read half of a status change gives the row to write and the status it was read with.
\<close>

type_synonym guarded_write = "payment_attempt \<times> payment_attempt_status"

definition get_payment_attempt_status :: "pay_db \<Rightarrow> string \<Rightarrow> uuid \<Rightarrow> uuid \<Rightarrow> (core_error, payment_attempt) result" where
  "get_payment_attempt_status db realm_id attempt_id requesting_user_id =
     and_then (ok_or (find_payment_attempt_by_id db realm_id attempt_id) attempt_not_found) (\<lambda>attempt.
     and_then (ensure (pa_user_id attempt = requesting_user_id)
                (Forbidden ''You can only view your own payment attempts'')) (\<lambda>_. Inr attempt))"

definition checked_transition :: "payment_attempt \<Rightarrow> payment_attempt_status \<Rightarrow> (core_error, unit) result" where
  "checked_transition attempt target_status =
     ensure (can_transition_to (pa_status attempt) target_status)
       (invalid_status_transition (status_to_string (pa_status attempt)) (status_to_string target_status))"

definition read_cancel :: "env \<Rightarrow> string \<Rightarrow> uuid \<Rightarrow> uuid \<Rightarrow> pay_db \<Rightarrow> (core_error, guarded_write) result" where
  "read_cancel env realm_id attempt_id user_id db =
     and_then (get_payment_attempt_status db realm_id attempt_id user_id) (\<lambda>attempt.
     and_then (checked_transition attempt Cancelled) (\<lambda>_.
       Inr (attempt\<lparr>pa_status := Cancelled, pa_updated_at := env_now env\<rparr>, pa_status attempt)))"

definition read_succeeded ::
  "env \<Rightarrow> string \<Rightarrow> uuid \<Rightarrow> string \<Rightarrow> string \<Rightarrow> instant \<Rightarrow> pay_db \<Rightarrow> (core_error, guarded_write) result" where
  "read_succeeded env realm_id attempt_id provider_status provider_transaction_id completed_at db =
     and_then (ok_or (find_payment_attempt_by_id db realm_id attempt_id) attempt_not_found) (\<lambda>attempt.
     and_then (checked_transition attempt Succeeded) (\<lambda>_.
       Inr (attempt\<lparr>pa_status := Succeeded, pa_provider_status := Some provider_status,
                     pa_provider_reference := Some provider_transaction_id,
                     pa_completed_at := Some completed_at, pa_updated_at := env_now env\<rparr>, pa_status attempt)))"

definition read_failed ::
  "env \<Rightarrow> string \<Rightarrow> uuid \<Rightarrow> string \<Rightarrow> instant \<Rightarrow> pay_db \<Rightarrow> (core_error, guarded_write) result" where
  "read_failed env realm_id attempt_id provider_status completed_at db =
     and_then (ok_or (find_payment_attempt_by_id db realm_id attempt_id) attempt_not_found) (\<lambda>attempt.
     and_then (checked_transition attempt Failed) (\<lambda>_.
       Inr (attempt\<lparr>pa_status := Failed, pa_provider_status := Some provider_status,
                     pa_completed_at := Some completed_at, pa_updated_at := env_now env\<rparr>, pa_status attempt)))"

definition read_failed_for_async_recovery ::
  "env \<Rightarrow> string \<Rightarrow> uuid \<Rightarrow> string \<Rightarrow> instant \<Rightarrow> pay_db \<Rightarrow> (core_error, guarded_write) result" where
  "read_failed_for_async_recovery env realm_id attempt_id provider_status completed_at db =
     and_then (ok_or (find_payment_attempt_by_id db realm_id attempt_id) attempt_not_found) (\<lambda>attempt.
     and_then (ensure (can_transition_to_failed_for_async_recovery (pa_status attempt))
                (invalid_status_transition (status_to_string (pa_status attempt)) (status_to_string Failed))) (\<lambda>_.
       Inr (attempt\<lparr>pa_status := Failed, pa_provider_status := Some provider_status,
                     pa_completed_at := Some completed_at, pa_updated_at := env_now env\<rparr>, pa_status attempt)))"

text \<open>A whole request is its read followed by its write.\<close>

definition then_write ::
  "env \<Rightarrow> (pay_db \<Rightarrow> (core_error, guarded_write) result) \<Rightarrow> pay_db \<Rightarrow> payment_attempt pay_result" where
  "then_write env read db =
     (case read db of
        Inl e \<Rightarrow> (Inl e, db)
      | Inr (attempt, original_status) \<Rightarrow>
          update_payment_attempt_with_status_guard env attempt original_status db)"

definition cancel_payment_attempt :: "env \<Rightarrow> string \<Rightarrow> uuid \<Rightarrow> uuid \<Rightarrow> pay_db \<Rightarrow> payment_attempt pay_result" where
  "cancel_payment_attempt env realm_id attempt_id user_id =
     then_write env (read_cancel env realm_id attempt_id user_id)"

definition mark_payment_succeeded ::
  "env \<Rightarrow> string \<Rightarrow> uuid \<Rightarrow> string \<Rightarrow> string \<Rightarrow> instant \<Rightarrow> pay_db \<Rightarrow> payment_attempt pay_result" where
  "mark_payment_succeeded env realm_id attempt_id provider_status provider_transaction_id completed_at =
     then_write env (read_succeeded env realm_id attempt_id provider_status provider_transaction_id completed_at)"

definition mark_payment_failed ::
  "env \<Rightarrow> string \<Rightarrow> uuid \<Rightarrow> string \<Rightarrow> instant \<Rightarrow> pay_db \<Rightarrow> payment_attempt pay_result" where
  "mark_payment_failed env realm_id attempt_id provider_status completed_at =
     then_write env (read_failed env realm_id attempt_id provider_status completed_at)"

definition mark_failed_for_async_recovery ::
  "env \<Rightarrow> string \<Rightarrow> uuid \<Rightarrow> string \<Rightarrow> instant \<Rightarrow> pay_db \<Rightarrow> payment_attempt pay_result" where
  "mark_failed_for_async_recovery env realm_id attempt_id provider_status completed_at =
     then_write env (read_failed_for_async_recovery env realm_id attempt_id provider_status completed_at)"

definition read_provider_reference ::
  "env \<Rightarrow> string \<Rightarrow> uuid \<Rightarrow> string option \<Rightarrow> pay_db \<Rightarrow> (core_error, payment_attempt) result" where
  "read_provider_reference env realm_id attempt_id provider_reference db =
     and_then (ok_or (find_payment_attempt_by_id db realm_id attempt_id) attempt_not_found) (\<lambda>attempt.
       Inr (attempt\<lparr>pa_provider_reference := provider_reference, pa_updated_at := env_now env\<rparr>))"

definition update_provider_reference ::
  "env \<Rightarrow> string \<Rightarrow> uuid \<Rightarrow> string option \<Rightarrow> pay_db \<Rightarrow> payment_attempt pay_result" where
  "update_provider_reference env realm_id attempt_id provider_reference db =
     (case read_provider_reference env realm_id attempt_id provider_reference db of
        Inl e \<Rightarrow> (Inl e, db)
      | Inr attempt \<Rightarrow> update_payment_attempt env attempt db)"

definition record_subscription_renewal_attempt ::
  "env \<Rightarrow> renewal_attempt_input \<Rightarrow> pay_db \<Rightarrow> payment_attempt pay_result" where
  "record_subscription_renewal_attempt env input db =
     (case find_payment_attempt_by_provider_reference db (ri_payment_provider input) (ri_provider_reference input) of
        Some existing \<Rightarrow> (Inr existing, db)
      | None \<Rightarrow> insert_succeeded_renewal_attempt env input db)"

text \<open>The expiry loop skips an attempt whose write the guard refuses and goes on.\<close>

fun expire_loop :: "env \<Rightarrow> payment_attempt list \<Rightarrow> payment_attempt list \<Rightarrow> pay_db \<Rightarrow> payment_attempt list \<times> pay_db" where
  "expire_loop env [] updated db = (updated, db)"
| "expire_loop env (attempt # rest) updated db =
     (if \<not> can_transition_to (pa_status attempt) Expired then expire_loop env rest updated db
      else case update_payment_attempt_with_status_guard env
                  (attempt\<lparr>pa_status := Expired, pa_updated_at := env_now env\<rparr>) (pa_status attempt) db of
             (Inr a, db') \<Rightarrow> expire_loop env rest (updated @ [a]) db'
           | (Inl _, db') \<Rightarrow> expire_loop env rest updated db')"

definition mark_expired_attempts :: "env \<Rightarrow> instant \<Rightarrow> pay_db \<Rightarrow> payment_attempt list pay_result" where
  "mark_expired_attempts env before db =
     (let (updated, db') = expire_loop env (list_expired_attempts db before) [] db in (Inr updated, db'))"

end
