(* ===== verification/PaymentAttemptProps.thy ===== *)
theory PaymentAttemptProps
  imports PaymentAttempt PointsDemo
begin

text \<open>
  Correctness of the payment attempts: the contract of the store that the service relies on (a
  locale, interpreted on the repository), the step relation of concurrent requests, and the
  properties of the status machine, of renewal recording, of the expiry sweep and of the rule
  snapshot.
\<close>

section \<open>Table invariant\<close>

definition role_unique :: "payment_attempt list \<Rightarrow> bool" where
  "role_unique as \<longleftrightarrow> (\<forall>x \<in> set as. \<forall>y \<in> set as. guarded_role x \<and> guarded_role y \<and>
     pa_user_id x = pa_user_id y \<and> pa_target_id x = pa_target_id y \<longrightarrow> pa_id x = pa_id y)"

definition pay_wf :: "pay_db \<Rightarrow> bool" where
  "pay_wf db \<longleftrightarrow> distinct (map pa_id (pay_attempts db)) \<and> role_unique (pay_attempts db) \<and>
     (\<forall>a \<in> set (pay_attempts db). attempt_check a) \<and>
     cap_attempt_id ` set (pay_captured db) \<subseteq> pa_id ` set (pay_attempts db)"

lemma role_unique_subset:
  assumes "role_unique as" "\<not> role_conflict as n" "set bs \<subseteq> insert n (set as)"
  shows "role_unique bs"
  unfolding role_unique_def
proof (intro ballI impI, elim conjE)
  fix x y
  assume "x \<in> set bs" "y \<in> set bs" and g: "guarded_role x" "guarded_role y"
    "pa_user_id x = pa_user_id y" "pa_target_id x = pa_target_id y"
  then have "x = n \<or> x \<in> set as" "y = n \<or> y \<in> set as" using assms(3) by auto
  with g assms(1,2) show "pa_id x = pa_id y"
    unfolding role_unique_def role_conflict_def by metis
qed

text \<open>The columns no status change may touch.\<close>

definition same_order :: "payment_attempt \<Rightarrow> payment_attempt \<Rightarrow> bool" where
  "same_order a b \<longleftrightarrow> pa_id a = pa_id b \<and> pa_realm_id a = pa_realm_id b \<and> pa_user_id a = pa_user_id b \<and>
     pa_payment_provider a = pa_payment_provider b \<and> pa_target_id a = pa_target_id b \<and>
     pa_amount a = pa_amount b \<and> pa_currency a = pa_currency b \<and>
     pa_is_one_time_role a = pa_is_one_time_role b \<and> pa_metadata a = pa_metadata b \<and>
     pa_expires_at a = pa_expires_at b \<and> pa_created_at a = pa_created_at b"

lemma same_order_refl [simp]: "same_order a a"
  by (simp add: same_order_def)

lemma same_order_trans: "same_order a b \<Longrightarrow> same_order b c \<Longrightarrow> same_order a c"
  by (simp add: same_order_def)

lemma guarded_columns_simps [simp]:
  "pa_status (guarded_columns env a x) = pa_status a" "same_order x (guarded_columns env a x)"
  "pa_id (guarded_columns env a x) = pa_id x" "pa_realm_id (guarded_columns env a x) = pa_realm_id x"
  "attempt_check (guarded_columns env a x) = attempt_check x"
  by (simp_all add: guarded_columns_def same_order_def attempt_check_def)

lemma find_attempt_iff:
  assumes "pay_wf db"
  shows "find_payment_attempt_by_id db r i = Some a \<longleftrightarrow>
    a \<in> set (pay_attempts db) \<and> pa_id a = i \<and> pa_realm_id a = r"
proof
  assume "find_payment_attempt_by_id db r i = Some a"
  then show "a \<in> set (pay_attempts db) \<and> pa_id a = i \<and> pa_realm_id a = r"
    by (auto simp: find_payment_attempt_by_id_def dest: find_SomeD)
next
  assume a: "a \<in> set (pay_attempts db) \<and> pa_id a = i \<and> pa_realm_id a = r"
  then obtain b where b: "find_payment_attempt_by_id db r i = Some b"
    by (auto simp: find_payment_attempt_by_id_def find_None_iff dest: not_None_eq[THEN iffD1])
       (metis (mono_tags, lifting) find_None_iff not_None_eq)
  then have "b \<in> set (pay_attempts db) \<and> pa_id b = i"
    by (auto simp: find_payment_attempt_by_id_def dest: find_SomeD)
  with a assms have "b = a" by (auto simp: pay_wf_def dest: distinct_key_unique)
  with b show "find_payment_attempt_by_id db r i = Some a" by simp
qed

lemma find_attempt_None_iff:
  "find_payment_attempt_by_id db r i = None \<longleftrightarrow>
    (\<forall>a \<in> set (pay_attempts db). pa_id a = i \<longrightarrow> pa_realm_id a \<noteq> r)"
  by (auto simp: find_payment_attempt_by_id_def find_None_iff)

section \<open>The guarded write\<close>

definition write_row :: "env \<Rightarrow> payment_attempt \<Rightarrow> payment_attempt \<Rightarrow> pay_db \<Rightarrow> pay_db" where
  "write_row env attempt current db = db\<lparr>pay_attempts :=
     map (\<lambda>x. if x = current then guarded_columns env attempt x else x) (pay_attempts db)\<rparr>"

lemma guarded_write_hit:
  assumes "pay_wf db" "find_payment_attempt_by_id db (pa_realm_id attempt) (pa_id attempt) = Some current"
    and "pa_status current = expected" "\<not> role_conflict (pay_attempts db) (guarded_columns env attempt current)"
  shows "update_payment_attempt_with_status_guard env attempt expected db =
    (Inr (guarded_columns env attempt current), write_row env attempt current db)"
    and "pay_wf (write_row env attempt current db)"
proof -
  have cur: "current \<in> set (pay_attempts db)" "pa_id current = pa_id attempt" "pa_realm_id current = pa_realm_id attempt"
    using assms(2) find_attempt_iff[OF assms(1)] by auto
  have uniq: "x = current" if "x \<in> set (pay_attempts db)" "pa_id x = pa_id current" for x
    using assms(1) that cur(1) by (auto simp: pay_wf_def dest: distinct_key_unique)
  have row: "pa_id x = pa_id attempt \<and> pa_realm_id x = pa_realm_id attempt \<and> pa_status x = expected \<longleftrightarrow> x = current"
    if "x \<in> set (pay_attempts db)" for x
    using uniq[OF that] cur(2,3) assms(3) by metis
  have rows: "update_where (\<lambda>x. pa_id x = pa_id attempt \<and> pa_realm_id x = pa_realm_id attempt \<and> pa_status x = expected)
      (guarded_columns env attempt) (pay_attempts db) = pay_attempts (write_row env attempt current db)"
    by (simp add: update_where_def write_row_def row cong: map_cong)
  have ids: "map pa_id (pay_attempts (write_row env attempt current db)) = map pa_id (pay_attempts db)"
    by (simp add: write_row_def)
  have sub: "set (pay_attempts (write_row env attempt current db)) \<subseteq>
      insert (guarded_columns env attempt current) (set (pay_attempts db))"
    unfolding write_row_def by (simp add: image_subset_iff) blast
  have "role_unique (pay_attempts (write_row env attempt current db))"
    by (rule role_unique_subset[OF _ assms(4) sub]) (use assms(1) in \<open>simp add: pay_wf_def\<close>)
  moreover have "pa_id ` set (pay_attempts (write_row env attempt current db)) = pa_id ` set (pay_attempts db)"
    using ids by (metis list.set_map)
  moreover have "\<forall>a \<in> set (pay_attempts (write_row env attempt current db)). attempt_check a"
    using assms(1) sub cur(1) unfolding pay_wf_def by (metis guarded_columns_simps(5) insert_iff subsetD)
  moreover have "pay_captured (write_row env attempt current db) = pay_captured db" by (simp add: write_row_def)
  ultimately show wf: "pay_wf (write_row env attempt current db)"
    using assms(1) by (simp only: pay_wf_def ids)
  have "guarded_columns env attempt current \<in> set (pay_attempts (write_row env attempt current db))"
    using cur(1) by (auto simp: write_row_def)
  with cur have "find_payment_attempt_by_id (write_row env attempt current db) (pa_realm_id attempt) (pa_id attempt)
      = Some (guarded_columns env attempt current)"
    by (simp add: find_attempt_iff[OF wf])
  moreover have "db\<lparr>pay_attempts := pay_attempts (write_row env attempt current db)\<rparr> = write_row env attempt current db"
    by (simp add: write_row_def)
  ultimately show "update_payment_attempt_with_status_guard env attempt expected db =
    (Inr (guarded_columns env attempt current), write_row env attempt current db)"
    using assms(2-4) by (simp add: update_payment_attempt_with_status_guard_def rows Let_def)
qed

lemma guarded_write_cases:
  assumes "pay_wf db" "update_payment_attempt_with_status_guard env attempt expected db = (res, db')"
  obtains (absent) "find_payment_attempt_by_id db (pa_realm_id attempt) (pa_id attempt) = None"
      "res = Inl attempt_not_found" "db' = db"
  | (hit) current where "find_payment_attempt_by_id db (pa_realm_id attempt) (pa_id attempt) = Some current"
      "pa_status current = expected" "\<not> role_conflict (pay_attempts db) (guarded_columns env attempt current)"
      "res = Inr (guarded_columns env attempt current)" "db' = write_row env attempt current db"
  | (refused) err where "res = Inl err" "db' = db"
  | (same) current where "find_payment_attempt_by_id db (pa_realm_id attempt) (pa_id attempt) = Some current"
      "pa_status current = pa_status attempt" "res = Inr current" "db' = db"
proof (cases "find_payment_attempt_by_id db (pa_realm_id attempt) (pa_id attempt)")
  case None
  with assms(2) show thesis
    by (intro absent) (simp_all add: update_payment_attempt_with_status_guard_def)
next
  case (Some current)
  consider "pa_status current = expected" "\<not> role_conflict (pay_attempts db) (guarded_columns env attempt current)"
    | "pa_status current = expected" "role_conflict (pay_attempts db) (guarded_columns env attempt current)"
    | "pa_status current \<noteq> expected" "pa_status current = pa_status attempt"
    | "pa_status current \<noteq> expected" "pa_status current \<noteq> pa_status attempt"
    by blast
  then show thesis
  proof cases
    case 1
    with guarded_write_hit(1)[OF assms(1) Some 1] assms(2) Some show thesis by (intro hit) simp_all
  next
    case 2
    with assms(2) Some show thesis
      by (auto simp: update_payment_attempt_with_status_guard_def intro: refused)
  next
    case 3
    with assms(2) Some show thesis
      by (intro same[OF Some]) (simp_all add: update_payment_attempt_with_status_guard_def)
  next
    case 4
    with assms(2) Some show thesis
      by (auto simp: update_payment_attempt_with_status_guard_def intro: refused)
  qed
qed

lemma guarded_write_wf:
  assumes "pay_wf db" "update_payment_attempt_with_status_guard env attempt expected db = (res, db')"
  shows "pay_wf db'"
  using assms
proof (cases rule: guarded_write_cases)
  case (hit current)
  with guarded_write_hit(2)[OF assms(1) hit(1) refl hit(3)] show ?thesis by simp
qed (use assms(1) in simp_all)

lemma find_write_row:
  assumes "pay_wf db" "pay_wf (write_row env attempt current db)" "find_payment_attempt_by_id db r i = Some c"
  shows "find_payment_attempt_by_id (write_row env attempt current db) r i =
    Some (if c = current then guarded_columns env attempt c else c)"
  using assms(3) unfolding find_attempt_iff[OF assms(1)] find_attempt_iff[OF assms(2)]
  by (auto simp: write_row_def)

section \<open>The store's contract\<close>

text \<open>
  What the service relies on: a guarded write changes at most the row it names, only from the
  expected status to the written one, keeps the order's columns and the table invariant, and
  returns a row only when the row then has the written status.
\<close>

locale attempt_store =
  fixes lookup :: "'s \<Rightarrow> string \<Rightarrow> uuid \<Rightarrow> payment_attempt option"
    and guarded :: "payment_attempt \<Rightarrow> payment_attempt_status \<Rightarrow> 's \<Rightarrow> (core_error, payment_attempt) result \<times> 's"
    and ok :: "'s \<Rightarrow> bool"
  assumes guard_ok: "ok s \<Longrightarrow> guarded a e s = (res, s') \<Longrightarrow> ok s'"
    and guard_row: "ok s \<Longrightarrow> guarded a e s = (res, s') \<Longrightarrow> lookup s r i = Some c \<Longrightarrow>
          \<exists>c'. lookup s' r i = Some c' \<and> same_order c c' \<and>
            (c' = c \<or> pa_realm_id a = r \<and> pa_id a = i \<and> pa_status c = e \<and> pa_status c' = pa_status a)"
    and guard_result: "ok s \<Longrightarrow> guarded a e s = (Inr c, s') \<Longrightarrow>
          lookup s' (pa_realm_id a) (pa_id a) = Some c \<and> pa_status c = pa_status a"
    and guard_error: "ok s \<Longrightarrow> guarded a e s = (Inl err, s') \<Longrightarrow> s' = s"
    and guard_finds: "ok s \<Longrightarrow> guarded a e s = (res, s') \<Longrightarrow> lookup s r i = None \<Longrightarrow> lookup s' r i = None"
begin

text \<open>A write whose expected and written status are related by an order moves every row along it.\<close>

lemma guard_moves:
  assumes "ok s" "guarded a e s = (res, s')" "lookup s r i = Some c"
    and "reflp move" "move e (pa_status a)"
  obtains c' where "lookup s' r i = Some c'" "same_order c c'" "move (pa_status c) (pa_status c')"
  using guard_row[OF assms(1-3)] assms(4,5) by (metis reflpD)

text \<open>The same write run twice: the second run succeeds too and changes no status.\<close>

lemma guard_twice:
  assumes "ok s" "guarded a e s = (Inr c, s')" "guarded a e s' = (res, s'')"
  shows "\<exists>c''. lookup s'' (pa_realm_id a) (pa_id a) = Some c'' \<and> pa_status c'' = pa_status a"
  using guard_result[OF assms(1,2)] guard_row[OF guard_ok[OF assms(1,2)] assms(3)] by metis

end

interpretation pay: attempt_store find_payment_attempt_by_id "update_payment_attempt_with_status_guard env" pay_wf for env
proof unfold_locales
  fix s a e res s' r i c err
  assume wf: "pay_wf s"
  show "pay_wf s'" if "update_payment_attempt_with_status_guard env a e s = (res, s')"
    using guarded_write_wf[OF wf that] .
  show "\<exists>c'. find_payment_attempt_by_id s' r i = Some c' \<and> same_order c c' \<and>
      (c' = c \<or> pa_realm_id a = r \<and> pa_id a = i \<and> pa_status c = e \<and> pa_status c' = pa_status a)"
    if g: "update_payment_attempt_with_status_guard env a e s = (res, s')" and l: "find_payment_attempt_by_id s r i = Some c"
    using wf g
  proof (cases rule: guarded_write_cases)
    case (hit current)
    have f: "find_payment_attempt_by_id s' r i = Some (if c = current then guarded_columns env a c else c)"
      using find_write_row[OF wf _ l] guarded_write_wf[OF wf g] unfolding hit(5) by simp
    show ?thesis
    proof (cases "c = current")
      case True
      with hit(1) l have "pa_realm_id a = r \<and> pa_id a = i" by (simp add: find_attempt_iff[OF wf])
      with f True hit(2) show ?thesis by simp
    qed (use f in simp)
  qed (use l in simp_all)
  show "find_payment_attempt_by_id s' (pa_realm_id a) (pa_id a) = Some c \<and> pa_status c = pa_status a"
    if g: "update_payment_attempt_with_status_guard env a e s = (Inr c, s')"
    using wf g
  proof (cases rule: guarded_write_cases)
    case (hit current)
    with find_write_row[OF wf _ hit(1)] guarded_write_wf[OF wf g] show ?thesis by simp
  qed simp_all
  show "s' = s" if "update_payment_attempt_with_status_guard env a e s = (Inl err, s')"
    using wf that by (cases rule: guarded_write_cases) simp_all
  show "find_payment_attempt_by_id s' r i = None"
    if g: "update_payment_attempt_with_status_guard env a e s = (res, s')" and "find_payment_attempt_by_id s r i = None"
    using wf g
  proof (cases rule: guarded_write_cases)
    case (hit current)
    with that(2) show ?thesis by (auto simp: find_attempt_None_iff write_row_def split: if_splits)
  qed (use that(2) in simp_all)
qed

section \<open>Concurrent requests\<close>

text \<open>
  The database and the guarded writes whose reads have happened.  Any request may read, and any
  pending write may run, at any time.
\<close>

inductive pay_step :: "pay_db \<times> guarded_write list \<Rightarrow> pay_db \<times> guarded_write list \<Rightarrow> bool" where
  cancel_read: "read_cancel env r i u db = Inr w \<Longrightarrow> pay_step (db, ws) (db, w # ws)"
| succeeded_read: "read_succeeded env r i ps tx t db = Inr w \<Longrightarrow> pay_step (db, ws) (db, w # ws)"
| failed_read: "read_failed env r i ps t db = Inr w \<Longrightarrow> pay_step (db, ws) (db, w # ws)"
| recovery_read: "read_failed_for_async_recovery env r i ps t db = Inr w \<Longrightarrow> pay_step (db, ws) (db, w # ws)"
| expire_read: "a \<in> set (list_expired_attempts db before) \<Longrightarrow> can_transition_to (pa_status a) Expired \<Longrightarrow>
    pay_step (db, ws) (db, (a\<lparr>pa_status := Expired, pa_updated_at := env_now (env :: env)\<rparr>, pa_status a) # ws)"
| guarded_write: "w \<in> set ws \<Longrightarrow> update_payment_attempt_with_status_guard env (fst w) (snd w) db = (res, db') \<Longrightarrow>
    pay_step (db, ws) (db', remove1 w ws)"
| create: "create_payment_attempt env input db = (res, db') \<Longrightarrow> pay_step (db, ws) (db', ws)"
| renewal: "record_subscription_renewal_attempt env rin db = (res, db') \<Longrightarrow> pay_step (db, ws) (db', ws)"

definition status_move :: "payment_attempt_status \<Rightarrow> payment_attempt_status \<Rightarrow> bool" where
  "status_move s t \<longleftrightarrow> can_transition_to s t \<or> (can_transition_to_failed_for_async_recovery s \<and> t = Failed)"

lemma status_move_refl: "reflp status_move"
  by (simp add: reflp_def status_move_def can_transition_to_def)

lemma status_move_trans: "status_move s t \<Longrightarrow> status_move t u \<Longrightarrow> status_move s u"
  by (cases s; cases t; cases u)
     (simp_all add: status_move_def can_transition_to_def can_transition_to_failed_for_async_recovery_def)

lemma status_move_terminal:
  "status_move s t \<Longrightarrow> is_terminal s \<Longrightarrow> t = s \<or> s = Succeeded \<and> t = Failed"
  by (cases s; cases t)
     (simp_all add: status_move_def can_transition_to_def can_transition_to_failed_for_async_recovery_def is_terminal_def)

lemma reads_legal:
  "read_cancel env r i u db = Inr w \<Longrightarrow> status_move (snd w) (pa_status (fst w))"
  "read_succeeded env r i ps tx t db = Inr w \<Longrightarrow> status_move (snd w) (pa_status (fst w))"
  "read_failed env r i ps t db = Inr w \<Longrightarrow> status_move (snd w) (pa_status (fst w))"
  "read_failed_for_async_recovery env r i ps t db = Inr w \<Longrightarrow> status_move (snd w) (pa_status (fst w))"
  by (auto simp: read_cancel_def read_succeeded_def read_failed_def read_failed_for_async_recovery_def
      checked_transition_def status_move_def result_simps)

lemma insert_attempt_wf:
  assumes "pay_wf db" "insert_attempt_in_tx env db input st ex co = Inr (a, db1)"
  shows "pay_wf db1" "pay_attempts db1 = pay_attempts db @ [a]" "pay_captured db1 = pay_captured db"
    "pay_rules db1 = pay_rules db" "pa_id a \<notin> pa_id ` set (pay_attempts db)"
proof -
  have a: "attempt_check a" "pa_id a \<notin> pa_id ` set (pay_attempts db)" "\<not> role_conflict (pay_attempts db) a"
    "db1 = db\<lparr>pay_attempts := pay_attempts db @ [a], pay_seq := Suc (pay_seq db)\<rparr>"
    using assms(2) by (auto simp: insert_attempt_in_tx_def Let_def result_simps key_unused_iff)
  then show "pay_attempts db1 = pay_attempts db @ [a]" "pay_captured db1 = pay_captured db"
    "pay_rules db1 = pay_rules db" "pa_id a \<notin> pa_id ` set (pay_attempts db)" by simp_all
  have "role_unique (pay_attempts db @ [a])"
    by (rule role_unique_subset[OF _ a(3)]) (use assms(1) in \<open>simp_all add: pay_wf_def\<close>)
  with a assms(1) show "pay_wf db1" by (auto simp: pay_wf_def)
qed

lemma snapshot_simps [simp]:
  "pay_attempts (snapshot_matched_rules_in_tx db i r m t) = pay_attempts db"
  "pay_rules (snapshot_matched_rules_in_tx db i r m t) = pay_rules db"
  by (simp_all add: snapshot_matched_rules_in_tx_def)

lemma create_attempt_cases:
  assumes "pay_wf db" "create_payment_attempt env input db = (res, db')"
  obtains (failed) e where "res = Inl e" "db' = db"
  | (created) a db1 where "res = Inr a" "insert_attempt_in_tx env db input Pending (env_now env + secs (2 * 3600)) None = Inr (a, db1)"
      "db' = snapshot_matched_rules_in_tx db1 (pa_id a) (ci_realm_id input) (ci_target_id input)
               (trigger_for_billing_type (ci_billing_type input))"
      "pay_wf db'" "pay_attempts db' = pay_attempts db @ [a]" "pa_id a \<notin> pa_id ` set (pay_attempts db)"
proof (cases "insert_attempt_in_tx env db input Pending (env_now env + secs (2 * 3600)) None")
  case (Inl e)
  with assms(2) show thesis by (intro failed[of e]) (simp_all add: create_payment_attempt_def)
next
  case (Inr p)
  obtain a db1 where p: "p = (a, db1)" by (cases p)
  note ins = insert_attempt_wf[OF assms(1) Inr[unfolded p]]
  have wf: "pay_wf (snapshot_matched_rules_in_tx db1 (pa_id a) rid m t)" for rid m t
    using ins(1) unfolding pay_wf_def snapshot_simps
    by (auto simp: ins(2) snapshot_matched_rules_in_tx_def)
  show thesis
    by (rule created[of a db1]) (use assms(2) Inr p ins(2,5) wf in \<open>auto simp: create_payment_attempt_def\<close>)
qed

lemma renewal_cases:
  assumes "pay_wf db" "record_subscription_renewal_attempt env rin db = (res, db')"
  obtains (existing) a where "res = Inr a" "db' = db"
      "find_payment_attempt_by_provider_reference db (ri_payment_provider rin) (ri_provider_reference rin) = Some a"
  | (failed) e where "res = Inl e" "db' = db"
  | (recorded) a where "res = Inr a" "pay_wf db'" "pay_attempts db' = pay_attempts db @ [a]"
      "pa_id a \<notin> pa_id ` set (pay_attempts db)"
      "find_payment_attempt_by_provider_reference db (ri_payment_provider rin) (ri_provider_reference rin) = None"
      "pa_payment_provider a = ri_payment_provider rin" "pa_provider_reference a = Some (ri_provider_reference rin)"
      "pa_status a = Succeeded" "pay_captured db' = pay_captured db"
proof (cases "find_payment_attempt_by_provider_reference db (ri_payment_provider rin) (ri_provider_reference rin)")
  case (Some a)
  with assms(2) show thesis
    by (intro existing[of a]) (simp_all add: record_subscription_renewal_attempt_def)
next
  case None
  show thesis
  proof (cases res)
    case (Inl e)
    with None assms(2) show thesis
      by (intro failed[of e])
         (auto simp: record_subscription_renewal_attempt_def insert_succeeded_renewal_attempt_def split: sum.splits)
  next
    case (Inr a)
    with None assms(2) have i: "insert_attempt_in_tx env db
             \<lparr>ci_realm_id = ri_realm_id rin, ci_user_id = ri_user_id rin,
              ci_payment_provider = ri_payment_provider rin, ci_target_type = ''entitlement_mapping'',
              ci_target_id = ri_target_id rin, ci_billing_type = Recurring, ci_amount = ri_amount rin,
              ci_currency = ri_currency rin, ci_provider_reference = Some (ri_provider_reference rin),
              ci_metadata = None, ci_is_one_time_role = False\<rparr>
             Succeeded (ri_completed_at rin) (Some (ri_completed_at rin)) = Inr (a, db')"
      by (auto simp: record_subscription_renewal_attempt_def insert_succeeded_renewal_attempt_def split: sum.splits)
    then have "pa_payment_provider a = ri_payment_provider rin" "pa_provider_reference a = Some (ri_provider_reference rin)"
      "pa_status a = Succeeded"
      by (auto simp: insert_attempt_in_tx_def Let_def result_simps)
    with None Inr insert_attempt_wf[OF assms(1) i] show thesis by (intro recorded[of a])
  qed
qed

definition pay_inv :: "pay_db \<times> guarded_write list \<Rightarrow> bool" where
  "pay_inv st \<longleftrightarrow> pay_wf (fst st) \<and> (\<forall>w \<in> set (snd st). status_move (snd w) (pa_status (fst w)))"

lemma pay_inv_push:
  "pay_inv (db, ws) \<Longrightarrow> status_move (snd w) (pa_status (fst w)) \<Longrightarrow> pay_inv (db, w # ws)"
  by (simp add: pay_inv_def)

lemma pay_inv_db:
  assumes "pay_inv (db, ws)" "pay_wf db'" "set ws' \<subseteq> set ws"
  shows "pay_inv (db', ws')"
  using assms by (auto simp: pay_inv_def)

text \<open>One step keeps the invariant and moves each row along the status order.\<close>

definition row_moves :: "pay_db \<Rightarrow> pay_db \<Rightarrow> bool" where
  "row_moves db db' \<longleftrightarrow> (\<forall>r i a. find_payment_attempt_by_id db r i = Some a \<longrightarrow>
     (\<exists>a'. find_payment_attempt_by_id db' r i = Some a' \<and> same_order a a' \<and> status_move (pa_status a) (pa_status a')))"

lemma row_moves_refl: "row_moves db db"
  unfolding row_moves_def using status_move_refl by (metis reflpD same_order_refl)

lemma row_moves_trans: "row_moves db db' \<Longrightarrow> row_moves db' db'' \<Longrightarrow> row_moves db db''"
  unfolding row_moves_def by (meson same_order_trans status_move_trans)

lemma row_moves_append:
  assumes "pay_attempts db' = pay_attempts db @ [n]"
  shows "row_moves db db'"
  using status_move_refl unfolding row_moves_def find_payment_attempt_by_id_def assms
  by (auto simp: find_append reflp_def split: option.splits)

lemma row_moves_guarded:
  assumes "pay_wf db" "update_payment_attempt_with_status_guard env a e db = (res, db')" "status_move e (pa_status a)"
  shows "row_moves db db'"
  unfolding row_moves_def using pay.guard_moves[OF assms(1,2) _ status_move_refl assms(3)] by blast

lemma pay_step_inv:
  assumes "pay_step st st'" "pay_inv st"
  shows "pay_inv st' \<and> row_moves (fst st) (fst st')"
  using assms
proof (cases rule: pay_step.cases)
  case (expire_read a db before ws env)
  then have "status_move (pa_status a) Expired" by (simp add: status_move_def)
  with expire_read assms(2) show ?thesis by (simp add: pay_inv_push row_moves_refl)
next
  case (guarded_write w ws env db res db')
  with assms(2) have wf: "pay_wf db" and m: "status_move (snd w) (pa_status (fst w))"
    by (auto simp: pay_inv_def)
  have "pay_inv (db', remove1 w ws)"
    using pay_inv_db[OF _ guarded_write_wf[OF wf guarded_write(4)]] assms(2) guarded_write(1)
    by (simp add: set_remove1_subset)
  with row_moves_guarded[OF wf guarded_write(4) m] guarded_write show ?thesis by simp
next
  case (create env input db res db' ws)
  then have wf: "pay_wf db" using assms(2) by (simp add: pay_inv_def)
  from wf create(3) show ?thesis
    by (cases rule: create_attempt_cases)
       (use create assms(2) in \<open>auto simp: row_moves_refl intro: pay_inv_db row_moves_append\<close>)
next
  case (renewal env rin db res db' ws)
  then have wf: "pay_wf db" using assms(2) by (simp add: pay_inv_def)
  from wf renewal(3) show ?thesis
    by (cases rule: renewal_cases)
       (use renewal assms(2) in \<open>auto simp: row_moves_refl intro: pay_inv_db row_moves_append\<close>)
qed (auto simp: row_moves_refl intro: pay_inv_push reads_legal)

lemma pay_steps_inv:
  assumes "pay_step\<^sup>*\<^sup>* st st'" "pay_inv st"
  shows "pay_inv st' \<and> row_moves (fst st) (fst st')"
  using assms
proof (induction rule: rtranclp_induct)
  case base
  then show ?case by (simp add: row_moves_refl)
next
  case (step y z)
  then show ?case using pay_step_inv[of y z] row_moves_trans by blast
qed

lemma pay_inv_start: "pay_wf db \<Longrightarrow> pay_inv (db, [])"
  by (simp add: pay_inv_def)

text \<open>
  C16.  Whatever requests run concurrently (cancellations, success and failure callbacks, recovery,
  expiry, new attempts, renewals), with their reads and writes interleaved in any order: every
  attempt stays, keeps its order columns, and its status has only moved along the transition
  matrix or by the one recovery move; an attempt that was terminal keeps its status, except that a
  succeeded one may have become failed by recovery.
\<close>

theorem concurrent_statuses_follow_matrix:
  assumes "pay_wf db" "pay_step\<^sup>*\<^sup>* (db, []) (db', ws)" "find_payment_attempt_by_id db r i = Some a"
  shows "\<exists>a'. find_payment_attempt_by_id db' r i = Some a' \<and> same_order a a' \<and>
    (can_transition_to (pa_status a) (pa_status a') \<or>
     can_transition_to_failed_for_async_recovery (pa_status a) \<and> pa_status a' = Failed) \<and>
    (is_terminal (pa_status a) \<longrightarrow> pa_status a' = pa_status a \<or> pa_status a = Succeeded \<and> pa_status a' = Failed)"
proof -
  obtain a' where "find_payment_attempt_by_id db' r i = Some a'" "same_order a a'" "status_move (pa_status a) (pa_status a')"
    using pay_steps_inv[OF assms(2) pay_inv_start[OF assms(1)]] assms(3) unfolding row_moves_def fst_conv by blast
  with status_move_terminal show ?thesis unfolding status_move_def by blast
qed

text \<open>
  C17.  No interleaving lets a user buy a one-time role twice: of all succeeded one-time-role
  attempts of one user for one target there is at most one.
\<close>

theorem one_time_role_bought_once:
  assumes "pay_wf db" "pay_step\<^sup>*\<^sup>* (db, []) (db', ws)"
    and "x \<in> set (pay_attempts db')" "y \<in> set (pay_attempts db')"
    and "pa_status x = Succeeded" "pa_is_one_time_role x" "pa_status y = Succeeded" "pa_is_one_time_role y"
    and "pa_user_id x = pa_user_id y" "pa_target_id x = pa_target_id y"
  shows "x = y"
proof -
  have wf: "pay_wf db'"
    using pay_steps_inv[OF assms(2) pay_inv_start[OF assms(1)]] by (simp add: pay_inv_def)
  with assms(3-) have "pa_id x = pa_id y" unfolding pay_wf_def role_unique_def guarded_role_def by blast
  with wf assms(3,4) show ?thesis unfolding pay_wf_def by (meson distinct_key_unique)
qed

section \<open>Whole requests\<close>

lemma mark_payment_succeeded_run:
  assumes "pay_wf db"
  shows "mark_payment_succeeded env realm_id attempt_id ps tx t db =
    (case find_payment_attempt_by_id db realm_id attempt_id of
       None \<Rightarrow> (Inl NotFound, db)
     | Some a \<Rightarrow>
         (let a' = a\<lparr>pa_status := Succeeded, pa_provider_status := Some ps, pa_provider_reference := Some tx,
                      pa_completed_at := Some t, pa_updated_at := env_sql_now env\<rparr>
          in if pa_status a \<in> {Failed, Cancelled, Expired}
             then (Inl (invalid_status_transition (status_to_string (pa_status a)) ''Succeeded''), db)
             else if role_conflict (pay_attempts db) a' then (Inl (role_index_error ''guarded-update''), db)
             else (Inr a', db\<lparr>pay_attempts := map (\<lambda>x. if x = a then a' else x) (pay_attempts db)\<rparr>)))"
proof (cases "find_payment_attempt_by_id db realm_id attempt_id")
  case None
  then show ?thesis
    by (simp add: mark_payment_succeeded_def then_write_def read_succeeded_def attempt_not_found_def)
next
  case (Some a)
  define n where "n = a\<lparr>pa_status := Succeeded, pa_provider_status := Some ps, pa_provider_reference := Some tx,
                      pa_completed_at := Some t, pa_updated_at := env_now env\<rparr>"
  define a' where "a' = a\<lparr>pa_status := Succeeded, pa_provider_status := Some ps, pa_provider_reference := Some tx,
                      pa_completed_at := Some t, pa_updated_at := env_sql_now env\<rparr>"
  have g: "guarded_columns env n a = a'" by (simp add: guarded_columns_def n_def a'_def)
  have f: "find_payment_attempt_by_id db (pa_realm_id n) (pa_id n) = Some a"
    using Some find_attempt_iff[OF assms] by (simp add: n_def)
  have bad: "can_transition_to (pa_status a) Succeeded \<longleftrightarrow> pa_status a \<notin> {Failed, Cancelled, Expired}"
    by (cases "pa_status a") (simp_all add: can_transition_to_def)
  have str: "status_to_string Succeeded = ''Succeeded''" by (simp add: status_to_string_def)
  have r: "read_succeeded env realm_id attempt_id ps tx t db =
      (if pa_status a \<in> {Failed, Cancelled, Expired}
       then Inl (invalid_status_transition (status_to_string (pa_status a)) ''Succeeded'')
       else Inr (n, pa_status a))"
    by (simp add: read_succeeded_def Some checked_transition_def ensure_def bad n_def str)
  have w: "write_row env n a db = db\<lparr>pay_attempts := map (\<lambda>x. if x = a then a' else x) (pay_attempts db)\<rparr>"
    by (simp add: write_row_def g cong: map_cong if_cong)
  have m: "mark_payment_succeeded env realm_id attempt_id ps tx t db =
      (if pa_status a \<in> {Failed, Cancelled, Expired}
       then (Inl (invalid_status_transition (status_to_string (pa_status a)) ''Succeeded''), db)
       else update_payment_attempt_with_status_guard env n (pa_status a) db)"
    unfolding mark_payment_succeeded_def then_write_def r by simp
  have u: "update_payment_attempt_with_status_guard env n (pa_status a) db =
      (if role_conflict (pay_attempts db) a' then (Inl (role_index_error ''guarded-update''), db)
       else (Inr a', db\<lparr>pay_attempts := map (\<lambda>x. if x = a then a' else x) (pay_attempts db)\<rparr>))"
    using guarded_write_hit(1)[OF assms f refl, of env] f
    by (simp add: g w update_payment_attempt_with_status_guard_def)
  show ?thesis unfolding m u by (simp add: Some a'_def Let_def)
qed

text \<open>
  C18.  The success callback, run on its own: not found without the row, an invalid transition out
  of a failed, cancelled or expired attempt, the unique index's error when the user already owns
  the one-time role, and otherwise exactly the status, provider and completion columns of that one
  row are written.
\<close>

theorem mark_payment_succeeded_spec:
  assumes "pay_wf db"
  shows "mark_payment_succeeded env realm_id attempt_id ps tx t db =
    (case find_payment_attempt_by_id db realm_id attempt_id of
       None \<Rightarrow> (Inl NotFound, db)
     | Some a \<Rightarrow>
         (let a' = a\<lparr>pa_status := Succeeded, pa_provider_status := Some ps, pa_provider_reference := Some tx,
                      pa_completed_at := Some t, pa_updated_at := env_sql_now env\<rparr>
          in if pa_status a \<in> {Failed, Cancelled, Expired}
             then (Inl (invalid_status_transition (status_to_string (pa_status a)) ''Succeeded''), db)
             else if role_conflict (pay_attempts db) a' then (Inl (role_index_error ''guarded-update''), db)
             else (Inr a', db\<lparr>pay_attempts := map (\<lambda>x. if x = a then a' else x) (pay_attempts db)\<rparr>)))"
  by (rule mark_payment_succeeded_run[OF assms])

lemma sort_case_None: "(case sort_key k xs of [] \<Rightarrow> None | x # _ \<Rightarrow> Some x) = None \<Longrightarrow> xs = []"
  by (cases "sort_key k xs") (simp_all, metis length_0_conv length_sort)


section \<open>The expiry sweep\<close>

definition expired_row :: "env \<Rightarrow> payment_attempt \<Rightarrow> payment_attempt" where
  "expired_row env a = a\<lparr>pa_status := Expired, pa_updated_at := env_sql_now env\<rparr>"

lemma expire_write:
  assumes "pay_wf db" "a \<in> set (pay_attempts db)" "pa_status a = Pending"
  shows "update_payment_attempt_with_status_guard env (a\<lparr>pa_status := Expired, pa_updated_at := env_now env\<rparr>) Pending db =
      (Inr (expired_row env a), write_row env (a\<lparr>pa_status := Expired, pa_updated_at := env_now env\<rparr>) a db)"
    and "pay_wf (write_row env (a\<lparr>pa_status := Expired, pa_updated_at := env_now env\<rparr>) a db)"
    and "pay_attempts (write_row env (a\<lparr>pa_status := Expired, pa_updated_at := env_now env\<rparr>) a db) =
      map (\<lambda>x. if x = a then expired_row env x else x) (pay_attempts db)"
proof -
  let ?n = "a\<lparr>pa_status := Expired, pa_updated_at := env_now env\<rparr>"
  have g: "guarded_columns env ?n a = expired_row env a" by (simp add: guarded_columns_def expired_row_def)
  have f: "find_payment_attempt_by_id db (pa_realm_id ?n) (pa_id ?n) = Some a"
    using assms(2) by (simp add: find_attempt_iff[OF assms(1)])
  have c: "\<not> role_conflict (pay_attempts db) (guarded_columns env ?n a)"
    by (simp add: g expired_row_def role_conflict_def guarded_role_def)
  show "update_payment_attempt_with_status_guard env ?n Pending db = (Inr (expired_row env a), write_row env ?n a db)"
    "pay_wf (write_row env ?n a db)"
    using guarded_write_hit[OF assms(1) f assms(3) c] by (simp_all add: g)
  show "pay_attempts (write_row env ?n a db) = map (\<lambda>x. if x = a then expired_row env x else x) (pay_attempts db)"
    by (simp add: write_row_def g cong: map_cong if_cong)
qed

lemma expire_loop_run:
  assumes "pay_wf db" "distinct ls" "\<forall>a \<in> set ls. a \<in> set (pay_attempts db) \<and> pa_status a = Pending"
  shows "expire_loop env ls us db = (us @ map (expired_row env) ls,
    db\<lparr>pay_attempts := map (\<lambda>x. if x \<in> set ls then expired_row env x else x) (pay_attempts db)\<rparr>)"
  using assms
proof (induction ls arbitrary: us db)
  case Nil
  then show ?case by simp
next
  case (Cons a ls)
  let ?n = "a\<lparr>pa_status := Expired, pa_updated_at := env_now env\<rparr>"
  let ?db = "write_row env ?n a db"
  have a: "a \<in> set (pay_attempts db)" "pa_status a = Pending" "a \<notin> set ls" using Cons.prems by auto
  note w = expire_write[OF Cons.prems(1) a(1,2), of env]
  have "\<forall>b \<in> set ls. b \<in> set (pay_attempts ?db) \<and> pa_status b = Pending"
  proof
    fix b
    assume b: "b \<in> set ls"
    then have "b \<noteq> a" "b \<in> set (pay_attempts db)" "pa_status b = Pending" using Cons.prems a(3) by auto
    then show "b \<in> set (pay_attempts ?db) \<and> pa_status b = Pending"
      unfolding w(3) by (simp add: image_iff)
  qed
  note ih = Cons.IH[OF w(2) _ this, of "us @ [expired_row env a]"]
  have step: "expire_loop env (a # ls) us db = expire_loop env ls (us @ [expired_row env a]) ?db"
    using a(2) by (simp add: can_transition_to_def w(1))
  have new: "expired_row env a \<notin> set ls"
    using Cons.prems(3) by (force simp: expired_row_def)
  have "?db\<lparr>pay_attempts := map (\<lambda>x. if x \<in> set ls then expired_row env x else x) (pay_attempts ?db)\<rparr> =
      db\<lparr>pay_attempts := map (\<lambda>x. if x \<in> set (a # ls) then expired_row env x else x) (pay_attempts db)\<rparr>"
    unfolding w(3) by (simp add: write_row_def new)
  with ih Cons.prems(2) step show ?case by simp
qed

text \<open>
  C20.  The expiry sweep always returns; it turns exactly the pending attempts whose deadline has
  passed into expired ones, leaves every other row as it is, and returns the rows it changed.
\<close>

theorem mark_expired_attempts_exact:
  assumes "pay_wf db"
  shows "mark_expired_attempts env before db =
    (Inr (map (\<lambda>a. a\<lparr>pa_status := Expired, pa_updated_at := env_sql_now env\<rparr>) (list_expired_attempts db before)),
     db\<lparr>pay_attempts := map (\<lambda>a. if pa_expires_at a < before \<and> pa_status a = Pending
          then a\<lparr>pa_status := Expired, pa_updated_at := env_sql_now env\<rparr> else a) (pay_attempts db)\<rparr>)"
proof -
  have "distinct (list_expired_attempts db before)"
    using assms by (simp add: pay_wf_def list_expired_attempts_def distinct_map)
  moreover have "\<forall>a \<in> set (list_expired_attempts db before). a \<in> set (pay_attempts db) \<and> pa_status a = Pending"
    by (simp add: list_expired_attempts_def)
  ultimately have "expire_loop env (list_expired_attempts db before) [] db =
    (map (expired_row env) (list_expired_attempts db before),
     db\<lparr>pay_attempts := map (\<lambda>x. if x \<in> set (list_expired_attempts db before) then expired_row env x else x) (pay_attempts db)\<rparr>)"
    using expire_loop_run[OF assms, of _ env "[]"] by simp
  then show ?thesis
    by (simp add: mark_expired_attempts_def expired_row_def[abs_def] list_expired_attempts_def cong: map_cong)
qed

section \<open>The rule snapshot\<close>

definition matched_rules :: "pay_db \<Rightarrow> string \<Rightarrow> uuid \<Rightarrow> string \<Rightarrow> rule_row list" where
  "matched_rules db realm_id mapping_id trigger =
     sort_key (\<lambda>r. (rule_display_order r, rule_id r))
       (filter (\<lambda>r. rule_realm_id r = realm_id \<and> rule_mapping_id r = Some mapping_id \<and>
                    rule_enabled r \<and> trigger \<in> set (rule_trigger_sources r)) (pay_rules db))"

definition captures :: "uuid \<Rightarrow> rule_row \<Rightarrow> captured_rule" where
  "captures attempt_id r = \<lparr>cap_attempt_id = attempt_id, cap_rule_id = rule_id r, cap_bucket_id = rule_bucket_id r\<rparr>"

lemma snapshot_captured:
  "pay_captured (snapshot_matched_rules_in_tx db i realm m t) = pay_captured db @ map (captures i) (matched_rules db realm m t)"
  by (simp add: snapshot_matched_rules_in_tx_def matched_rules_def captures_def[abs_def])

lemma captured_join:
  assumes "distinct (map rule_id rs)" "set xs \<subseteq> set rs" "\<forall>r \<in> set xs. rule_realm_id r = realm"
    and g: "\<And>r. rule_id (g r) = rule_id r" "\<And>r. rule_realm_id (g r) = rule_realm_id r"
  shows "filter (\<lambda>(s, r). cap_attempt_id s = i \<and> rule_id r = cap_rule_id s \<and> rule_realm_id r = realm)
      (List.product (map (captures i) xs) (map g rs)) = map (\<lambda>r. (captures i r, g r)) xs"
  using assms(2,3)
proof (induction xs)
  case Nil
  then show ?case by simp
next
  case (Cons x xs)
  then have x: "x \<in> set rs" "rule_realm_id x = realm" by simp_all
  have "filter (\<lambda>r. rule_id r = rule_id x \<and> rule_realm_id r = realm) rs =
      filter (\<lambda>r. rule_realm_id r = realm) (filter (\<lambda>r. rule_id r = rule_id x) rs)"
    by (simp add: conj_commute)
  also have "\<dots> = [x]" using filter_key_single[OF assms(1) x(1)] x(2) by simp
  finally show ?case
    using Cons by (simp add: filter_map comp_def g captures_def)
qed


section \<open>Concrete runs\<close>

definition demo_attempt :: "uuid \<Rightarrow> payment_attempt_status \<Rightarrow> instant \<Rightarrow> payment_attempt" where
  "demo_attempt i st expires = \<lparr>pa_id = i, pa_realm_id = ''r'', pa_user_id = 7, pa_payment_provider = ''stripe'',
     pa_target_type = EntitlementMapping, pa_target_id = 5, pa_amount = 990, pa_currency = ''EUR'', pa_status = st,
     pa_is_one_time_role = True, pa_provider_reference = Some ''cs_1'', pa_provider_status = None,
     pa_metadata = None, pa_expires_at = expires, pa_completed_at = None, pa_created_at = 0, pa_updated_at = 0\<rparr>"

definition demo_rule :: "uuid \<Rightarrow> int \<Rightarrow> bool \<Rightarrow> rule_row" where
  "demo_rule i ord en = \<lparr>rule_id = i, rule_realm_id = ''r'', rule_mapping_id = Some 5, rule_bucket_id = 100 + i,
     rule_enabled = en, rule_trigger_sources = [''topup''], rule_display_order = ord\<rparr>"

definition demo_pay :: pay_db where
  "demo_pay = \<lparr>pay_attempts = [demo_attempt 1 Pending 10, demo_attempt 2 Pending (secs 9000), demo_attempt 3 Failed 10],
     pay_rules = [demo_rule 61 2 True, demo_rule 62 1 True, demo_rule 63 0 False], pay_captured = [], pay_seq = 0\<rparr>"

definition demo_input :: create_attempt_input where
  "demo_input = \<lparr>ci_realm_id = ''r'', ci_user_id = 8, ci_payment_provider = ''creem'', ci_target_type = ''entitlement_mapping'',
     ci_target_id = 5, ci_billing_type = OneTime, ci_amount = 100, ci_currency = ''EUR'', ci_provider_reference = None,
     ci_metadata = None, ci_is_one_time_role = False\<rparr>"

definition demo_renewal :: renewal_attempt_input where
  "demo_renewal = \<lparr>ri_realm_id = ''r'', ri_user_id = 8, ri_payment_provider = ''stripe'', ri_target_id = 5,
     ri_amount = 100, ri_currency = ''EUR'', ri_provider_reference = ''in_9'', ri_completed_at = secs 50\<rparr>"

lemmas demo_pay_defs = demo_pay_def demo_attempt_def demo_rule_def demo_input_def demo_renewal_def

lemma demo_pay_wf: "pay_wf demo_pay"
  by (simp add: pay_wf_def role_unique_def guarded_role_def attempt_check_def demo_pay_defs)

text \<open>
  A cancellation and a success callback read the same pending attempt; the success is written
  first, so the guard refuses the cancellation.
\<close>

definition raced_cancel :: guarded_write where
  "raced_cancel = projr (read_cancel demo_env ''r'' 1 7 demo_pay)"

definition raced_success :: guarded_write where
  "raced_success = projr (read_succeeded demo_env ''r'' 1 ''paid'' ''pi_1'' (secs 60) demo_pay)"

definition raced_db :: pay_db where
  "raced_db = snd (update_payment_attempt_with_status_guard demo_env (fst raced_success) (snd raced_success) demo_pay)"

lemma demo_race: "pay_step\<^sup>*\<^sup>* (demo_pay, []) (raced_db, [])"
proof -
  have c: "read_cancel demo_env ''r'' 1 7 demo_pay = Inr raced_cancel" unfolding raced_cancel_def by code_simp
  have s: "read_succeeded demo_env ''r'' 1 ''paid'' ''pi_1'' (secs 60) demo_pay = Inr raced_success"
    unfolding raced_success_def by code_simp
  have d: "raced_success \<noteq> raced_cancel" by code_simp
  have "pay_step (demo_pay, []) (demo_pay, [raced_cancel])" by (rule pay_step.cancel_read[OF c])
  moreover have "pay_step (demo_pay, [raced_cancel]) (demo_pay, [raced_success, raced_cancel])"
    by (rule pay_step.succeeded_read[OF s])
  moreover have "pay_step (demo_pay, [raced_success, raced_cancel]) (raced_db, remove1 raced_success [raced_success, raced_cancel])"
    by (rule pay_step.guarded_write[of _ _ demo_env _ "fst (update_payment_attempt_with_status_guard demo_env
          (fst raced_success) (snd raced_success) demo_pay)"]) (simp_all add: raced_db_def)
  moreover have "snd (update_payment_attempt_with_status_guard demo_env (fst raced_cancel) (snd raced_cancel) raced_db) = raced_db"
    by code_simp
  then have "pay_step (raced_db, [raced_cancel]) (raced_db, remove1 raced_cancel [raced_cancel])"
    by (intro pay_step.guarded_write[of _ _ demo_env _ "fst (update_payment_attempt_with_status_guard demo_env
          (fst raced_cancel) (snd raced_cancel) raced_db)"]) (simp_all add: prod_eq_iff)
  ultimately show ?thesis
    using d by (simp add: rtranclp.rtrancl_into_rtrancl[OF rtranclp.rtrancl_into_rtrancl[OF rtranclp.rtrancl_into_rtrancl[OF r_into_rtranclp]]])
qed

lemma concurrent_statuses_follow_matrix_witness:
  "\<exists>a'. find_payment_attempt_by_id raced_db ''r'' 3 = Some a' \<and> pa_status a' = Failed"
proof -
  have f: "find_payment_attempt_by_id demo_pay ''r'' 3 = Some (demo_attempt 3 Failed 10)" by code_simp
  show ?thesis
    using concurrent_statuses_follow_matrix[OF demo_pay_wf demo_race f]
    by (auto simp: demo_attempt_def is_terminal_def)
qed

lemma one_time_role_bought_once_witness:
  "guarded_role (hd (pay_attempts raced_db)) \<and>
   hd (filter guarded_role (pay_attempts raced_db)) = hd (pay_attempts raced_db)"
proof -
  have "guarded_role (hd (pay_attempts raced_db))" by code_simp
  moreover have "hd (filter guarded_role (pay_attempts raced_db)) = hd (pay_attempts raced_db)"
    by (rule one_time_role_bought_once[OF demo_pay_wf demo_race]) code_simp+
  ultimately show ?thesis ..
qed

lemma mark_payment_succeeded_spec_witness:
  "fst (mark_payment_succeeded demo_env ''r'' 3 ''paid'' ''pi_1'' 60 demo_pay) =
     Inl (invalid_status_transition ''Failed'' ''Succeeded'') \<and>
   fst (mark_payment_succeeded demo_env ''r'' 4 ''paid'' ''pi_1'' 60 demo_pay) = Inl NotFound"
  unfolding mark_payment_succeeded_spec[OF demo_pay_wf] by code_simp


lemma mark_expired_attempts_exact_witness:
  "map pa_status (pay_attempts (snd (mark_expired_attempts demo_env 11 demo_pay))) = [Expired, Pending, Failed]"
  unfolding mark_expired_attempts_exact[OF demo_pay_wf] by code_simp


text \<open>
  The update of the provider reference is not guarded: it writes back the whole row it read.  When
  a success callback is handled between its read and its write, the attempt is pending again and
  the completion time is lost.
\<close>

lemma provider_reference_reverts_success:
  "(case read_provider_reference demo_env ''r'' 1 (Some ''cs_2'') demo_pay of
      Inl e \<Rightarrow> None
    | Inr stale \<Rightarrow> map_option (\<lambda>a. (pa_status a, pa_completed_at a))
        (find_payment_attempt_by_id (snd (update_payment_attempt demo_env stale raced_db)) ''r'' 1)) = Some (Pending, None) \<and>
   map_option pa_status (find_payment_attempt_by_id raced_db ''r'' 1) = Some Succeeded"
  by code_simp

end
