(* ===== verification/Idempotency.thy ===== *)
theory Idempotency
  imports PointsTables
begin

text \<open>
  Idempotency keys in Redis: the store of \<open>infra/src/points/redis_idempotency_store.rs\<close> with
  its two Lua functions, and the service of \<open>domain/src/points/idempotency_service.rs\<close> that
  classifies a request as new, cached or in conflict.  Redis is a map from keys to values with a
  deadline; each call to the store happens at an instant and may fail to reach Redis.  The JSON
  codec of transactions is a parameter.
\<close>

section \<open>Redis\<close>

type_synonym redis = "string \<Rightarrow> (string \<times> instant) option"

record store_call =
  call_up :: bool
  call_now :: instant

definition redis_get :: "instant \<Rightarrow> redis \<Rightarrow> string \<Rightarrow> string option" where
  "redis_get now st k = (case st k of
       None \<Rightarrow> None
     | Some (v, deadline) \<Rightarrow> if now < deadline then Some v else None)"

definition redis_setex :: "instant \<Rightarrow> string \<Rightarrow> int \<Rightarrow> string \<Rightarrow> redis \<Rightarrow> redis" where
  "redis_setex now k ttl v st = st(k \<mapsto> (v, now + secs ttl))"

definition idempotency_ttl :: int where
  "idempotency_ttl = 24 * 60 * 60"

definition lock_ttl :: int where
  "lock_ttl = 60"

text \<open>The two functions of the Lua library; each is one atomic \<open>FCALL\<close>.\<close>

definition idempotency_acquire_lock ::
  "instant \<Rightarrow> string \<Rightarrow> string \<Rightarrow> string \<Rightarrow> int \<Rightarrow> int \<Rightarrow> string \<Rightarrow> redis \<Rightarrow> int \<times> redis" where
  "idempotency_acquire_lock now key1 key2 arg1 arg2 arg3 arg4 st =
     (if redis_get now st key1 = None
      then (1, redis_setex now key2 arg3 arg4 (redis_setex now key1 arg2 arg1 st))
      else (0, st))"

definition idempotency_claim_failed_retry ::
  "instant \<Rightarrow> string \<Rightarrow> int \<Rightarrow> string \<Rightarrow> string \<Rightarrow> redis \<Rightarrow> int \<times> redis" where
  "idempotency_claim_failed_retry now key1 arg1 arg2 arg3 st =
     (if redis_get now st key1 = Some arg2
      then (1, redis_setex now key1 arg1 arg3 st)
      else (0, st))"

section \<open>The store\<close>

record json_codec =
  to_json :: "points_transaction \<Rightarrow> string option"
  from_json :: "string \<Rightarrow> points_transaction option"

definition status_key :: "string \<Rightarrow> string" where
  "status_key cache_key = cache_key @ '':status''"

definition no_connection :: core_error where
  "no_connection = DatabaseError ''Failed to get Redis connection''"

definition get_from_cache :: "json_codec \<Rightarrow> store_call \<Rightarrow> string \<Rightarrow> redis \<Rightarrow> points_transaction option" where
  "get_from_cache codec c cache_key st =
     (if call_up c then Option.bind (redis_get (call_now c) st cache_key) (from_json codec) else None)"

definition get_status_from_cache :: "store_call \<Rightarrow> string \<Rightarrow> redis \<Rightarrow> idempotency_status option" where
  "get_status_from_cache c cache_key st =
     (if call_up c
      then Option.bind (redis_get (call_now c) st (status_key cache_key))
             (\<lambda>s. case idempotency_status_from_str s of Inl _ \<Rightarrow> None | Inr x \<Rightarrow> Some x)
      else None)"

definition try_create_lock :: "store_call \<Rightarrow> string \<Rightarrow> string \<Rightarrow> redis \<Rightarrow> (core_error, bool) result \<times> redis" where
  "try_create_lock c cache_key request_data st =
     (if \<not> call_up c then (Inl no_connection, st)
      else let (r, st') = idempotency_acquire_lock (call_now c) cache_key (status_key cache_key) request_data
                            idempotency_ttl lock_ttl (idempotency_status_as_str IdemProcessing) st
           in (Inr (r = 1), st'))"

definition claim_failed_for_retry :: "store_call \<Rightarrow> string \<Rightarrow> redis \<Rightarrow> (core_error, bool) result \<times> redis" where
  "claim_failed_for_retry c cache_key st =
     (if \<not> call_up c then (Inl no_connection, st)
      else let (r, st') = idempotency_claim_failed_retry (call_now c) (status_key cache_key) lock_ttl
                            (idempotency_status_as_str IdemFailed) (idempotency_status_as_str IdemProcessing) st
           in (Inr (r = 1), st'))"

text \<open>
  The result is written in two commands, and the connection may break after the first: the second
  call says whether the status is written too.
\<close>

definition save_to_cache ::
  "json_codec \<Rightarrow> store_call \<Rightarrow> store_call \<Rightarrow> string \<Rightarrow> points_transaction \<Rightarrow> redis \<Rightarrow> (core_error, unit) result \<times> redis" where
  "save_to_cache codec c c' cache_key transaction st =
     (if \<not> call_up c then (Inl no_connection, st)
      else case to_json codec transaction of
             None \<Rightarrow> (Inl (BadRequest ''Failed to serialize transaction''), st)
           | Some data \<Rightarrow>
               (let st' = redis_setex (call_now c) cache_key idempotency_ttl data st
                in if \<not> call_up c' then (Inl (DatabaseError ''Failed to update status''), st')
                   else (Inr (), redis_setex (call_now c') (status_key cache_key) idempotency_ttl
                                   (idempotency_status_as_str IdemCompleted) st')))"

definition store_mark_failed :: "store_call \<Rightarrow> string \<Rightarrow> redis \<Rightarrow> (core_error, unit) result \<times> redis" where
  "store_mark_failed c cache_key st =
     (if \<not> call_up c then (Inl no_connection, st)
      else (Inr (), redis_setex (call_now c) (status_key cache_key) idempotency_ttl
                      (idempotency_status_as_str IdemFailed) st))"

section \<open>The service\<close>

datatype idempotency_result = IdemNew | IdemCached points_transaction

definition idempotency_record_key :: "string \<Rightarrow> string \<Rightarrow> string" where
  "idempotency_record_key scope idempotency_key = ''idempotency:'' @ scope @ '':'' @ idempotency_key"

definition unknown_outcome :: core_error where
  "unknown_outcome = Conflict ''Prior request under this idempotency key has an unknown outcome''"

text \<open>The calls a request makes to the store are numbered in program order.\<close>

definition check_or_create ::
  "json_codec \<Rightarrow> (nat \<Rightarrow> store_call) \<Rightarrow> string \<Rightarrow> string \<Rightarrow> string \<Rightarrow> redis \<Rightarrow> (core_error, idempotency_result) result \<times> redis" where
  "check_or_create codec calls realm_id idempotency_key request_data st =
     (let cache_key = idempotency_record_key realm_id idempotency_key in
      case get_from_cache codec (calls 0) cache_key st of
        Some transaction \<Rightarrow> (Inr (IdemCached transaction), st)
      | None \<Rightarrow>
          (case try_create_lock (calls 1) cache_key request_data st of
             (Inr True, st1) \<Rightarrow> (Inr IdemNew, st1)
           | (Inr False, st1) \<Rightarrow>
               (case get_status_from_cache (calls 2) cache_key st1 of
                  Some IdemProcessing \<Rightarrow> (Inl idempotency_processing, st1)
                | Some IdemFailed \<Rightarrow>
                    (case claim_failed_for_retry (calls 3) cache_key st1 of
                       (Inr True, st2) \<Rightarrow> (Inr IdemNew, st2)
                     | (Inr False, st2) \<Rightarrow>
                         (case get_status_from_cache (calls 4) cache_key st2 of
                            Some IdemProcessing \<Rightarrow> (Inl idempotency_processing, st2)
                          | _ \<Rightarrow> (Inl unknown_outcome, st2))
                     | (Inl _, st2) \<Rightarrow> (Inl unknown_outcome, st2))
                | _ \<Rightarrow> (Inl unknown_outcome, st1))
           | (Inl _, st1) \<Rightarrow> (Inr IdemNew, st1)))"

definition save_result ::
  "json_codec \<Rightarrow> store_call \<Rightarrow> store_call \<Rightarrow> string \<Rightarrow> string \<Rightarrow> points_transaction \<Rightarrow> redis \<Rightarrow> (core_error, unit) result \<times> redis" where
  "save_result codec c c' realm_id idempotency_key transaction st =
     save_to_cache codec c c' (idempotency_record_key realm_id idempotency_key) transaction st"

definition mark_failed :: "store_call \<Rightarrow> string \<Rightarrow> string \<Rightarrow> redis \<Rightarrow> (core_error, unit) result \<times> redis" where
  "mark_failed c realm_id idempotency_key st =
     store_mark_failed c (idempotency_record_key realm_id idempotency_key) st"

section \<open>A request as a sequence of store calls\<close>

text \<open>
  Requests under one key run concurrently, and only their calls to the store are atomic.  A request
  is at one of five calls or done.
\<close>

datatype req_pc = AtCache | AtLock | AtStatus | AtClaim | AtReread
  | ReqDone "(core_error, idempotency_result) result"

fun req_call :: "json_codec \<Rightarrow> store_call \<Rightarrow> string \<Rightarrow> string \<Rightarrow> req_pc \<Rightarrow> redis \<Rightarrow> req_pc \<times> redis" where
  "req_call codec c k data AtCache st = (case get_from_cache codec c k st of
       Some t \<Rightarrow> (ReqDone (Inr (IdemCached t)), st)
     | None \<Rightarrow> (AtLock, st))"
| "req_call codec c k data AtLock st = (case try_create_lock c k data st of
       (Inr True, st') \<Rightarrow> (ReqDone (Inr IdemNew), st')
     | (Inr False, st') \<Rightarrow> (AtStatus, st')
     | (Inl _, st') \<Rightarrow> (ReqDone (Inr IdemNew), st'))"
| "req_call codec c k data AtStatus st = (case get_status_from_cache c k st of
       Some IdemProcessing \<Rightarrow> (ReqDone (Inl idempotency_processing), st)
     | Some IdemFailed \<Rightarrow> (AtClaim, st)
     | _ \<Rightarrow> (ReqDone (Inl unknown_outcome), st))"
| "req_call codec c k data AtClaim st = (case claim_failed_for_retry c k st of
       (Inr True, st') \<Rightarrow> (ReqDone (Inr IdemNew), st')
     | (Inr False, st') \<Rightarrow> (AtReread, st')
     | (Inl _, st') \<Rightarrow> (ReqDone (Inl unknown_outcome), st'))"
| "req_call codec c k data AtReread st = (case get_status_from_cache c k st of
       Some IdemProcessing \<Rightarrow> (ReqDone (Inl idempotency_processing), st)
     | _ \<Rightarrow> (ReqDone (Inl unknown_outcome), st))"
| "req_call codec c k data (ReqDone r) st = (ReqDone r, st)"

fun req_run :: "json_codec \<Rightarrow> (nat \<Rightarrow> store_call) \<Rightarrow> string \<Rightarrow> string \<Rightarrow> nat \<Rightarrow> req_pc \<times> redis \<Rightarrow> req_pc \<times> redis" where
  "req_run codec calls k data 0 s = s"
| "req_run codec calls k data (Suc n) s =
     (let (pc, st) = req_run codec calls k data n s in req_call codec (calls n) k data pc st)"

end
