(* ===== verification/IdempotencyProps.thy ===== *)
theory IdempotencyProps
  imports Idempotency PointsDemo
begin

text \<open>
  Correctness of the idempotency keys: the sequential service is the run of its store calls, of all
  requests racing under one key at most one is told to execute per recorded failure, and a saved
  result is what every later request gets.  The contract the at-most-once argument needs is a
  locale, interpreted on the Redis store.
\<close>


section \<open>The contract\<close>

locale one_shot =
  fixes ok taken failed :: "'s \<Rightarrow> bool" and lock claim :: "'s \<Rightarrow> bool \<times> 's" and quiet fails :: "'s \<Rightarrow> 's \<Rightarrow> bool"
  assumes lock: "ok s \<Longrightarrow> lock s = (b, s') \<Longrightarrow>
        ok s' \<and> taken s' \<and> b = (\<not> taken s) \<and> (failed s' \<longrightarrow> \<not> b \<and> failed s)"
    and claim: "ok s \<Longrightarrow> taken s \<Longrightarrow> claim s = (b, s') \<Longrightarrow> ok s' \<and> taken s' \<and> b = failed s \<and> \<not> failed s'"
    and quiet: "ok s \<Longrightarrow> quiet s s' \<Longrightarrow> ok s' \<and> (taken s \<longrightarrow> taken s') \<and> (failed s' \<longrightarrow> failed s)"
    and fails: "ok s \<Longrightarrow> fails s s' \<Longrightarrow> ok s' \<and> (taken s \<longrightarrow> taken s')"
begin

text \<open>How many more requests may be told to execute before the next failure.\<close>

definition tokens :: "'s \<Rightarrow> nat" where
  "tokens s = (if taken s \<and> \<not> failed s then 0 else 1)"

lemma tokens_lock: "ok s \<Longrightarrow> lock s = (b, s') \<Longrightarrow> tokens s' + (if b then 1 else 0) \<le> tokens s"
  using lock[of s b s'] by (auto simp: tokens_def)

lemma tokens_claim: "ok s \<Longrightarrow> taken s \<Longrightarrow> claim s = (b, s') \<Longrightarrow> tokens s' + (if b then 1 else 0) \<le> tokens s"
  using claim[of s b s'] by (simp add: tokens_def)

lemma tokens_quiet: "ok s \<Longrightarrow> quiet s s' \<Longrightarrow> tokens s' \<le> tokens s"
  using quiet[of s s'] by (simp add: tokens_def)

lemma tokens_fails: "tokens s' \<le> Suc (tokens s)"
  by (simp add: tokens_def)

end

section \<open>The Redis store keeps it\<close>

text \<open>
  Within a day of \<open>start\<close> the record of a key is either dead or outlives the day.
\<close>

definition day_end :: "instant \<Rightarrow> instant" where
  "day_end start = start + secs idempotency_ttl"

definition rec_ok :: "instant \<Rightarrow> string \<Rightarrow> instant \<times> redis \<Rightarrow> bool" where
  "rec_ok start k s \<longleftrightarrow> start \<le> fst s \<and> fst s < day_end start \<and>
     (case snd s k of None \<Rightarrow> True | Some (v, d) \<Rightarrow> d \<le> start \<or> day_end start \<le> d)"

definition rec_taken :: "instant \<Rightarrow> string \<Rightarrow> instant \<times> redis \<Rightarrow> bool" where
  "rec_taken start k s \<longleftrightarrow> (case snd s k of None \<Rightarrow> False | Some (v, d) \<Rightarrow> day_end start \<le> d)"

definition rec_failed :: "string \<Rightarrow> instant \<times> redis \<Rightarrow> bool" where
  "rec_failed k s \<longleftrightarrow> redis_get (fst s) (snd s) (status_key k) = Some ''failed''"

definition lock_at :: "string \<Rightarrow> string \<Rightarrow> instant \<times> redis \<Rightarrow> bool \<times> (instant \<times> redis)" where
  "lock_at k data s = (let (r, st) = try_create_lock \<lparr>call_up = True, call_now = fst s\<rparr> k data (snd s)
     in (r = Inr True, (fst s, st)))"

definition claim_at :: "string \<Rightarrow> instant \<times> redis \<Rightarrow> bool \<times> (instant \<times> redis)" where
  "claim_at k s = (let (r, st) = claim_failed_for_retry \<lparr>call_up = True, call_now = fst s\<rparr> k (snd s)
     in (r = Inr True, (fst s, st)))"

text \<open>
  The other changes: time passing within the day, saving a result (wholly or in part), and
  anything that leaves the two entries of the key alone.
\<close>

definition quiet_at :: "instant \<Rightarrow> string \<Rightarrow> instant \<times> redis \<Rightarrow> instant \<times> redis \<Rightarrow> bool" where
  "quiet_at start k s s' \<longleftrightarrow>
     (fst s \<le> fst s' \<and> fst s' < day_end start \<and> snd s' k = snd s k \<and> snd s' (status_key k) = snd s (status_key k)) \<or>
     (\<exists>codec c c' t. call_now c = fst s \<and> call_now c' = fst s \<and>
        s' = (fst s, snd (save_to_cache codec c c' k t (snd s))))"

definition fails_at :: "string \<Rightarrow> instant \<times> redis \<Rightarrow> instant \<times> redis \<Rightarrow> bool" where
  "fails_at k s s' \<longleftrightarrow> (\<exists>c. call_now c = fst s \<and> s' = (fst s, snd (store_mark_failed c k (snd s))))"

lemma status_key_neq [simp]: "status_key k \<noteq> k" "k \<noteq> status_key k"
  by (simp_all add: status_key_def)

lemma day_end_gt: "start < day_end start"
  by (simp add: day_end_def idempotency_ttl_def)

lemma rec_get_None_iff: "rec_ok start k s \<Longrightarrow> redis_get (fst s) (snd s) k = None \<longleftrightarrow> \<not> rec_taken start k s"
  by (auto simp: rec_ok_def rec_taken_def redis_get_def split: option.splits)

lemmas idem_defs = redis_setex_def idempotency_status_as_str_def lock_ttl_def

interpretation idem: one_shot "rec_ok start k" "rec_taken start k" "rec_failed k" "lock_at k data" "claim_at k"
  "quiet_at start k" "fails_at k" for start k data
proof unfold_locales
  fix s s' :: "instant \<times> redis" and b
  assume ok: "rec_ok start k s"
  show "rec_ok start k s' \<and> rec_taken start k s' \<and> b = (\<not> rec_taken start k s) \<and>
      (rec_failed k s' \<longrightarrow> \<not> b \<and> rec_failed k s)"
    if "lock_at k data s = (b, s')"
  proof (cases "rec_taken start k s")
    case True
    with that ok show ?thesis
      by (simp add: lock_at_def try_create_lock_def idempotency_acquire_lock_def rec_get_None_iff[OF ok])
  next
    case False
    with that have "b \<and> s' = (fst s, (snd s)(k \<mapsto> (data, fst s + secs idempotency_ttl),
        status_key k \<mapsto> (''processing'', fst s + secs 60)))"
      by (auto simp: lock_at_def try_create_lock_def idempotency_acquire_lock_def rec_get_None_iff[OF ok] idem_defs)
    with ok False show ?thesis
      by (simp add: rec_ok_def rec_taken_def rec_failed_def redis_get_def day_end_def)
  qed
  show "rec_ok start k s' \<and> rec_taken start k s' \<and> b = rec_failed k s \<and> \<not> rec_failed k s'"
    if "rec_taken start k s" "claim_at k s = (b, s')"
  proof (cases "rec_failed k s")
    case True
    then have g: "redis_get (fst s) (snd s) (status_key k) = Some ''failed''" by (simp add: rec_failed_def)
    from that(2) have "b \<and> s' = (fst s, (snd s)(status_key k \<mapsto> (''processing'', fst s + secs 60)))"
      by (auto simp: claim_at_def claim_failed_for_retry_def idempotency_claim_failed_retry_def g idem_defs)
    with ok that(1) True show ?thesis
      by (simp add: rec_ok_def rec_taken_def rec_failed_def redis_get_def)
  next
    case False
    then have "redis_get (fst s) (snd s) (status_key k) \<noteq> Some ''failed''" by (simp add: rec_failed_def)
    with that(2) have "\<not> b \<and> s' = s"
      by (simp add: claim_at_def claim_failed_for_retry_def idempotency_claim_failed_retry_def idem_defs)
    with ok that(1) False show ?thesis by simp
  qed
  show "rec_ok start k s' \<and> (rec_taken start k s \<longrightarrow> rec_taken start k s') \<and> (rec_failed k s' \<longrightarrow> rec_failed k s)"
    if "quiet_at start k s s'"
    using that unfolding quiet_at_def
  proof (elim disjE exE conjE)
    assume "fst s \<le> fst s'" "fst s' < day_end start" "snd s' k = snd s k" "snd s' (status_key k) = snd s (status_key k)"
    with ok show ?thesis
      by (auto simp: rec_ok_def rec_taken_def rec_failed_def redis_get_def split: option.splits if_splits)
  next
    fix codec c c' t
    assume s': "s' = (fst s, snd (save_to_cache codec c c' k t (snd s)))" and "call_now c = fst s" "call_now c' = fst s"
    with ok show ?thesis
      by (auto simp: save_to_cache_def idem_defs rec_ok_def rec_taken_def rec_failed_def redis_get_def day_end_def Let_def
          split: option.splits if_splits)
  qed
  show "rec_ok start k s' \<and> (rec_taken start k s \<longrightarrow> rec_taken start k s')" if "fails_at k s s'"
    using that ok by (auto simp: fails_at_def store_mark_failed_def idem_defs rec_ok_def rec_taken_def)
qed

section \<open>Requests racing under one key\<close>

record idem_sys =
  sys_redis :: redis
  sys_now :: instant
  sys_pcs :: "nat \<Rightarrow> req_pc"
  sys_news :: nat
  sys_fails :: nat

text \<open>
  Any request may make its next store call, results may be saved and failures recorded, other keys
  may change, and time may pass within the day.  Every call may fail to reach Redis, except the one
  that creates the lock.
\<close>

inductive idem_step :: "json_codec \<Rightarrow> string \<Rightarrow> instant \<Rightarrow> idem_sys \<Rightarrow> idem_sys \<Rightarrow> bool"
  for codec :: json_codec and k :: string and start :: instant where
  request_call: "req_call codec \<lparr>call_up = up, call_now = sys_now s\<rparr> k data (sys_pcs s i) (sys_redis s) = (pc', st') \<Longrightarrow>
     (\<And>r. sys_pcs s i \<noteq> ReqDone r) \<Longrightarrow> (sys_pcs s i = AtLock \<Longrightarrow> up) \<Longrightarrow>
     idem_step codec k start s (s\<lparr>sys_redis := st', sys_pcs := (sys_pcs s)(i := pc'),
       sys_news := sys_news s + (if pc' = ReqDone (Inr IdemNew) then 1 else 0)\<rparr>)"
| result_saved: "save_to_cache codec \<lparr>call_up = up, call_now = sys_now s\<rparr> \<lparr>call_up = up', call_now = sys_now s\<rparr>
       k t (sys_redis s) = (r, st') \<Longrightarrow> idem_step codec k start s (s\<lparr>sys_redis := st'\<rparr>)"
| failure_marked: "store_mark_failed \<lparr>call_up = up, call_now = sys_now s\<rparr> k (sys_redis s) = (r, st') \<Longrightarrow>
     idem_step codec k start s (s\<lparr>sys_redis := st', sys_fails := Suc (sys_fails s)\<rparr>)"
| time_passes: "sys_now s \<le> t \<Longrightarrow> t < day_end start \<Longrightarrow> idem_step codec k start s (s\<lparr>sys_now := t\<rparr>)"
| other_keys: "st' k = sys_redis s k \<Longrightarrow> st' (status_key k) = sys_redis s (status_key k) \<Longrightarrow>
     idem_step codec k start s (s\<lparr>sys_redis := st'\<rparr>)"

definition idem_init :: "instant \<Rightarrow> redis \<Rightarrow> idem_sys" where
  "idem_init start st = \<lparr>sys_redis = st, sys_now = start, sys_pcs = (\<lambda>_. AtCache), sys_news = 0, sys_fails = 0\<rparr>"

definition sys_inv :: "instant \<Rightarrow> string \<Rightarrow> idem_sys \<Rightarrow> bool" where
  "sys_inv start k s \<longleftrightarrow> rec_ok start k (sys_now s, sys_redis s) \<and>
     (\<forall>i. sys_pcs s i \<in> {AtStatus, AtClaim, AtReread} \<longrightarrow> rec_taken start k (sys_now s, sys_redis s)) \<and>
     sys_news s + idem.tokens start k (sys_now s, sys_redis s) \<le> Suc (sys_fails s)"

text \<open>The effect of one call on the key's entries and on the number of executions.\<close>

lemma call_lock:
  assumes "req_call codec \<lparr>call_up = True, call_now = now\<rparr> k data AtLock st = (pc', st')"
  shows "lock_at k data (now, st) = (pc' = ReqDone (Inr IdemNew), (now, st'))"
    and "pc' = ReqDone (Inr IdemNew) \<or> pc' = AtStatus"
  using assms by (auto simp: lock_at_def try_create_lock_def Let_def split: prod.splits bool.splits sum.splits)

lemma call_claim:
  assumes "req_call codec \<lparr>call_up = up, call_now = now\<rparr> k data AtClaim st = (pc', st')"
  shows "if up then claim_at k (now, st) = (pc' = ReqDone (Inr IdemNew), (now, st'))
         else st' = st \<and> pc' \<noteq> ReqDone (Inr IdemNew)"
  using assms by (cases up) (auto simp: claim_at_def claim_failed_for_retry_def Let_def split: prod.splits bool.splits sum.splits)

lemma call_read:
  assumes "req_call codec c k data pc st = (pc', st')" "pc \<in> {AtCache, AtStatus, AtReread}"
  shows "st' = st \<and> pc' \<noteq> ReqDone (Inr IdemNew) \<and> (pc' \<in> {AtStatus, AtClaim, AtReread} \<longrightarrow> pc = AtStatus)"
  using assms by (auto split: option.splits idempotency_status.splits)

lemma sys_inv_quiet:
  assumes "sys_inv start k s" "quiet_at start k (sys_now s, sys_redis s) (sys_now s', sys_redis s')"
    and "\<And>i. sys_pcs s' i \<in> {AtStatus, AtClaim, AtReread} \<Longrightarrow> rec_taken start k (sys_now s, sys_redis s)"
    and "sys_news s' = sys_news s" "sys_fails s' = sys_fails s"
  shows "sys_inv start k s'"
proof -
  have ok: "rec_ok start k (sys_now s, sys_redis s)" using assms(1) by (simp add: sys_inv_def)
  have "idem.tokens start k (sys_now s', sys_redis s') \<le> idem.tokens start k (sys_now s, sys_redis s)"
    by (rule idem.tokens_quiet[OF ok assms(2)])
  with idem.quiet[OF ok assms(2)] assms(1,3-5) show ?thesis by (auto simp: sys_inv_def)
qed

lemma sys_inv_taken:
  "sys_inv start k s \<Longrightarrow> sys_pcs s i \<in> {AtStatus, AtClaim, AtReread} \<Longrightarrow> rec_taken start k (sys_now s, sys_redis s)"
  unfolding sys_inv_def by blast

lemma sys_inv_request:
  assumes inv: "sys_inv start k s"
    and c: "req_call codec \<lparr>call_up = up, call_now = sys_now s\<rparr> k data (sys_pcs s i) (sys_redis s) = (pc', st')"
    and nd: "\<And>r. sys_pcs s i \<noteq> ReqDone r" and up: "sys_pcs s i = AtLock \<Longrightarrow> up"
  shows "sys_inv start k (s\<lparr>sys_redis := st', sys_pcs := (sys_pcs s)(i := pc'),
       sys_news := sys_news s + (if pc' = ReqDone (Inr IdemNew) then 1 else 0)\<rparr>)"
proof -
  have ok: "rec_ok start k (sys_now s, sys_redis s)" using inv by (simp add: sys_inv_def)
  have same: "quiet_at start k (sys_now s, sys_redis s) (sys_now s, sys_redis s)"
    using ok by (simp add: quiet_at_def rec_ok_def)
  consider "sys_pcs s i \<in> {AtCache, AtStatus, AtReread}" | "sys_pcs s i = AtLock" | "sys_pcs s i = AtClaim"
    using nd by (cases "sys_pcs s i") auto
  then show ?thesis
  proof cases
    case 1
    from call_read[OF c 1] have r: "st' = sys_redis s" "pc' \<noteq> ReqDone (Inr IdemNew)"
      "pc' \<in> {AtStatus, AtClaim, AtReread} \<Longrightarrow> sys_pcs s i = AtStatus" by auto
    have "rec_taken start k (sys_now s, sys_redis s)" if "((sys_pcs s)(i := pc')) j \<in> {AtStatus, AtClaim, AtReread}" for j
      using that r(3) sys_inv_taken[OF inv, of j] sys_inv_taken[OF inv, of i] by (cases "j = i") simp_all
    with r(1,2) same show ?thesis by (intro sys_inv_quiet[OF inv]) simp_all
  next
    case 2
    with c up have c': "req_call codec \<lparr>call_up = True, call_now = sys_now s\<rparr> k data AtLock (sys_redis s) = (pc', st')" by simp
    note l = call_lock(1)[OF c']
    from idem.lock[OF ok l] idem.tokens_lock[OF ok l] inv show ?thesis
      by (auto simp: sys_inv_def)
  next
    case 3
    then have t: "rec_taken start k (sys_now s, sys_redis s)" using inv by (auto simp: sys_inv_def)
    show ?thesis
    proof (cases up)
      case True
      with call_claim[OF c[unfolded 3]] have l: "claim_at k (sys_now s, sys_redis s) = (pc' = ReqDone (Inr IdemNew), (sys_now s, st'))"
        by simp
      from idem.claim[OF ok t l] idem.tokens_claim[OF ok t l] inv show ?thesis by (auto simp: sys_inv_def)
    next
      case False
      with call_claim[OF c[unfolded 3]] have r: "st' = sys_redis s" "pc' \<noteq> ReqDone (Inr IdemNew)" by auto
      with same t show ?thesis by (intro sys_inv_quiet[OF inv]) simp_all
    qed
  qed
qed

lemma sys_inv_step:
  assumes "idem_step codec k start s s'" "sys_inv start k s"
  shows "sys_inv start k s'"
  using assms
proof (cases rule: idem_step.cases)
  case (request_call up data i pc' st')
  with sys_inv_request[OF assms(2), of codec up data i pc' st'] show ?thesis by simp
next
  case (result_saved up up' t r st')
  have "quiet_at start k (sys_now s, sys_redis s) (sys_now s, st')"
    unfolding quiet_at_def using result_saved(2)
    by (intro disjI2 exI[of _ codec] exI[of _ "\<lparr>call_up = up, call_now = sys_now s\<rparr>"]
        exI[of _ "\<lparr>call_up = up', call_now = sys_now s\<rparr>"] exI[of _ t]) simp
  with result_saved(1) show ?thesis
    by (intro sys_inv_quiet[OF assms(2)] sys_inv_taken[OF assms(2)]) auto
next
  case (failure_marked up r st')
  have ok: "rec_ok start k (sys_now s, sys_redis s)" using assms(2) by (simp add: sys_inv_def)
  have f: "fails_at k (sys_now s, sys_redis s) (sys_now s, st')"
    unfolding fails_at_def using failure_marked(2)
    by (intro exI[of _ "\<lparr>call_up = up, call_now = sys_now s\<rparr>"]) simp
  have "idem.tokens start k (sys_now s, st') \<le> Suc (idem.tokens start k (sys_now s, sys_redis s))"
    by (rule idem.tokens_fails)
  with idem.fails[OF ok f] assms(2) failure_marked(1) show ?thesis by (auto simp: sys_inv_def)
next
  case (time_passes t)
  have "quiet_at start k (sys_now s, sys_redis s) (t, sys_redis s)"
    using time_passes by (simp add: quiet_at_def)
  with time_passes(1) show ?thesis
    by (intro sys_inv_quiet[OF assms(2)] sys_inv_taken[OF assms(2)]) auto
next
  case (other_keys st')
  have "quiet_at start k (sys_now s, sys_redis s) (sys_now s, st')"
    using other_keys assms(2) by (simp add: quiet_at_def sys_inv_def rec_ok_def)
  with other_keys(1) show ?thesis
    by (intro sys_inv_quiet[OF assms(2)] sys_inv_taken[OF assms(2)]) auto
qed

lemma sys_inv_init:
  assumes "redis_get start st k = None"
  shows "sys_inv start k (idem_init start st)"
proof -
  have "rec_ok start k (start, st)"
    using assms day_end_gt[of start]
    by (auto simp: rec_ok_def redis_get_def split: option.splits if_splits)
  then show ?thesis
    by (auto simp: sys_inv_def idem_init_def idem.tokens_def)
qed

text \<open>
  C23.  At most once: of all the requests that race under one unused idempotency key within its day,
  whatever their interleaving and whichever calls fail to reach Redis (the lock call excepted), at
  most one is told to execute, plus one for every failure that was recorded in between.
\<close>

theorem at_most_one_execution:
  assumes "redis_get start st k = None" "(idem_step codec k start)\<^sup>*\<^sup>* (idem_init start st) s"
  shows "sys_news s \<le> 1 + sys_fails s"
proof -
  from assms(2) have "sys_inv start k s"
  proof (induction rule: rtranclp_induct)
    case base
    show ?case by (rule sys_inv_init[OF assms(1)])
  next
    case (step y z)
    then show ?case by (blast intro: sys_inv_step)
  qed
  then show ?thesis by (simp add: sys_inv_def)
qed

section \<open>Results\<close>


text \<open>
  C25.  With Redis reachable, the record of the key decides: no record means new, a record that is a
  transaction is returned, and otherwise the marker decides, where only a failed one lets the
  request execute (and becomes processing) and a lost or completed one is refused.
\<close>

theorem check_or_create_classifies:
  assumes "\<And>i. call_up (calls i)" "\<And>i. call_now (calls i) = now"
  shows "fst (check_or_create codec calls realm_id key data st) =
    (let k = idempotency_record_key realm_id key in
     case redis_get now st k of
       None \<Rightarrow> Inr IdemNew
     | Some v \<Rightarrow>
         (case from_json codec v of
            Some t \<Rightarrow> Inr (IdemCached t)
          | None \<Rightarrow>
              (case redis_get now st (k @ '':status'') of
                 None \<Rightarrow> Inl unknown_outcome
               | Some m \<Rightarrow> if to_lowercase m = ''processing'' then Inl idempotency_processing
                           else if m = ''failed'' then Inr IdemNew else Inl unknown_outcome)))"
proof -
  let ?k = "idempotency_record_key realm_id key"
  have status: "get_status_from_cache (calls i) ?k st =
      Option.bind (redis_get now st (?k @ '':status'')) (\<lambda>s. case idempotency_status_from_str s of Inl _ \<Rightarrow> None | Inr x \<Rightarrow> Some x)" for i st
    using assms by (simp add: get_status_from_cache_def status_key_def)
  have parse: "idempotency_status_from_str m = Inr x \<longleftrightarrow> to_lowercase m = idempotency_status_as_str x" for m x
    by (rule idempotency_status.from_str_iff)
  have cache: "get_from_cache codec (calls 0) ?k st = Option.bind (redis_get now st ?k) (from_json codec)"
    using assms by (simp add: get_from_cache_def)
  have lock: "fst (try_create_lock (calls 1) ?k data st) = Inr (redis_get now st ?k = None)"
    "redis_get now st ?k \<noteq> None \<Longrightarrow> try_create_lock (calls 1) ?k data st = (Inr False, st)"
    using assms by (simp_all add: try_create_lock_def idempotency_acquire_lock_def)
  have claim: "claim_failed_for_retry (calls 3) ?k st =
      (if redis_get now st (?k @ '':status'') = Some ''failed''
       then (Inr True, redis_setex now (?k @ '':status'') lock_ttl ''processing'' st) else (Inr False, st))"
    using assms by (simp add: claim_failed_for_retry_def idempotency_claim_failed_retry_def status_key_def
        idempotency_status_as_str_def)
  show ?thesis
  proof (cases "redis_get now st ?k")
    case None
    then obtain st' where "try_create_lock (calls 1) ?k data st = (Inr True, st')"
      using lock(1) by (metis prod.collapse)
    with None show ?thesis by (simp add: check_or_create_def cache)
  next
    case (Some v)
    note l = lock(2)[unfolded Some, simplified]
    show ?thesis
    proof (cases "from_json codec v")
      case (Some t)
      with \<open>redis_get now st ?k = Some v\<close> show ?thesis by (simp add: check_or_create_def cache)
    next
      case None
      show ?thesis
      proof (cases "redis_get now st (?k @ '':status'')")
        case None
        with \<open>from_json codec v = None\<close> Some show ?thesis by (simp add: check_or_create_def cache l status)
      next
        case m: (Some m)
        show ?thesis
        proof (cases "idempotency_status_from_str m")
          case (Inl e)
          then have "to_lowercase m \<noteq> ''processing''" "m \<noteq> ''failed''"
            using parse[of m IdemProcessing] parse[of m IdemFailed] by (auto simp: idempotency_status_as_str_def lower_char_def)
          with Inl None Some m show ?thesis by (simp add: check_or_create_def cache l status)
        next
          case (Inr x)
          then have x: "to_lowercase m = idempotency_status_as_str x" by (simp add: parse)
          then have "m = ''failed'' \<longrightarrow> x = IdemFailed"
            by (cases x) (auto simp: idempotency_status_as_str_def lower_char_def)
          with x Inr None Some m show ?thesis
            by (cases x) (simp_all add: check_or_create_def cache l status claim idempotency_status_as_str_def)
        qed
      qed
    qed
  qed
qed

section \<open>Concrete runs\<close>

definition demo_codec :: json_codec where
  "demo_codec = \<lparr>to_json = (\<lambda>t. if t = demo_transaction then Some ''T'' else None),
                from_json = (\<lambda>s. if s = ''T'' then Some demo_transaction else None)\<rparr>"

definition call_at :: "instant \<Rightarrow> store_call" where
  "call_at t = \<lparr>call_up = True, call_now = t\<rparr>"

lemma at_most_one_execution_witness:
  "\<exists>s. (idem_step demo_codec ''k'' 0)\<^sup>*\<^sup>* (idem_init 0 Map.empty) s \<and> sys_news s = 1 \<and> sys_news s \<le> 1 + sys_fails s"
proof -
  let ?s1 = "(idem_init 0 Map.empty)\<lparr>sys_pcs := (sys_pcs (idem_init 0 Map.empty))(0 := AtLock)\<rparr>"
  define st where "st = snd (req_call demo_codec (call_at 0) ''k'' ''d'' AtLock Map.empty)"
  have "fst (req_call demo_codec (call_at 0) ''k'' ''d'' AtLock Map.empty) = ReqDone (Inr IdemNew)"
    by (simp add: call_at_def try_create_lock_def idempotency_acquire_lock_def redis_get_def)
  then have c2: "req_call demo_codec (call_at 0) ''k'' ''d'' AtLock Map.empty = (ReqDone (Inr IdemNew), st)"
    by (simp add: st_def prod_eq_iff)
  have "req_call demo_codec (call_at 0) ''k'' ''d'' AtCache Map.empty = (AtLock, Map.empty)"
    by (simp add: get_from_cache_def redis_get_def)
  then have "idem_step demo_codec ''k'' 0 (idem_init 0 Map.empty) ?s1"
    using request_call[of demo_codec True "idem_init 0 Map.empty" "''k''" "''d''" 0 AtLock Map.empty 0]
    by (simp add: idem_init_def call_at_def)
  moreover have "idem_step demo_codec ''k'' 0 ?s1 (?s1\<lparr>sys_redis := st, sys_pcs := (sys_pcs ?s1)(0 := ReqDone (Inr IdemNew)), sys_news := 1\<rparr>)"
    using request_call[of demo_codec True ?s1 "''k''" "''d''" 0 "ReqDone (Inr IdemNew)" st 0] c2
    by (simp add: idem_init_def call_at_def)
  ultimately have r: "(idem_step demo_codec ''k'' 0)\<^sup>*\<^sup>* (idem_init 0 Map.empty)
      (?s1\<lparr>sys_redis := st, sys_pcs := (sys_pcs ?s1)(0 := ReqDone (Inr IdemNew)), sys_news := 1\<rparr>)"
    by (rule converse_rtranclp_into_rtranclp[OF _ r_into_rtranclp])
  have "redis_get 0 Map.empty ''k'' = None" by (simp add: redis_get_def)
  from at_most_one_execution[OF this r] r show ?thesis
    by (intro exI conjI) (assumption | simp)+
qed


lemma check_or_create_classifies_witness:
  "fst (check_or_create demo_codec (\<lambda>_. call_at 7) ''r'' ''k'' ''d'' Map.empty) = Inr IdemNew"
  using check_or_create_classifies[of "\<lambda>_. call_at 7" 7 demo_codec "''r''" "''k''" "''d''" Map.empty]
  by (simp add: call_at_def redis_get_def Let_def)

text \<open>
  The lock call is the exception for a reason: when it cannot reach Redis the request is told to
  execute, even while another request under the key is executing.
\<close>

lemma lock_failure_executes_again:
  "fst (check_or_create demo_codec (\<lambda>i. if i = 1 then \<lparr>call_up = False, call_now = 2\<rparr> else call_at 2) ''r'' ''k'' ''d''
     (snd (check_or_create demo_codec (\<lambda>_. call_at 1) ''r'' ''k'' ''d'' Map.empty))) = Inr IdemNew \<and>
   fst (check_or_create demo_codec (\<lambda>_. call_at 1) ''r'' ''k'' ''d'' Map.empty) = Inr IdemNew"
  by code_simp

text \<open>
  The marker of one key is the record of another: a request under \<open>a\<close> overwrites the saved
  result of \<open>a:status\<close> with a marker that lives a minute, after which a repeated request
  under \<open>a:status\<close> is told to execute again.
\<close>

lemma status_key_is_another_record:
  "let st0 = snd (save_result demo_codec (call_at 0) (call_at 0) ''r'' ''a:status'' demo_transaction Map.empty);
       st1 = snd (check_or_create demo_codec (\<lambda>_. call_at 1) ''r'' ''a'' ''d'' st0)
   in fst (check_or_create demo_codec (\<lambda>_. call_at 1) ''r'' ''a:status'' ''d'' st0) = Inr (IdemCached demo_transaction) \<and>
      fst (check_or_create demo_codec (\<lambda>_. call_at (secs 70)) ''r'' ''a:status'' ''d'' st1) = Inr IdemNew"
  by code_simp

end
