(* ===== verification/QuotaView.thy ===== *)
theory QuotaView
  imports PointsConsume
begin

text \<open>
  What a user is shown: the per-window quota view and the balance assembled from ledgers, windows
  and wallet totals (\<open>domain/src/points/service.rs\<close>), with the repository reads they use.
  The realization of due free-periodic schedules that precedes a balance read is not part of these
  definitions: they describe the read that follows it.
\<close>

section \<open>Repository reads\<close>

definition find_active_quota_entitlements ::
  "points_db \<Rightarrow> string \<Rightarrow> uuid \<Rightarrow> uuid option \<Rightarrow> credit_type \<Rightarrow> instant \<Rightarrow> points_quota_entitlement list" where
  "find_active_quota_entitlements db realm_id user_id bucket_id credit_type now =
     filter (\<lambda>e. ent_realm_id e = realm_id \<and> ent_user_id e = user_id \<and>
                 (case bucket_id of None \<Rightarrow> True | Some b \<Rightarrow> ent_bucket_id e = b) \<and>
                 ent_credit_type e = credit_type \<and> ent_status e = QuotaActive \<and> ent_effective_from e \<le> now \<and>
                 (case ent_effective_until e of None \<Rightarrow> True | Some u \<Rightarrow> now < u))
       (db_entitlements db)"

definition aggregate_wallet :: "points_wallet \<Rightarrow> points_wallet \<Rightarrow> points_wallet" where
  "aggregate_wallet agg row =
     agg\<lparr>wal_total_recharged := wal_total_recharged agg + wal_total_recharged row,
         wal_total_consumed := wal_total_consumed agg + wal_total_consumed row,
         wal_total_topup_granted := wal_total_topup_granted agg + wal_total_topup_granted row,
         wal_total_subscription_granted := wal_total_subscription_granted agg + wal_total_subscription_granted row,
         wal_created_at := (if wal_created_at row < wal_created_at agg then wal_created_at row else wal_created_at agg),
         wal_updated_at := (if wal_updated_at agg < wal_updated_at row then wal_updated_at row else wal_updated_at agg),
         wal_status := (if wal_status row = WalletActive then wal_status agg else wal_status row)\<rparr>"

definition find_by_user_id :: "points_db \<Rightarrow> string \<Rightarrow> uuid \<Rightarrow> points_wallet option" where
  "find_by_user_id db realm_id user_id =
     (case sort_key wal_created_at (filter (\<lambda>w. wal_realm_id w = realm_id \<and> wal_user_id w = user_id) (db_wallets db)) of
        [] \<Rightarrow> None
      | row # rows \<Rightarrow> Some (foldl aggregate_wallet
          \<lparr>wal_id = wal_id row, wal_user_id = user_id, wal_realm_id = realm_id, wal_bucket_id = None,
           wal_total_topup_granted = 0, wal_total_subscription_granted = 0, wal_total_recharged = 0,
           wal_total_consumed = 0, wal_status = WalletActive,
           wal_created_at = wal_created_at row, wal_updated_at = wal_updated_at row\<rparr> (row # rows)))"

text \<open>The earliest expiry among the rows the balance is summed over; permanent rows have none.\<close>

definition compute_next_pool_expiry :: "points_db \<Rightarrow> string \<Rightarrow> uuid \<Rightarrow> uuid list \<Rightarrow> instant \<Rightarrow> instant option" where
  "compute_next_pool_expiry db realm_id user_id bucket_ids now =
     (case List.map_filter led_expires_at (available_ledgers db realm_id user_id bucket_ids now) of
        [] \<Rightarrow> None
      | es \<Rightarrow> Some (min_list es))"

section \<open>Window keys\<close>

definition derive_window_key :: "i64 \<Rightarrow> string" where
  "derive_window_key window_seconds =
     (let s = window_seconds; hour = 3600; day = 86400 in
      if s = 5 * hour then ''5h''
      else if 0 < s \<and> s mod day = 0 then
        (let n = s div day in
         if n = 1 then ''day'' else if n = 7 then ''week'' else if n = 30 then ''month''
         else show_int n @ ''d'')
      else if 0 < s \<and> s mod hour = 0 then
        (let n = s div hour in if n = 1 then ''1h'' else show_int n @ ''h'')
      else show_int s @ ''s'')"

section \<open>The window view\<close>

record quota_window_accumulator =
  qa_limit_sum :: i64
  qa_used_max :: i64
  qa_window_seconds :: i64
  qa_effective_from :: instant
  qa_effective_until :: "instant option"

definition acc_new :: "points_quota_entitlement \<Rightarrow> quota_window \<Rightarrow> i64 \<Rightarrow> quota_window_accumulator" where
  "acc_new ent w used = \<lparr>qa_limit_sum = qw_limit w, qa_used_max = used, qa_window_seconds = qw_window_seconds w,
     qa_effective_from = ent_effective_from ent, qa_effective_until = ent_effective_until ent\<rparr>"

definition acc_merge ::
  "quota_window_accumulator \<Rightarrow> points_quota_entitlement \<Rightarrow> i64 \<Rightarrow> i64 \<Rightarrow> quota_window_accumulator" where
  "acc_merge acc ent limit used =
     acc\<lparr>qa_limit_sum := qa_limit_sum acc + limit, qa_used_max := max (qa_used_max acc) used,
         qa_effective_from := min (qa_effective_from acc) (ent_effective_from ent),
         qa_effective_until := (case (qa_effective_until acc, ent_effective_until ent) of
            (Some a, Some b) \<Rightarrow> Some (max a b) | _ \<Rightarrow> None)\<rparr>"

text \<open>The hash map is read in key order only, so it is kept sorted by key.\<close>

definition fold_window ::
  "(credit_type \<Rightarrow> i64 \<Rightarrow> i64) \<Rightarrow> (string \<times> quota_window_accumulator) list
     \<Rightarrow> points_quota_entitlement \<times> quota_window \<Rightarrow> (string \<times> quota_window_accumulator) list" where
  "fold_window used_lookup by_key p =
     (case p of (ent, w) \<Rightarrow>
      (let used = max (used_lookup (ent_credit_type ent) (qw_window_seconds w)) 0 in
       bt_upsert (qw_key w)
         (\<lambda>acc. case acc of None \<Rightarrow> acc_new ent w used | Some a \<Rightarrow> acc_merge a ent (qw_limit w) used) by_key))"

definition window_view :: "instant \<Rightarrow> string \<times> quota_window_accumulator \<Rightarrow> quota_window_view" where
  "window_view now entry =
     (case entry of (key, acc) \<Rightarrow>
      (let rem = max (qa_limit_sum acc - qa_used_max acc) 0 in
       \<lparr>qv_key = key, qv_limit = qa_limit_sum acc, qv_used = qa_used_max acc, qv_remaining = rem,
        qv_window_seconds = qa_window_seconds acc, qv_resets_at = Some (now + secs (qa_window_seconds acc)),
        qv_is_tightest = False, qv_exhausted = (rem = 0), qv_effective_from = qa_effective_from acc,
        qv_effective_until = qa_effective_until acc\<rparr>))"

fun mark_tightest :: "i64 \<Rightarrow> quota_window_view list \<Rightarrow> quota_window_view list" where
  "mark_tightest min_remaining [] = []"
| "mark_tightest min_remaining (v # vs) =
     (if qv_remaining v = min_remaining then v\<lparr>qv_is_tightest := True\<rparr> # vs else v # mark_tightest min_remaining vs)"

definition ent_windows :: "points_quota_entitlement list \<Rightarrow> (points_quota_entitlement \<times> quota_window) list" where
  "ent_windows ents = concat (map (\<lambda>e. map (Pair e) (ent_quota_windows e)) ents)"

definition aggregate_quota_windows ::
  "points_quota_entitlement list \<Rightarrow> (credit_type \<Rightarrow> i64 \<Rightarrow> i64) \<Rightarrow> instant \<Rightarrow> quota_window_view list" where
  "aggregate_quota_windows entitlements used_lookup now =
     (case map (window_view now) (foldl (fold_window used_lookup) [] (ent_windows entitlements)) of
        [] \<Rightarrow> []
      | views \<Rightarrow> mark_tightest (min_list (map qv_remaining views)) views)"

definition prefetch_used ::
  "(credit_type \<Rightarrow> i64 \<Rightarrow> i64) \<Rightarrow> (points_quota_entitlement \<times> quota_window) list \<Rightarrow> (credit_type \<times> i64) \<Rightarrow> i64 option" where
  "prefetch_used query ps =
     foldl (\<lambda>used_map (ent, w). let k = (ent_credit_type ent, qw_window_seconds w) in
              if used_map k \<noteq> None then used_map else used_map(k \<mapsto> query (fst k) (snd k)))
       Map.empty ps"

definition compute_quota_windows_view_for_credit_types ::
  "points_db \<Rightarrow> string \<Rightarrow> uuid \<Rightarrow> uuid \<Rightarrow> credit_type list \<Rightarrow> instant \<Rightarrow> quota_window_view list" where
  "compute_quota_windows_view_for_credit_types db realm_id user_id bucket_id cts now =
     (let entitlements = concat (map (\<lambda>ct. find_active_quota_entitlements db realm_id user_id (Some bucket_id) ct now)
                           cts);
          used_map = prefetch_used (\<lambda>ct s. sum_consume_in_window db realm_id user_id bucket_id ct (now - secs s))
                       (ent_windows entitlements);
          used_lookup = (\<lambda>ct s. case used_map (ct, s) of None \<Rightarrow> 0 | Some u \<Rightarrow> u)
      in aggregate_quota_windows entitlements used_lookup now)"

definition compute_quota_windows_view ::
  "points_db \<Rightarrow> string \<Rightarrow> uuid \<Rightarrow> uuid \<Rightarrow> instant \<Rightarrow> quota_window_view list" where
  "compute_quota_windows_view db realm_id user_id bucket_id now =
     compute_quota_windows_view_for_credit_types db realm_id user_id bucket_id [SubscriptionCredit, FreePeriodicCredit] now"

definition min_remaining_of :: "quota_window_view list \<Rightarrow> i64" where
  "min_remaining_of views = (case views of [] \<Rightarrow> 0 | _ \<Rightarrow> min_list (map qv_remaining views))"

definition compute_window_available :: "points_db \<Rightarrow> string \<Rightarrow> uuid \<Rightarrow> uuid \<Rightarrow> instant \<Rightarrow> i64" where
  "compute_window_available db realm_id user_id bucket_id now =
     min_remaining_of (compute_quota_windows_view db realm_id user_id bucket_id now)"

definition compute_window_available_for_credit_type ::
  "points_db \<Rightarrow> string \<Rightarrow> uuid \<Rightarrow> uuid \<Rightarrow> credit_type \<Rightarrow> instant \<Rightarrow> i64" where
  "compute_window_available_for_credit_type db realm_id user_id bucket_id credit_type now =
     min_remaining_of (compute_quota_windows_view_for_credit_types db realm_id user_id bucket_id [credit_type] now)"

section \<open>Balances\<close>

definition window_balance_of ::
  "points_db \<Rightarrow> string \<Rightarrow> uuid \<Rightarrow> uuid list option \<Rightarrow> instant \<Rightarrow> credit_type \<Rightarrow> i64 option" where
  "window_balance_of db realm_id user_id allowed_buckets now credit_type =
     (let entitlements = find_active_quota_entitlements db realm_id user_id None credit_type now;
          bucket_ids = remdups (filter (\<lambda>b. case allowed_buckets of None \<Rightarrow> True | Some allowed \<Rightarrow> b \<in> set allowed)
                         (map ent_bucket_id entitlements))
      in if entitlements = [] \<or> bucket_ids = [] then None
         else Some (sum_list (map (\<lambda>b. compute_window_available_for_credit_type db realm_id user_id b credit_type now)
                      bucket_ids)))"

definition compute_window_balance_for_buckets ::
  "points_db \<Rightarrow> string \<Rightarrow> uuid \<Rightarrow> uuid list option \<Rightarrow> instant \<Rightarrow> credit_type \<Rightarrow> i64 option" where
  "compute_window_balance_for_buckets db realm_id user_id allowed_buckets now =
     (\<lambda>ct. if ct \<in> {SubscriptionCredit, FreePeriodicCredit}
           then window_balance_of db realm_id user_id allowed_buckets now ct else None)"

definition typed_sum :: "credit_type \<Rightarrow> (credit_type \<times> i64) list \<Rightarrow> i64" where
  "typed_sum ct derived = foldl (\<lambda>n (t, amount). if t = ct then n + amount else n) 0 derived"

definition build_balance_from_derived ::
  "points_wallet \<Rightarrow> (credit_type \<times> i64) list \<Rightarrow> (credit_type \<Rightarrow> i64 option) \<Rightarrow> instant option \<Rightarrow> points_balance" where
  "build_balance_from_derived account derived window_balances expires_at =
     (let topup = typed_sum TopupCredit derived;
          subscription = typed_sum SubscriptionCredit derived +
            (case window_balances SubscriptionCredit of None \<Rightarrow> 0 | Some n \<Rightarrow> n);
          granted = typed_sum GrantedCredit derived;
          registration = typed_sum RegistrationCredit derived;
          free_periodic = typed_sum FreePeriodicCredit derived +
            (case window_balances FreePeriodicCredit of None \<Rightarrow> 0 | Some n \<Rightarrow> n)
      in \<lparr>bal_user_id = wal_user_id account, bal_balance = topup + subscription + granted + registration + free_periodic,
          bal_topup_balance = topup, bal_subscription_balance = subscription, bal_granted_balance = granted,
          bal_registration_balance = registration, bal_free_periodic_balance = free_periodic,
          bal_total_recharged = wal_total_recharged account, bal_total_consumed = wal_total_consumed account,
          bal_unit = ''points'', bal_updated_at = wal_updated_at account, bal_expires_at = expires_at\<rparr>)"

definition synthesized_empty_wallet :: "env \<Rightarrow> string \<Rightarrow> uuid \<Rightarrow> points_wallet" where
  "synthesized_empty_wallet env realm_id user_id =
     \<lparr>wal_id = 0, wal_user_id = user_id, wal_realm_id = realm_id, wal_bucket_id = None,
      wal_total_topup_granted = 0, wal_total_subscription_granted = 0, wal_total_recharged = 0,
      wal_total_consumed = 0, wal_status = WalletActive, wal_created_at = env_now env, wal_updated_at = env_now env\<rparr>"

definition user_account :: "env \<Rightarrow> points_db \<Rightarrow> string \<Rightarrow> uuid \<Rightarrow> points_wallet" where
  "user_account env db realm_id user_id =
     (case find_by_user_id db realm_id user_id of
        Some account \<Rightarrow> account | None \<Rightarrow> synthesized_empty_wallet env realm_id user_id)"

definition compute_user_balance :: "env \<Rightarrow> points_db \<Rightarrow> string \<Rightarrow> uuid \<Rightarrow> points_balance" where
  "compute_user_balance env db realm_id user_id =
     build_balance_from_derived (user_account env db realm_id user_id)
       (compute_available_balance db realm_id user_id [] (env_now env))
       (compute_window_balance_for_buckets db realm_id user_id None (env_now env))
       (compute_next_pool_expiry db realm_id user_id [] (env_now env))"

text \<open>An application that covers no bucket sees nothing, not everything.\<close>

definition balance_for_client_app :: "env \<Rightarrow> points_db \<Rightarrow> string \<Rightarrow> uuid \<Rightarrow> uuid \<Rightarrow> points_balance" where
  "balance_for_client_app env db realm_id user_id client_app_id =
     (let covered = find_covered_bucket_ids_in_tx db realm_id client_app_id in
      if covered = [] then build_balance_from_derived (user_account env db realm_id user_id) [] (\<lambda>_. None) None
      else build_balance_from_derived (user_account env db realm_id user_id)
             (compute_available_balance db realm_id user_id covered (env_now env))
             (compute_window_balance_for_buckets db realm_id user_id (Some covered) (env_now env))
             (compute_next_pool_expiry db realm_id user_id covered (env_now env)))"

end
