(* ===== verification/QuotaViewProps.thy ===== *)
theory QuotaViewProps
  imports QuotaView PointsConsumeProps
begin

text \<open>
  What the window view and the balance show: the view's rows, the condition under which the window
  side shown equals the window side that can be spent, and the shown balance as the amount a
  consume can take.
\<close>

section \<open>Folding windows by key\<close>

definition window_used :: "(credit_type \<Rightarrow> i64 \<Rightarrow> i64) \<Rightarrow> points_quota_entitlement \<times> quota_window \<Rightarrow> i64" where
  "window_used q p = max (q (ent_credit_type (fst p)) (qw_window_seconds (snd p))) 0"

definition window_key :: "points_quota_entitlement \<times> quota_window \<Rightarrow> string" where
  "window_key p = qw_key (snd p)"

definition add_window ::
  "(credit_type \<Rightarrow> i64 \<Rightarrow> i64) \<Rightarrow> quota_window_accumulator option \<Rightarrow> points_quota_entitlement \<times> quota_window
     \<Rightarrow> quota_window_accumulator option" where
  "add_window q acc p = Some (case acc of None \<Rightarrow> acc_new (fst p) (snd p) (window_used q p)
     | Some a \<Rightarrow> acc_merge a (fst p) (qw_limit (snd p)) (window_used q p))"

lemma fold_window_alt:
  "fold_window q m p = bt_upsert (window_key p) (\<lambda>acc. the (add_window q acc p)) m"
  by (cases p) (simp add: fold_window_def add_window_def window_used_def window_key_def Let_def cong: option.case_cong)

lemma by_key_sorted: "sorted_wrt (<) (map fst (foldl (fold_window q) [] ps))"
  by (induction ps rule: rev_induct) (simp_all add: fold_window_alt sorted_bt_upsert)

lemma by_key_lookup:
  "map_of (foldl (fold_window q) [] ps) k = foldl (add_window q) None (filter (\<lambda>p. window_key p = k) ps)"
proof (induction ps rule: rev_induct)
  case Nil
  then show ?case by simp
next
  case (snoc p ps)
  let ?m = "foldl (fold_window q) [] ps"
  have "foldl (fold_window q) [] (ps @ [p]) = fold_window q ?m p" by simp
  then have "map_of (foldl (fold_window q) [] (ps @ [p])) = (map_of ?m)(window_key p \<mapsto> the (add_window q (map_of ?m (window_key p)) p))"
    unfolding fold_window_alt[of q ?m p] by (simp only: map_of_bt_upsert[OF by_key_sorted])
  with snoc show ?case by (auto simp: add_window_def[of q _ p])
qed

lemma by_key_keys: "set (map fst (foldl (fold_window q) [] ps)) = window_key ` set ps"
  by (induction ps rule: rev_induct) (simp_all only: foldl_append foldl.simps fold_window_alt set_keys_bt_upsert, auto)

lemma add_window_fold:
  assumes "ps \<noteq> []"
  obtains a where "foldl (add_window q) None ps = Some a" "qa_limit_sum a = sum_list (map (qw_limit \<circ> snd) ps)"
    "qa_used_max a = Max (window_used q ` set ps)"
proof -
  have "\<exists>a. foldl (add_window q) None ps = Some a \<and> qa_limit_sum a = sum_list (map (qw_limit \<circ> snd) ps) \<and>
      qa_used_max a = Max (window_used q ` set ps)"
    using assms
  proof (induction ps rule: rev_induct)
    case Nil
    then show ?case by simp
  next
    case (snoc p ps)
    show ?case
    proof (cases "ps = []")
      case True
      then show ?thesis by (simp add: add_window_def acc_new_def)
    next
      case False
      with snoc.IH obtain a where "foldl (add_window q) None ps = Some a"
        "qa_limit_sum a = sum_list (map (qw_limit \<circ> snd) ps)" "qa_used_max a = Max (window_used q ` set ps)" by blast
      with False show ?thesis
        by (simp add: add_window_def[of q _ p] acc_merge_def max.commute comp_def)
    qed
  qed
  then show ?thesis using that by blast
qed

lemma prefetch_used_snoc:
  "prefetch_used q (ps @ [(e, w)]) =
     (let k = (ent_credit_type e, qw_window_seconds w); m = prefetch_used q ps in
      if m k \<noteq> None then m else m(k \<mapsto> q (fst k) (snd k)))"
  by (simp add: prefetch_used_def Let_def)

lemma prefetch_used_eq:
  "prefetch_used q ps k = (if k \<in> (\<lambda>(e, w). (ent_credit_type e, qw_window_seconds w)) ` set ps
     then Some (q (fst k) (snd k)) else None)"
proof (induction ps arbitrary: k rule: rev_induct)
  case Nil
  then show ?case by (simp add: prefetch_used_def)
next
  case (snoc p ps)
  obtain e w where p: "p = (e, w)" by (cases p)
  show ?case
    using snoc[of k] snoc[of "(ent_credit_type e, qw_window_seconds w)"]
    by (auto simp: p prefetch_used_snoc Let_def simp del: not_None_eq split: if_splits)
qed

text \<open>The view over the memoised lookup is the view over the query itself.\<close>

lemma view_without_memo:
  "compute_quota_windows_view_for_credit_types db r u b cts now =
     aggregate_quota_windows (concat (map (\<lambda>ct. find_active_quota_entitlements db r u (Some b) ct now) cts))
       (\<lambda>ct s. sum_consume_in_window db r u b ct (now - secs s)) now"
proof -
  let ?es = "concat (map (\<lambda>ct. find_active_quota_entitlements db r u (Some b) ct now) cts)"
  let ?q = "\<lambda>ct s. sum_consume_in_window db r u b ct (now - secs s)"
  let ?l = "\<lambda>ct s. case prefetch_used ?q (ent_windows ?es) (ct, s) of None \<Rightarrow> 0 | Some n \<Rightarrow> n"
  have "foldl (fold_window ?l) [] (ent_windows ?es) = foldl (fold_window ?q) [] (ent_windows ?es)"
    by (rule foldl_cong[OF refl refl]) (auto simp: fold_window_def prefetch_used_eq image_iff split: prod.splits)
  then show ?thesis
    by (simp add: compute_quota_windows_view_for_credit_types_def aggregate_quota_windows_def Let_def)
qed

section \<open>Marking the tightest window\<close>

lemma mark_tightest_map:
  assumes "\<And>v. f (v\<lparr>qv_is_tightest := True\<rparr>) = f v"
  shows "map f (mark_tightest n vs) = map f vs"
  using assms by (induction vs) auto

lemma mark_tightest_split:
  assumes "n \<in> set (map qv_remaining vs)"
  obtains xs v ys where "vs = xs @ v # ys" "mark_tightest n vs = xs @ v\<lparr>qv_is_tightest := True\<rparr> # ys"
    "qv_remaining v = n" "n \<notin> set (map qv_remaining xs)"
proof -
  have "\<exists>xs v ys. vs = xs @ v # ys \<and> mark_tightest n vs = xs @ v\<lparr>qv_is_tightest := True\<rparr> # ys \<and>
      qv_remaining v = n \<and> n \<notin> set (map qv_remaining xs)"
    using assms
  proof (induction vs)
    case Nil
    then show ?case by simp
  next
    case (Cons v vs)
    show ?case
    proof (cases "qv_remaining v = n")
      case True
      then show ?thesis by (intro exI[of _ "[]"] exI[of _ v] exI[of _ vs]) simp
    next
      case False
      with Cons.prems have "n \<in> set (map qv_remaining vs)" by simp
      from Cons.IH[OF this] obtain xs w ys where "vs = xs @ w # ys" "mark_tightest n vs = xs @ w\<lparr>qv_is_tightest := True\<rparr> # ys"
        "qv_remaining w = n" "n \<notin> set (map qv_remaining xs)" by (elim exE conjE)
      with False show ?thesis by (intro exI[of _ "v # xs"] exI[of _ w] exI[of _ ys]) simp
    qed
  qed
  then show ?thesis using that by blast
qed

section \<open>The rows of the view\<close>

lemma window_view_simps [simp]:
  "qv_key (window_view now e) = fst e" "qv_limit (window_view now e) = qa_limit_sum (snd e)"
  "qv_used (window_view now e) = qa_used_max (snd e)"
  "qv_remaining (window_view now e) = max (qa_limit_sum (snd e) - qa_used_max (snd e)) 0"
  "\<not> qv_is_tightest (window_view now e)"
  by (simp_all add: window_view_def Let_def split: prod.split)

text \<open>
  The unmarked rows; marking changes no column but the mark.
\<close>

definition raw_views :: "(credit_type \<Rightarrow> i64 \<Rightarrow> i64) \<Rightarrow> instant \<Rightarrow> (points_quota_entitlement \<times> quota_window) list \<Rightarrow> quota_window_view list" where
  "raw_views q now ps = map (window_view now) (foldl (fold_window q) [] ps)"

lemma aggregate_map:
  assumes "\<And>v. f (v\<lparr>qv_is_tightest := True\<rparr>) = f v"
  shows "map f (aggregate_quota_windows es q now) = map f (raw_views q now (ent_windows es))"
proof (cases "raw_views q now (ent_windows es)")
  case Nil
  then show ?thesis by (simp add: aggregate_quota_windows_def raw_views_def)
next
  case (Cons v vs)
  then have "aggregate_quota_windows es q now = mark_tightest (min_list (map qv_remaining (v # vs))) (v # vs)"
    by (simp only: aggregate_quota_windows_def raw_views_def[symmetric] list.case)
  then show ?thesis using mark_tightest_map[of f, OF assms] Cons by metis
qed

lemma raw_views_keys:
  "sorted_wrt (<) (map qv_key (raw_views q now ps))" "set (map qv_key (raw_views q now ps)) = window_key ` set ps"
proof -
  have "map qv_key (raw_views q now ps) = map fst (foldl (fold_window q) [] ps)" by (simp add: raw_views_def comp_def)
  with by_key_sorted by_key_keys show "sorted_wrt (<) (map qv_key (raw_views q now ps))"
    "set (map qv_key (raw_views q now ps)) = window_key ` set ps" by metis+
qed

lemma sorted_keys_lookup:
  fixes m :: "('k :: linorder \<times> 'v) list"
  assumes "sorted_wrt (<) (map fst m)" "(k, v) \<in> set m"
  shows "map_of m k = Some v"
proof -
  have "distinct (map fst m)" using assms(1) strict_sorted_iff by blast
  with assms(2) show ?thesis by simp
qed

lemma raw_view_row:
  assumes "v \<in> set (raw_views q now ps)"
  defines "ms \<equiv> filter (\<lambda>p. window_key p = qv_key v) ps"
  shows "ms \<noteq> []" "qv_limit v = sum_list (map (qw_limit \<circ> snd) ms)" "qv_used v = Max (window_used q ` set ms)"
    "qv_remaining v = max (qv_limit v - qv_used v) 0"
proof -
  let ?m = "foldl (fold_window q) [] ps"
  obtain k acc where v: "v = window_view now (k, acc)" and "(k, acc) \<in> set ?m"
    using assms(1) by (auto simp: raw_views_def)
  then have look: "map_of ?m k = Some acc" using sorted_keys_lookup[OF by_key_sorted] by blast
  have k: "qv_key v = k" by (simp add: v)
  have f: "foldl (add_window q) None ms = Some acc"
    unfolding ms_def k using look by (simp only: by_key_lookup)
  then show ne: "ms \<noteq> []" by auto
  obtain a where "foldl (add_window q) None ms = Some a" "qa_limit_sum a = sum_list (map (qw_limit \<circ> snd) ms)"
    "qa_used_max a = Max (window_used q ` set ms)"
    by (rule add_window_fold[OF ne])
  with f show "qv_limit v = sum_list (map (qw_limit \<circ> snd) ms)" "qv_used v = Max (window_used q ` set ms)"
    "qv_remaining v = max (qv_limit v - qv_used v) 0"
    by (simp_all add: v)
qed

text \<open>
  C26.  The window view of a bucket has one row per window key of the active entitlements, in key
  order; a row's limit is the sum of the limits under its key, its usage the largest, its remainder
  what is left and never negative; and exactly one row, the first with the least remainder, is marked
  the tightest.
\<close>

definition view_windows ::
  "points_db \<Rightarrow> string \<Rightarrow> uuid \<Rightarrow> uuid \<Rightarrow> instant \<Rightarrow> (points_quota_entitlement \<times> quota_window) list" where
  "view_windows db r u b now = ent_windows (find_active_quota_entitlements db r u (Some b) SubscriptionCredit now @
     find_active_quota_entitlements db r u (Some b) FreePeriodicCredit now)"

definition window_query :: "points_db \<Rightarrow> string \<Rightarrow> uuid \<Rightarrow> uuid \<Rightarrow> instant \<Rightarrow> credit_type \<Rightarrow> i64 \<Rightarrow> i64" where
  "window_query db r u b now ct s = sum_consume_in_window db r u b ct (now - secs s)"

lemma view_as_rows:
  "compute_quota_windows_view db r u b now =
    (case raw_views (window_query db r u b now) now (view_windows db r u b now) of
       [] \<Rightarrow> [] | vs \<Rightarrow> mark_tightest (min_list (map qv_remaining vs)) vs)"
  unfolding compute_quota_windows_view_def view_without_memo aggregate_quota_windows_def raw_views_def
    view_windows_def window_query_def[abs_def] by simp

lemma view_row_raw:
  assumes "v \<in> set (mark_tightest n vs)"
  obtains v' where "v' \<in> set vs" "qv_key v' = qv_key v" "qv_limit v' = qv_limit v" "qv_used v' = qv_used v"
    "qv_remaining v' = qv_remaining v"
proof -
  let ?f = "\<lambda>v. (qv_key v, qv_limit v, qv_used v, qv_remaining v)"
  have "map ?f (mark_tightest n vs) = map ?f vs" by (rule mark_tightest_map) simp
  from arg_cong[OF this, of set] have "?f ` set (mark_tightest n vs) = ?f ` set vs" by (simp only: list.set_map)
  with assms have "?f v \<in> ?f ` set vs" by blast
  then obtain v' where "?f v = ?f v'" "v' \<in> set vs" by (rule imageE)
  then show ?thesis by (intro that[of v']) simp_all
qed


section \<open>Shown and spendable\<close>

definition bucket_windows :: "points_db \<Rightarrow> string \<Rightarrow> uuid \<Rightarrow> uuid \<Rightarrow> credit_type \<Rightarrow> instant \<Rightarrow> quota_window list" where
  "bucket_windows db r u b ct now = concat (map ent_quota_windows (active_entitlements db r u b ct now))"

text \<open>No two active windows of a bucket and credit type share a key, and each is a window.\<close>

definition windows_plain :: "points_db \<Rightarrow> string \<Rightarrow> uuid \<Rightarrow> uuid \<Rightarrow> credit_type \<Rightarrow> instant \<Rightarrow> bool" where
  "windows_plain db r u b ct now \<longleftrightarrow>
     (let ws = bucket_windows db r u b ct now in
      distinct (map qw_key ws) \<and> (\<forall>w \<in> set ws. 0 < qw_window_seconds w \<and> 0 \<le> qw_limit w))"

lemma find_active_eq: "find_active_quota_entitlements db r u (Some b) ct now = active_entitlements db r u b ct now"
  by (simp add: find_active_quota_entitlements_def active_entitlements_def)

lemma snd_ent_windows: "map snd (ent_windows es) = concat (map ent_quota_windows es)"
  by (induction es) (simp_all add: ent_windows_def comp_def)

lemma active_credit_type: "p \<in> set (ent_windows (active_entitlements db r u b ct now)) \<Longrightarrow> ent_credit_type (fst p) = ct"
  by (auto simp: ent_windows_def active_entitlements_def)

lemma sum_consume_nonneg: "0 \<le> sum_consume_in_window db r u b ct t"
  by (simp add: sum_consume_in_window_def sum_list_map_nonneg)

lemma scan_windows_min:
  assumes "\<forall>w \<in> set ws. 0 < qw_window_seconds w \<and> 0 \<le> qw_limit w"
  shows "scan_windows used ws (Some t) = Some (Some (Min (insert t ((\<lambda>w. qw_limit w - used w) ` set ws))))"
  using assms
proof (induction ws arbitrary: t)
  case Nil
  then show ?case by simp
next
  case (Cons w ws)
  then have ok: "\<not> (qw_window_seconds w \<le> 0 \<or> qw_limit w < 0)" by auto
  have "Min (insert (min t (qw_limit w - used w)) ((\<lambda>w. qw_limit w - used w) ` set ws)) =
      Min (insert t (insert (qw_limit w - used w) ((\<lambda>w. qw_limit w - used w) ` set ws)))"
    by (cases "set ws = {}") (simp_all add: min.assoc)
  with Cons ok show ?case by (simp add: Let_def)
qed

lemma spendable_alt:
  "compute_window_spendable_in_tx db r u b ct now =
     (if active_entitlements db r u b ct now = [] then 0
      else case scan_windows (\<lambda>w. sum_consume_in_window db r u b ct (now - secs (qw_window_seconds w)))
                  (bucket_windows db r u b ct now) None of
             None \<Rightarrow> 0
           | Some tightest \<Rightarrow> max 0 (case tightest of None \<Rightarrow> 0 | Some t \<Rightarrow> t))"
  by (simp only: compute_window_spendable_in_tx_def bucket_windows_def Let_def)

lemma spendable_as_min:
  assumes "windows_plain db r u b ct now" "bucket_windows db r u b ct now \<noteq> []"
  defines "left \<equiv> (\<lambda>w. qw_limit w - window_query db r u b now ct (qw_window_seconds w))"
  shows "compute_window_spendable_in_tx db r u b ct now = max 0 (Min (left ` set (bucket_windows db r u b ct now)))"
proof -
  obtain w ws where ws: "bucket_windows db r u b ct now = w # ws" using assms(2) by (metis list.exhaust)
  have ne: "active_entitlements db r u b ct now \<noteq> []" using assms(2) by (auto simp: bucket_windows_def)
  have ok: "\<forall>w' \<in> set ws. 0 < qw_window_seconds w' \<and> 0 \<le> qw_limit w'" "\<not> (qw_window_seconds w \<le> 0 \<or> qw_limit w < 0)"
    using assms(1) by (auto simp: windows_plain_def ws Let_def)
  let ?used = "\<lambda>w. sum_consume_in_window db r u b ct (now - secs (qw_window_seconds w))"
  have left: "(\<lambda>w. qw_limit w - ?used w) = left" by (simp add: left_def window_query_def)
  have scan: "scan_windows ?used (w # ws) None = Some (Some (Min (left ` set (w # ws))))"
    using ok scan_windows_min[OF ok(1), of ?used "left w", unfolded left] by (simp add: left_def window_query_def Let_def)
  from ne show ?thesis unfolding spendable_alt ws scan by simp
qed

lemma available_as_min:
  assumes "windows_plain db r u b ct now" "bucket_windows db r u b ct now \<noteq> []"
  defines "left \<equiv> (\<lambda>w. qw_limit w - window_query db r u b now ct (qw_window_seconds w))"
  shows "compute_window_available_for_credit_type db r u b ct now =
    Min ((\<lambda>w. max (left w) 0) ` set (bucket_windows db r u b ct now))"
proof -
  define ps where "ps = ent_windows (active_entitlements db r u b ct now)"
  define q where "q = window_query db r u b now"
  define vs where "vs = raw_views q now ps"
  have sndps: "map snd ps = bucket_windows db r u b ct now"
    by (simp add: ps_def snd_ent_windows bucket_windows_def)
  have dist: "distinct (map window_key ps)"
  proof -
    have "map window_key ps = map qw_key (map snd ps)" by (simp add: window_key_def)
    also have "\<dots> = map qw_key (bucket_windows db r u b ct now)" by (simp only: sndps)
    finally show ?thesis using assms(1) by (simp only: windows_plain_def Let_def)
  qed
  have agg: "map qv_remaining (compute_quota_windows_view_for_credit_types db r u b [ct] now) = map qv_remaining vs"
    unfolding view_without_memo vs_def q_def window_query_def[abs_def] ps_def
    by (simp add: aggregate_map find_active_eq)
  have one: "filter (\<lambda>p'. window_key p' = window_key p) ps = [p]" if "p \<in> set ps" for p
    using that dist by (rule filter_key_single[rotated])
  have row: "qv_remaining v = max (left (snd p)) 0" if v: "v \<in> set vs" and p: "p \<in> set ps" "window_key p = qv_key v" for v p
  proof -
    note rr = raw_view_row[OF v[unfolded vs_def], unfolded p(2)[symmetric] one[OF p(1)]]
    have "0 \<le> q ct (qw_window_seconds (snd p))" by (simp add: q_def window_query_def sum_consume_nonneg)
    then have "window_used q p = q ct (qw_window_seconds (snd p))"
      using active_credit_type[OF p(1)[unfolded ps_def]] by (simp add: window_used_def)
    with rr show ?thesis by (simp add: left_def q_def)
  qed
  have keys: "qv_key ` set vs = window_key ` set ps"
    using raw_views_keys(2)[of q now ps] by (simp add: vs_def)
  have "qv_remaining ` set vs = (\<lambda>p. max (left (snd p)) 0) ` set ps"
  proof (intro equalityI image_subsetI)
    fix v
    assume v: "v \<in> set vs"
    with keys obtain p where p: "p \<in> set ps" "window_key p = qv_key v" by (metis imageE imageI)
    from row[OF v p] p(1) show "qv_remaining v \<in> (\<lambda>p. max (left (snd p)) 0) ` set ps" by simp
  next
    fix p
    assume p: "p \<in> set ps"
    with keys obtain v where v: "v \<in> set vs" "window_key p = qv_key v" by (metis imageE imageI)
    from row[OF v(1) p v(2)] v(1) show "max (left (snd p)) 0 \<in> qv_remaining ` set vs" by (metis imageI)
  qed
  also have "\<dots> = (\<lambda>w. max (left w) 0) ` set (bucket_windows db r u b ct now)"
    unfolding sndps[symmetric] by (simp add: image_image)
  finally have rems: "qv_remaining ` set vs = (\<lambda>w. max (left w) 0) ` set (bucket_windows db r u b ct now)" .
  with assms(2) have ne: "vs \<noteq> []" by auto
  with agg have ne': "compute_quota_windows_view_for_credit_types db r u b [ct] now \<noteq> []" by auto
  have "compute_window_available_for_credit_type db r u b ct now = min_list (map qv_remaining vs)"
    unfolding compute_window_available_for_credit_type_def min_remaining_of_def agg[symmetric]
    using ne' by (simp split: list.split)
  also have "\<dots> = Min (set (map qv_remaining vs))" by (rule min_list_Min) (use ne in simp)
  finally show ?thesis by (simp add: rems)
qed

text \<open>Without shared keys, the window side shown is the window side that can be spent.\<close>

lemma plain_windows_spendable:
  assumes "windows_plain db r u b ct now"
  shows "compute_window_available_for_credit_type db r u b ct now = compute_window_spendable_in_tx db r u b ct now"
proof (cases "bucket_windows db r u b ct now = []")
  case True
  then have "ent_windows (active_entitlements db r u b ct now) = []"
    using snd_ent_windows[of "active_entitlements db r u b ct now"] unfolding bucket_windows_def by (metis map_is_Nil_conv)
  moreover have "compute_window_spendable_in_tx db r u b ct now = 0"
    unfolding spendable_alt True by simp
  ultimately show ?thesis
    by (simp add: compute_window_available_for_credit_type_def view_without_memo aggregate_quota_windows_def
        find_active_eq min_remaining_of_def)
next
  case False
  let ?left = "\<lambda>w. qw_limit w - window_query db r u b now ct (qw_window_seconds w)"
  have "max 0 (Min (?left ` set (bucket_windows db r u b ct now))) =
      Min ((\<lambda>w. max (?left w) 0) ` set (bucket_windows db r u b ct now))"
    using mono_Min_commute[of "\<lambda>x. max x (0 :: int)" "?left ` set (bucket_windows db r u b ct now)"] False
    by (simp add: mono_def image_image max.commute max.coboundedI1)
  with spendable_as_min[OF assms False] available_as_min[OF assms False] show ?thesis by simp
qed

section \<open>The balance shown\<close>

lemma typed_sum_Cons: "typed_sum ct ((t, n) # xs) = (if t = ct then n else 0) + typed_sum ct xs"
proof -
  have "foldl (\<lambda>n (t, amount). if t = ct then n + amount else n) (a :: int) xs =
      a + foldl (\<lambda>n (t, amount). if t = ct then n + amount else n) 0 xs" for a
  proof (induction xs arbitrary: a)
    case Nil
    then show ?case by simp
  next
    case (Cons p xs)
    from Cons[of "a + snd p"] Cons[of "snd p"] Cons[of a] show ?case by (cases p) (auto split: if_splits)
  qed
  from this[of n] show ?thesis by (simp add: typed_sum_def)
qed

lemma typed_sums:
  "typed_sum TopupCredit ds + typed_sum SubscriptionCredit ds + typed_sum GrantedCredit ds +
   typed_sum RegistrationCredit ds + typed_sum FreePeriodicCredit ds = sum_list (map snd ds)"
proof (induction ds)
  case Nil
  then show ?case by (simp add: typed_sum_def)
next
  case (Cons d ds)
  then show ?case by (cases d, cases "fst d") (simp_all add: typed_sum_Cons)
qed

lemma balance_total:
  "bal_balance (build_balance_from_derived account derived wb ex) = sum_list (map snd derived) +
     (case wb SubscriptionCredit of None \<Rightarrow> 0 | Some n \<Rightarrow> n) + (case wb FreePeriodicCredit of None \<Rightarrow> 0 | Some n \<Rightarrow> n)"
  unfolding typed_sums[of derived, symmetric] by (simp add: build_balance_from_derived_def Let_def)

lemma no_entitlement_no_window:
  assumes "b \<notin> ent_bucket_id ` set (find_active_quota_entitlements db r u None ct now)"
  shows "compute_window_available_for_credit_type db r u b ct now = 0"
proof -
  have "find_active_quota_entitlements db r u (Some b) ct now = []"
    using assms by (auto simp: find_active_quota_entitlements_def filter_empty_conv image_iff)
  then show ?thesis
    by (simp add: compute_window_available_for_credit_type_def view_without_memo aggregate_quota_windows_def
        ent_windows_def min_remaining_of_def)
qed

lemma window_balance_sum:
  assumes "distinct cov"
  shows "(case window_balance_of db r u (Some cov) now ct of None \<Rightarrow> 0 | Some n \<Rightarrow> n) =
    sum_list (map (\<lambda>b. compute_window_available_for_credit_type db r u b ct now) cov)"
proof -
  define es where "es = find_active_quota_entitlements db r u None ct now"
  define bs where "bs = remdups (filter (\<lambda>b. b \<in> set cov) (map ent_bucket_id es))"
  let ?f = "\<lambda>b. compute_window_available_for_credit_type db r u b ct now"
  have set_bs: "set bs = set cov \<inter> ent_bucket_id ` set es" by (auto simp: bs_def)
  have "sum_list (map ?f bs) = sum ?f (set bs)" by (simp add: bs_def sum_list_distinct_conv_sum_set)
  also have "\<dots> = sum ?f (set cov)"
    by (rule sum.mono_neutral_left) (auto simp: set_bs no_entitlement_no_window es_def)
  also have "\<dots> = sum_list (map ?f cov)" using assms by (simp add: sum_list_distinct_conv_sum_set)
  finally have sums: "sum_list (map ?f bs) = sum_list (map ?f cov)" .
  have "(case window_balance_of db r u (Some cov) now ct of None \<Rightarrow> 0 | Some n \<Rightarrow> n) = sum_list (map ?f bs)"
    unfolding window_balance_of_def Let_def es_def[symmetric] by (auto simp: bs_def)
  with sums show ?thesis by simp
qed

lemma app_balance_total:
  assumes "distinct cov" "cov = find_covered_bucket_ids_in_tx db r app"
  shows "bal_balance (balance_for_client_app env db r u app) =
    (if cov = [] then 0 else available_total db r u cov (env_now env)) +
    sum_list (map (\<lambda>b. compute_window_available_for_credit_type db r u b SubscriptionCredit (env_now env)) cov) +
    sum_list (map (\<lambda>b. compute_window_available_for_credit_type db r u b FreePeriodicCredit (env_now env)) cov)"
  using window_balance_sum[OF assms(1)]
  unfolding balance_for_client_app_def Let_def assms(2)[symmetric]
  by (simp add: balance_total compute_available_balance_total compute_window_balance_for_buckets_def)


section \<open>Concrete views\<close>



text \<open>
  Two entitlements with a window of one key: the view adds their limits, a consume is held to the
  smaller one, so more is shown than can be spent.
\<close>

definition shared_key_db :: points_db where
  "shared_key_db = demo_db\<lparr>db_entitlements := [demo_entitlement, demo_entitlement\<lparr>ent_id := 401, ent_idempotency_key := ''sub-2''\<rparr>]\<rparr>"

lemma shared_key_shows_more:
  "bal_balance (balance_for_client_app demo_env shared_key_db ''r'' 1 20) = 34 \<and>
   consume_points_atomic demo_env (demo_request 34 None) shared_key_db = Inl (insufficient_points 34 29)"
  by code_simp

end
