(* ===== verification/DistributionRules.thy ===== *)
theory DistributionRules
  imports PaymentAttempt
begin

text \<open>
  Points distribution rules (\<open>domain/src/points/distribution_rules.rs\<close>) and grant schedules
  (\<open>domain/src/points/grant_schedule.rs\<close>): the owner, trigger and policy types, the rule
  validator, the event keys, the selection of the rules that fire, and the folding of the
  result rows of a completed event.  All of it is pure code.

  Calendar months come from \<open>chrono\<close>, so \<open>add_months\<close> is an argument; a day or a week is a
  fixed number of microseconds.
\<close>

section \<open>Grant periods\<close>

datatype grant_period_type = Once | Daily | Weekly | Monthly

definition grant_period_as_str :: "grant_period_type \<Rightarrow> string" where
  [enum_simps]: "grant_period_as_str x = (case x of
       Once \<Rightarrow> ''once'' | Daily \<Rightarrow> ''daily'' | Weekly \<Rightarrow> ''weekly'' | Monthly \<Rightarrow> ''monthly'')"

definition grant_period_from_str :: "string \<Rightarrow> (core_error, grant_period_type) result" where
  [enum_simps]: "grant_period_from_str s = parse_enum (to_lowercase s) ''Invalid grant_period_type'' (\<lambda>s.
     if s = ''once'' then Some Once
     else if s = ''daily'' then Some Daily
     else if s = ''weekly'' then Some Weekly
     else if s = ''monthly'' then Some Monthly
     else None)"

interpretation grant_period: string_enum grant_period_as_str grant_period_from_str
  by unfold_locales (auto simp: enum_simps split: if_splits grant_period_type.splits)

text \<open>\<open>periods_granted as u32\<close> keeps the low 32 bits.\<close>

definition next_grant_time ::
  "(instant \<Rightarrow> nat \<Rightarrow> instant) \<Rightarrow> grant_period_type \<Rightarrow> instant \<Rightarrow> i64 \<Rightarrow> instant" where
  "next_grant_time add_months t base_time periods_granted = (case t of
       Once \<Rightarrow> base_time
     | Daily \<Rightarrow> base_time + days periods_granted
     | Weekly \<Rightarrow> base_time + days (7 * periods_granted)
     | Monthly \<Rightarrow> add_months base_time (nat (periods_granted mod 2 ^ 32)))"

definition calculate_expiration :: "instant \<Rightarrow> i64 \<Rightarrow> instant option" where
  "calculate_expiration grant_time validity_days =
     (if validity_days = 0 then None else Some (grant_time + days validity_days))"

definition should_stop :: "grant_period_type \<Rightarrow> i64 \<Rightarrow> i64 option \<Rightarrow> bool" where
  "should_stop t periods_granted max_periods =
     (if t = Once then 1 \<le> periods_granted
      else case max_periods of Some m \<Rightarrow> m \<le> periods_granted | None \<Rightarrow> False)"

record points_grant_schedule =
  sch_id :: uuid
  sch_user_id :: uuid
  sch_realm_id :: string
  sch_bucket_id :: uuid
  sch_subscription_id :: "uuid option"
  sch_entitlement_key :: string
  sch_grant_period_type :: grant_period_type
  sch_base_time :: instant
  sch_next_grant_time :: instant
  sch_points_per_period :: i64
  sch_validity_days :: i64
  sch_granted_periods :: i64
  sch_max_periods :: "i64 option"
  sch_active :: bool
  sch_distribution_event_id :: uuid
  sch_distribution_rule_id :: uuid
  sch_created_at :: instant
  sch_updated_at :: instant

definition is_due :: "points_grant_schedule \<Rightarrow> instant \<Rightarrow> bool" where
  "is_due s now \<longleftrightarrow> sch_active s \<and> sch_next_grant_time s \<le> now"

definition schedule_should_stop :: "points_grant_schedule \<Rightarrow> bool" where
  "schedule_should_stop s =
     should_stop (sch_grant_period_type s) (sch_granted_periods s) (sch_max_periods s)"

record points_grant_record =
  grec_id :: uuid
  grec_schedule_id :: uuid
  grec_user_id :: uuid
  grec_realm_id :: string
  grec_period_number :: i64
  grec_granted_amount :: i64
  grec_grant_time :: instant
  grec_ledger_id :: uuid
  grec_created_at :: instant

record grant_summary =
  gs_processed :: nat
  gs_skipped :: nat
  gs_failed :: nat
  gs_total_granted :: i64

section \<open>Owners, triggers, policies, rules\<close>

datatype distribution_rule_owner = OwnerEntitlementMapping uuid | OwnerRealmRegistration

definition owner_as_str :: "distribution_rule_owner \<Rightarrow> string" where
  "owner_as_str x = (case x of
       OwnerEntitlementMapping _ \<Rightarrow> ''entitlement_mapping''
     | OwnerRealmRegistration \<Rightarrow> ''realm_registration'')"

definition owner_mapping_id :: "distribution_rule_owner \<Rightarrow> uuid option" where
  "owner_mapping_id x = (case x of
       OwnerEntitlementMapping i \<Rightarrow> Some i
     | OwnerRealmRegistration \<Rightarrow> None)"

datatype distribution_trigger =
    TriggerTopup | TriggerSubscriptionInitial | TriggerSubscriptionRenewal
  | TriggerSubscriptionUpgrade | TriggerRegistration | TriggerFreePeriodicGrant

definition trigger_as_str :: "distribution_trigger \<Rightarrow> string" where
  [enum_simps]: "trigger_as_str x = (case x of
       TriggerTopup \<Rightarrow> ''topup''
     | TriggerSubscriptionInitial \<Rightarrow> ''subscription_initial''
     | TriggerSubscriptionRenewal \<Rightarrow> ''subscription_renewal''
     | TriggerSubscriptionUpgrade \<Rightarrow> ''subscription_upgrade''
     | TriggerRegistration \<Rightarrow> ''registration''
     | TriggerFreePeriodicGrant \<Rightarrow> ''free_periodic_grant'')"

definition trigger_from_str :: "string \<Rightarrow> (core_error, distribution_trigger) result" where
  [enum_simps]: "trigger_from_str s = parse_enum (to_lowercase s) ''Invalid distribution trigger'' (\<lambda>s.
     if s = ''topup'' then Some TriggerTopup
     else if s = ''subscription_initial'' then Some TriggerSubscriptionInitial
     else if s = ''subscription_renewal'' then Some TriggerSubscriptionRenewal
     else if s = ''subscription_upgrade'' then Some TriggerSubscriptionUpgrade
     else if s = ''registration'' then Some TriggerRegistration
     else if s = ''free_periodic_grant'' then Some TriggerFreePeriodicGrant
     else None)"

interpretation distribution_trigger: string_enum trigger_as_str trigger_from_str
  by unfold_locales (auto simp: enum_simps split: if_splits distribution_trigger.splits)

datatype distribution_policy =
    PolicyFixed i64 i64 "grant_period_type option"
  | PolicyQuota "quota_window list"

record points_distribution_rule =
  pdr_id :: uuid
  pdr_realm_id :: string
  pdr_owner :: distribution_rule_owner
  pdr_bucket_id :: uuid
  pdr_trigger_sources :: "distribution_trigger list"
  pdr_policy :: distribution_policy
  pdr_enabled :: bool
  pdr_display_order :: int

section \<open>Validation\<close>

datatype distribution_rule_error =
    EmptyTriggerSources
  | TriggerNotAllowedForOwner distribution_trigger
  | PolicyNotAllowedForTrigger
  | FreePeriodicRequiresGrantPeriod
  | InvalidFixedAmount
  | InvalidValidity
  | RegistrationMustBePermanent
  | InvalidQuotaWindows
  | BucketOutsideRealm
  | BucketDisabled
  | RuleOutsideOwner

definition rule_error_text :: "distribution_rule_error \<Rightarrow> string" where
  "rule_error_text e = (case e of
       EmptyTriggerSources \<Rightarrow> ''distribution rule must declare at least one trigger''
     | TriggerNotAllowedForOwner t \<Rightarrow>
         ''trigger '' @ [CHR 0x27] @ trigger_as_str t @ [CHR 0x27] @ '' is not allowed for this rule owner''
     | PolicyNotAllowedForTrigger \<Rightarrow> ''policy is not allowed for the declared triggers''
     | FreePeriodicRequiresGrantPeriod \<Rightarrow>
         ''free-periodic fixed policy requires grant_period_type; without it the rule would degrade to a one-shot grant''
     | InvalidFixedAmount \<Rightarrow> ''fixed policy requires a positive points amount''
     | InvalidValidity \<Rightarrow> ''validity_days must be >= 0''
     | RegistrationMustBePermanent \<Rightarrow>
         ''registration credit must be permanent (validity_days must be 0)''
     | InvalidQuotaWindows \<Rightarrow> ''quota policy requires valid quota windows''
     | BucketOutsideRealm \<Rightarrow> ''target bucket is outside the rule'' @ [CHR 0x27] @ ''s realm''
     | BucketDisabled \<Rightarrow> ''target bucket is disabled''
     | RuleOutsideOwner \<Rightarrow> ''rule does not belong to the declared owner'')"

definition rule_core_error :: "distribution_rule_error \<Rightarrow> core_error" where
  "rule_core_error e = BadRequest (rule_error_text e)"

definition allowed_triggers_for_billing_type :: "billing_type \<Rightarrow> distribution_trigger list" where
  "allowed_triggers_for_billing_type billing_type = (case billing_type of
       OneTime \<Rightarrow> [TriggerTopup]
     | Recurring \<Rightarrow> [TriggerSubscriptionInitial, TriggerSubscriptionRenewal, TriggerSubscriptionUpgrade]
     | NonRenewing \<Rightarrow> [TriggerSubscriptionInitial])"

definition allowed_triggers ::
  "distribution_rule_owner \<Rightarrow> billing_type option \<Rightarrow> distribution_trigger
     \<Rightarrow> (distribution_rule_error, distribution_trigger list) result" where
  "allowed_triggers owner billing_type first = (case owner of
       OwnerEntitlementMapping _ \<Rightarrow>
         and_then (ok_or billing_type (TriggerNotAllowedForOwner first))
           (\<lambda>b. Inr (allowed_triggers_for_billing_type b))
     | OwnerRealmRegistration \<Rightarrow> Inr [TriggerRegistration, TriggerFreePeriodicGrant])"

definition validate_policy ::
  "distribution_trigger list \<Rightarrow> distribution_policy \<Rightarrow> (distribution_rule_error, unit) result" where
  "validate_policy trigger_sources policy = (case policy of
       PolicyFixed amount validity_days grant_period_type \<Rightarrow>
         and_then (ensure (0 < amount) InvalidFixedAmount) (\<lambda>_.
         and_then (ensure (0 \<le> validity_days) InvalidValidity) (\<lambda>_.
         (let is_free_periodic = TriggerFreePeriodicGrant \<in> set trigger_sources;
              is_registration = TriggerRegistration \<in> set trigger_sources in
          and_then (ensure (is_free_periodic \<or> grant_period_type = None) PolicyNotAllowedForTrigger) (\<lambda>_.
          and_then (ensure (\<not> is_free_periodic \<or> grant_period_type \<noteq> None)
                     FreePeriodicRequiresGrantPeriod) (\<lambda>_.
            ensure (\<not> is_registration \<or> validity_days = 0) RegistrationMustBePermanent)))))
     | PolicyQuota windows \<Rightarrow>
         and_then (ensure (TriggerRegistration \<notin> set trigger_sources \<and> TriggerTopup \<notin> set trigger_sources)
                    PolicyNotAllowedForTrigger) (\<lambda>_.
           ensure (windows \<noteq> [] \<and> length windows \<le> 8 \<and>
                   (\<forall>w \<in> set windows. 0 < qw_window_seconds w \<and> 0 \<le> qw_limit w))
             InvalidQuotaWindows))"

definition validate_rule_for_owner ::
  "points_distribution_rule \<Rightarrow> billing_type option \<Rightarrow> (distribution_rule_error, unit) result" where
  "validate_rule_for_owner rule billing_type =
     (let trigger_sources = dedup_by id [] (pdr_trigger_sources rule) in
      if trigger_sources = [] then Inl EmptyTriggerSources
      else
        and_then (allowed_triggers (pdr_owner rule) billing_type (hd trigger_sources)) (\<lambda>allowed.
        and_then (try_fold (\<lambda>_ t. ensure (t \<in> set allowed) (TriggerNotAllowedForOwner t)) ()
                    trigger_sources) (\<lambda>_.
          validate_policy trigger_sources (pdr_policy rule))))"

record rule_upsert =
  up_id :: "uuid option"
  up_bucket_id :: uuid
  up_trigger_sources :: "distribution_trigger list"
  up_policy :: distribution_policy
  up_enabled :: bool
  up_display_order :: int

definition into_rule_for_owner ::
  "rule_upsert \<Rightarrow> string \<Rightarrow> distribution_rule_owner \<Rightarrow> uuid \<Rightarrow> points_distribution_rule" where
  "into_rule_for_owner up realm_id owner fresh =
     \<lparr>pdr_id = (case up_id up of Some i \<Rightarrow> i | None \<Rightarrow> fresh), pdr_realm_id = realm_id, pdr_owner = owner,
      pdr_bucket_id = up_bucket_id up, pdr_trigger_sources = up_trigger_sources up,
      pdr_policy = up_policy up, pdr_enabled = up_enabled up, pdr_display_order = up_display_order up\<rparr>"

section \<open>Events\<close>

record distribution_event =
  ev_realm_id :: string
  ev_user_id :: uuid
  ev_owner :: distribution_rule_owner
  ev_trigger :: distribution_trigger
  ev_event_key :: string
  ev_source_id :: string
  ev_effective_from :: instant
  ev_effective_until :: "instant option"

definition event_key_for_payment :: "env \<Rightarrow> uuid \<Rightarrow> string" where
  "event_key_for_payment env attempt_id = ''payment:'' @ env_uuid_str env attempt_id"

definition event_key_for_subscription_period :: "env \<Rightarrow> uuid \<Rightarrow> string \<Rightarrow> string" where
  "event_key_for_subscription_period env subscription_id period_start =
     ''subscription:'' @ env_uuid_str env subscription_id @ '':period:'' @ period_start"

definition event_key_for_subscription_upgrade :: "env \<Rightarrow> uuid \<Rightarrow> string \<Rightarrow> string" where
  "event_key_for_subscription_upgrade env subscription_id provider_event_id =
     ''subscription:'' @ env_uuid_str env subscription_id @ '':upgrade:'' @ provider_event_id"

definition event_key_for_registration :: "env \<Rightarrow> uuid \<Rightarrow> string" where
  "event_key_for_registration env user_id = ''registration:'' @ env_uuid_str env user_id"

definition event_key_for_free_periodic :: "env \<Rightarrow> uuid \<Rightarrow> uuid \<Rightarrow> nat \<Rightarrow> string" where
  "event_key_for_free_periodic env user_id rid period_number =
     ''free:'' @ env_uuid_str env user_id @ '':'' @ env_uuid_str env rid @ '':period:'' @
       show_nat period_number"

definition credit_pair_for_trigger :: "distribution_trigger \<Rightarrow> credit_type \<times> credit_source_type" where
  "credit_pair_for_trigger trigger = (case trigger of
       TriggerTopup \<Rightarrow> (TopupCredit, SrcTopup)
     | TriggerSubscriptionInitial \<Rightarrow> (SubscriptionCredit, SrcSubscriptionInitial)
     | TriggerSubscriptionRenewal \<Rightarrow> (SubscriptionCredit, SrcSubscriptionRenewal)
     | TriggerSubscriptionUpgrade \<Rightarrow> (SubscriptionCredit, SrcSubscriptionUpgrade)
     | TriggerRegistration \<Rightarrow> (RegistrationCredit, SrcRegistration)
     | TriggerFreePeriodicGrant \<Rightarrow> (FreePeriodicCredit, SrcFreePeriodicGrant))"

definition quota_source_type_for_trigger ::
  "distribution_trigger \<Rightarrow> (core_error, quota_source_type) result" where
  "quota_source_type_for_trigger trigger = (case trigger of
       TriggerSubscriptionInitial \<Rightarrow> Inr QuotaSubscriptionInitial
     | TriggerSubscriptionRenewal \<Rightarrow> Inr QuotaSubscriptionRenewal
     | TriggerSubscriptionUpgrade \<Rightarrow> Inr QuotaSubscriptionUpgrade
     | TriggerFreePeriodicGrant \<Rightarrow> Inr QuotaFreePeriodicGrant
     | other \<Rightarrow> Inl (BadRequest (''quota policy not allowed for trigger '' @ [CHR 0x27] @
                   trigger_as_str other @ [CHR 0x27])))"

section \<open>Selection\<close>

definition firing_order :: "points_distribution_rule \<Rightarrow> int \<times> uuid" where
  "firing_order r = (pdr_display_order r, pdr_id r)"

definition select_and_sort_rules ::
  "points_distribution_rule list \<Rightarrow> distribution_trigger \<Rightarrow> points_distribution_rule list" where
  "select_and_sort_rules rules trigger =
     dedup_by pdr_id []
       (sort_key firing_order
         (filter (\<lambda>r. pdr_enabled r \<and> trigger \<in> set (pdr_trigger_sources r)) rules))"

section \<open>Results of an event\<close>

datatype distribution_grant_result =
    ResultFixed uuid uuid uuid i64
  | ResultQuota uuid uuid uuid
  | ResultSchedule uuid uuid uuid uuid

datatype distribution_rule_selection =
    CapturedPaymentRules "(uuid \<times> uuid) list"
  | CurrentOwnerRules
  | ScheduledRule uuid

record replay_result_rows =
  rr_ledger_rows :: "(uuid \<times> uuid \<times> uuid \<times> i64) list"
  rr_entitlement_rows :: "(uuid \<times> uuid \<times> uuid) list"
  rr_schedule_rows :: "(uuid \<times> uuid \<times> uuid \<times> uuid) list"

text \<open>\<open>results.len() as i32\<close>: a vector of two billion results does not exist, so the cast is the
  identity on every length the program can reach; it is written out all the same.\<close>

definition as_i32 :: "nat \<Rightarrow> int" where
  "as_i32 n = (int n + 2 ^ 31) mod 2 ^ 32 - 2 ^ 31"

definition replay_corruption :: "env \<Rightarrow> uuid \<Rightarrow> int \<Rightarrow> nat \<Rightarrow> core_error" where
  "replay_corruption env event_id expected actual =
     InternalServerError (''distribution event '' @ env_uuid_str env event_id @
       '' result corruption: expected '' @ show_int expected @ '' results, reconstructed '' @
       show_nat actual)"

definition fold_replay_results ::
  "env \<Rightarrow> replay_result_rows \<Rightarrow> int \<Rightarrow> uuid \<Rightarrow> (core_error, distribution_grant_result list) result" where
  "fold_replay_results env rows result_count event_id =
     (let folded = map (\<lambda>(_, _, _, l). l) (rr_schedule_rows rows);
          results =
            map (\<lambda>(r, b, l, a). ResultFixed r b l a)
              (filter (\<lambda>(r, b, l, a). l \<notin> set folded) (rr_ledger_rows rows)) @
            map (\<lambda>(r, b, e). ResultQuota r b e) (rr_entitlement_rows rows) @
            map (\<lambda>(r, b, s, l). ResultSchedule r b s l) (rr_schedule_rows rows)
      in if as_i32 (length results) \<noteq> result_count
         then Inl (replay_corruption env event_id result_count (length results))
         else Inr results)"

end
