(* ===== verification/Distribution.thy ===== *)
theory Distribution
  imports DistributionRules PointsRevoke
begin

text \<open>
  The distribution executor of \<open>infra/src/points/postgres_repository.rs\<close>: the tables of
  rules, schedules and grant records beside the points tables, the rows' hydration, the upsert
  of a rule set (\<open>infra/src/billing/postgres_repository.rs\<close>), the first run of an event,
  its replay, and the atomic operations around them.

  \<open>Uuid::parse_str\<close>, the month arithmetic of \<open>chrono\<close> and its RFC 3339 text of an
  instant are the arguments collected in \<open>ext\<close>.
\<close>

section \<open>Tables\<close>

record ext =
  ext_parse_uuid :: "string \<Rightarrow> uuid option"
  ext_add_months :: "instant \<Rightarrow> nat \<Rightarrow> instant"
  ext_rfc3339 :: "instant \<Rightarrow> string"

text \<open>A JSONB value, as far as the readers tell values apart: \<open>null\<close>, an array of windows,
  anything else.\<close>

datatype json_value = JsonNull | JsonWindows "quota_window list" | JsonOther

record distribution_rule_row =
  drr_id :: uuid
  drr_realm_id :: string
  drr_owner_type :: string
  drr_mapping_id :: "uuid option"
  drr_bucket_id :: uuid
  drr_trigger_sources :: "string list"
  drr_grant_mode :: string
  drr_points_amount :: "i64 option"
  drr_validity_days :: "i64 option"
  drr_grant_period_type :: "string option"
  drr_quota_windows :: "json_value option"
  drr_enabled :: bool
  drr_display_order :: int

record grants_db =
  gd_points :: points_db
  gd_rules :: "distribution_rule_row list"
  gd_schedules :: "points_grant_schedule list"
  gd_records :: "points_grant_record list"
  gd_captured :: "captured_rule list"

type_synonym 'a gtx = "(core_error, 'a \<times> grants_db) result"

definition on_points :: "(points_db \<Rightarrow> 'a tx) \<Rightarrow> grants_db \<Rightarrow> 'a gtx" where
  "on_points f db = and_then (f (gd_points db)) (\<lambda>(x, p). Inr (x, db\<lparr>gd_points := p\<rparr>))"

definition draw_uuid :: "env \<Rightarrow> grants_db \<Rightarrow> uuid \<times> grants_db" where
  "draw_uuid env db = (let (i, p) = now_v7 env (gd_points db) in (i, db\<lparr>gd_points := p\<rparr>))"

text \<open>The \<open>CHECK\<close> constraints of \<open>points_distribution_rules\<close>.\<close>

definition trigger_texts :: "string list" where
  "trigger_texts = [''topup'', ''subscription_initial'', ''subscription_renewal'', ''subscription_upgrade'',
     ''registration'', ''free_periodic_grant'']"

definition rule_row_check :: "distribution_rule_row \<Rightarrow> bool" where
  "rule_row_check r \<longleftrightarrow>
     drr_owner_type r \<in> {''entitlement_mapping'', ''realm_registration''} \<and>
     (drr_owner_type r = ''entitlement_mapping'') = (drr_mapping_id r \<noteq> None) \<and>
     drr_trigger_sources r \<noteq> [] \<and> set (drr_trigger_sources r) \<subseteq> set trigger_texts \<and>
     drr_grant_mode r \<in> {''fixed'', ''quota''} \<and>
     (case drr_grant_period_type r of None \<Rightarrow> True | Some t \<Rightarrow> t \<in> {''once'', ''daily'', ''weekly'', ''monthly''}) \<and>
     (drr_grant_mode r = ''fixed'' \<longrightarrow>
        (case drr_points_amount r of None \<Rightarrow> False | Some a \<Rightarrow> 0 < a) \<and> drr_quota_windows r = None) \<and>
     (drr_grant_mode r = ''quota'' \<longrightarrow> drr_points_amount r = None \<and> drr_quota_windows r \<noteq> None) \<and>
     (case drr_validity_days r of None \<Rightarrow> True | Some v \<Rightarrow> 0 \<le> v)"

section \<open>Hydration\<close>

definition parse_quota_windows_value :: "json_value option \<Rightarrow> (core_error, quota_window list) result" where
  "parse_quota_windows_value raw = (case raw of
       None \<Rightarrow> Inr []
     | Some JsonNull \<Rightarrow> Inr []
     | Some (JsonWindows ws) \<Rightarrow> Inr ws
     | Some JsonOther \<Rightarrow> Inl (DatabaseError ''invalid free_periodic_quota_windows JSONB''))"

definition serialize_quota_windows_value :: "quota_window list \<Rightarrow> json_value option" where
  "serialize_quota_windows_value windows = (if windows = [] then None else Some (JsonWindows windows))"

definition parsed_triggers :: "string list \<Rightarrow> distribution_trigger list" where
  "parsed_triggers texts =
     concat (map (\<lambda>s. case trigger_from_str s of Inr t \<Rightarrow> [t] | Inl _ \<Rightarrow> []) texts)"

definition parsed_period :: "string option \<Rightarrow> grant_period_type option" where
  "parsed_period text = Option.bind text (\<lambda>s. case grant_period_from_str s of Inr t \<Rightarrow> Some t | Inl _ \<Rightarrow> None)"

text \<open>A \<open>NULL\<close> read into a non-optional Rust value panics.\<close>

definition null_column :: "string \<Rightarrow> core_error" where
  "null_column name = InternalServerError (''unexpected NULL in '' @ name)"

definition rule_row_to_domain :: "distribution_rule_row \<Rightarrow> (core_error, points_distribution_rule) result" where
  "rule_row_to_domain r =
     and_then (if drr_owner_type r = ''entitlement_mapping''
               then and_then (ok_or (drr_mapping_id r) (null_column ''entitlement_mapping_id''))
                      (\<lambda>i. Inr (OwnerEntitlementMapping i))
               else Inr OwnerRealmRegistration) (\<lambda>owner.
     and_then (if drr_grant_mode r = ''quota''
               then Inr (PolicyQuota (case parse_quota_windows_value (drr_quota_windows r) of
                                        Inr ws \<Rightarrow> ws | Inl _ \<Rightarrow> []))
               else and_then (ok_or (drr_points_amount r) (null_column ''points_amount'')) (\<lambda>amount.
                    and_then (ok_or (drr_validity_days r) (null_column ''validity_days'')) (\<lambda>validity_days.
                      Inr (PolicyFixed amount validity_days (parsed_period (drr_grant_period_type r)))))) (\<lambda>policy.
       Inr \<lparr>pdr_id = drr_id r, pdr_realm_id = drr_realm_id r, pdr_owner = owner,
            pdr_bucket_id = drr_bucket_id r, pdr_trigger_sources = parsed_triggers (drr_trigger_sources r),
            pdr_policy = policy, pdr_enabled = drr_enabled r, pdr_display_order = drr_display_order r\<rparr>))"

text \<open>The reader of the management views: it never fails.\<close>

definition rule_from_model :: "distribution_rule_row \<Rightarrow> points_distribution_rule" where
  "rule_from_model r =
     \<lparr>pdr_id = drr_id r, pdr_realm_id = drr_realm_id r,
      pdr_owner = (if drr_owner_type r = ''entitlement_mapping''
                   then OwnerEntitlementMapping (case drr_mapping_id r of Some i \<Rightarrow> i | None \<Rightarrow> 0)
                   else OwnerRealmRegistration),
      pdr_bucket_id = drr_bucket_id r, pdr_trigger_sources = parsed_triggers (drr_trigger_sources r),
      pdr_policy = (if drr_grant_mode r = ''quota''
                    then PolicyQuota (case parse_quota_windows_value (drr_quota_windows r) of
                                        Inr ws \<Rightarrow> ws | Inl _ \<Rightarrow> [])
                    else PolicyFixed (case drr_points_amount r of Some a \<Rightarrow> a | None \<Rightarrow> 0)
                           (case drr_validity_days r of Some v \<Rightarrow> v | None \<Rightarrow> 0)
                           (parsed_period (drr_grant_period_type r))),
      pdr_enabled = drr_enabled r, pdr_display_order = drr_display_order r\<rparr>"

section \<open>Upsert of a rule set\<close>

record policy_columns =
  pc_grant_mode :: string
  pc_points_amount :: "i64 option"
  pc_validity_days :: "i64 option"
  pc_grant_period_type :: "string option"
  pc_quota_windows :: "json_value option"

definition policy_to_columns :: "distribution_policy \<Rightarrow> policy_columns" where
  "policy_to_columns policy = (case policy of
       PolicyFixed amount validity_days grant_period_type \<Rightarrow>
         \<lparr>pc_grant_mode = ''fixed'', pc_points_amount = Some amount, pc_validity_days = Some validity_days,
          pc_grant_period_type = map_option grant_period_as_str grant_period_type, pc_quota_windows = None\<rparr>
     | PolicyQuota windows \<Rightarrow>
         \<lparr>pc_grant_mode = ''quota'', pc_points_amount = None, pc_validity_days = None,
          pc_grant_period_type = None, pc_quota_windows = serialize_quota_windows_value windows\<rparr>)"

definition rule_columns :: "points_distribution_rule \<Rightarrow> distribution_rule_row \<Rightarrow> distribution_rule_row" where
  "rule_columns r row =
     (let c = policy_to_columns (pdr_policy r) in
      row\<lparr>drr_bucket_id := pdr_bucket_id r,
          drr_trigger_sources := map trigger_as_str (pdr_trigger_sources r),
          drr_grant_mode := pc_grant_mode c, drr_points_amount := pc_points_amount c,
          drr_validity_days := pc_validity_days c, drr_grant_period_type := pc_grant_period_type c,
          drr_quota_windows := pc_quota_windows c, drr_enabled := pdr_enabled r,
          drr_display_order := pdr_display_order r\<rparr>)"

definition new_rule_row :: "uuid \<Rightarrow> points_distribution_rule \<Rightarrow> distribution_rule_row" where
  "new_rule_row i r =
     (let c = policy_to_columns (pdr_policy r) in
      \<lparr>drr_id = i, drr_realm_id = pdr_realm_id r, drr_owner_type = owner_as_str (pdr_owner r),
       drr_mapping_id = owner_mapping_id (pdr_owner r), drr_bucket_id = pdr_bucket_id r,
       drr_trigger_sources = map trigger_as_str (pdr_trigger_sources r),
       drr_grant_mode = pc_grant_mode c, drr_points_amount = pc_points_amount c,
       drr_validity_days = pc_validity_days c, drr_grant_period_type = pc_grant_period_type c,
       drr_quota_windows = pc_quota_windows c, drr_enabled = pdr_enabled r,
       drr_display_order = pdr_display_order r\<rparr>)"

definition deactivate_rule_schedules :: "env \<Rightarrow> string \<Rightarrow> uuid \<Rightarrow> points_grant_schedule list \<Rightarrow> points_grant_schedule list" where
  "deactivate_rule_schedules env realm_id rid =
     update_where (\<lambda>s. sch_realm_id s = realm_id \<and> sch_distribution_rule_id s = rid \<and> sch_active s)
       (\<lambda>s. s\<lparr>sch_active := False, sch_updated_at := env_sql_now env\<rparr>)"

text \<open>Rules of the set are written one after the other; \<open>into_rule_for_owner\<close> draws an
  identifier for a new rule and the insert draws another.\<close>

definition upsert_rule_in_tx ::
  "env \<Rightarrow> string \<Rightarrow> distribution_rule_owner \<Rightarrow> grants_db \<Rightarrow> rule_upsert \<Rightarrow> (core_error, grants_db) result" where
  "upsert_rule_in_tx env realm_id owner db up =
     (let (fresh, db1) = (if up_id up = None then draw_uuid env db else (0, db));
          resolved = into_rule_for_owner up realm_id owner fresh in
      and_then (ok_or (find (\<lambda>b. bkt_id b = pdr_bucket_id resolved) (db_buckets (gd_points db1))) NotFound) (\<lambda>b.
      and_then (ensure (bkt_realm_id b = realm_id)
                 (Conflict (''distribution_rule_conflict: bucket '' @ env_uuid_str env (pdr_bucket_id resolved) @
                    '' does not belong to realm '' @ realm_id))) (\<lambda>_.
      and_then (ensure (bkt_enabled b)
                 (Conflict (''distribution_rule_conflict: bucket '' @ env_uuid_str env (pdr_bucket_id resolved) @
                    '' is disabled''))) (\<lambda>_.
      case up_id up of
        Some rid \<Rightarrow>
          and_then (ok_or (find (\<lambda>r. drr_id r = rid) (gd_rules db1)) NotFound) (\<lambda>row.
          and_then (ensure (drr_realm_id row = realm_id \<and> drr_owner_type row = owner_as_str owner \<and>
                            drr_mapping_id row = owner_mapping_id owner)
                     (Conflict (''distribution_rule_conflict: rule '' @ env_uuid_str env rid @
                        '' does not belong to this owner''))) (\<lambda>_.
          and_then (ensure (rule_row_check (rule_columns resolved row))
                     (DatabaseError ''Failed to update rule: points_distribution_rules_check'')) (\<lambda>_.
          (let db2 = db1\<lparr>gd_rules := update_where (\<lambda>r. drr_id r = rid) (rule_columns resolved) (gd_rules db1)\<rparr> in
           Inr (if pdr_enabled resolved then db2
                else db2\<lparr>gd_schedules := deactivate_rule_schedules env realm_id rid (gd_schedules db2)\<rparr>)))))
      | None \<Rightarrow>
          (let (i, db2) = draw_uuid env db1; row = new_rule_row i resolved in
           and_then (ensure (rule_row_check row \<and> (\<forall>r \<in> set (gd_rules db2). drr_id r \<noteq> i))
                      (DatabaseError ''Failed to insert rule: points_distribution_rules_check'')) (\<lambda>_.
             Inr (db2\<lparr>gd_rules := gd_rules db2 @ [row]\<rparr>)))))))"

definition upsert_rules_in_tx ::
  "env \<Rightarrow> string \<Rightarrow> distribution_rule_owner \<Rightarrow> rule_upsert list \<Rightarrow> grants_db \<Rightarrow> (core_error, grants_db) result" where
  "upsert_rules_in_tx env realm_id owner rules db = try_fold (upsert_rule_in_tx env realm_id owner) db rules"

definition find_owner_rules :: "grants_db \<Rightarrow> string \<Rightarrow> distribution_rule_owner \<Rightarrow> points_distribution_rule list" where
  "find_owner_rules db realm_id owner =
     map rule_from_model
       (sort_key (\<lambda>r. (drr_display_order r, drr_id r))
         (filter (\<lambda>r. drr_realm_id r = realm_id \<and> drr_owner_type r = owner_as_str owner \<and>
                      (case owner of
                         OwnerEntitlementMapping i \<Rightarrow> drr_mapping_id r = Some i
                       | OwnerRealmRegistration \<Rightarrow> True))
           (gd_rules db)))"

definition upsert_registration_rules ::
  "env \<Rightarrow> string \<Rightarrow> rule_upsert list \<Rightarrow> grants_db \<Rightarrow> points_distribution_rule list gtx" where
  "upsert_registration_rules env realm_id rules db =
     and_then (upsert_rules_in_tx env realm_id OwnerRealmRegistration rules db) (\<lambda>db'.
       Inr (find_owner_rules db' realm_id OwnerRealmRegistration, db'))"

end
