(* ===== verification/DistributionExec.thy ===== *)
theory DistributionExec
  imports Distribution
begin

text \<open>
  Executing distribution events: loading the rules an event selects, writing one result per
  rule, completing the event row, and reading the results back when the event was completed
  before (\<open>infra/src/points/postgres_repository.rs\<close>).  The two atomic operations retry
  until they see the event's row in a settled state; the loop is a partial function, so that
  not returning is the value \<open>None\<close>.
\<close>

section \<open>Loading rules\<close>

definition bucket_enabled_in_realm_in_tx :: "grants_db \<Rightarrow> string \<Rightarrow> uuid \<Rightarrow> bool" where
  "bucket_enabled_in_realm_in_tx db realm_id bucket_id \<longleftrightarrow>
     (\<exists>b \<in> set (db_buckets (gd_points db)). bkt_id b = bucket_id \<and> bkt_realm_id b = realm_id \<and> bkt_enabled b)"

definition row_order :: "distribution_rule_row \<Rightarrow> int \<times> uuid" where
  "row_order r = (drr_display_order r, drr_id r)"

definition load_current_owner_rules_in_tx ::
  "grants_db \<Rightarrow> string \<Rightarrow> distribution_rule_owner \<Rightarrow> distribution_trigger
     \<Rightarrow> (core_error, points_distribution_rule list) result" where
  "load_current_owner_rules_in_tx db realm_id owner trigger =
     and_then (collect_results rule_row_to_domain
        (sort_key row_order
          (filter (\<lambda>r. drr_realm_id r = realm_id \<and> drr_owner_type r = owner_as_str owner \<and> drr_enabled r \<and>
                       (owner_mapping_id owner = None \<or> drr_mapping_id r = owner_mapping_id owner))
            (gd_rules db)))) (\<lambda>rules.
       Inr (select_and_sort_rules rules trigger))"

definition load_single_rule_in_tx ::
  "grants_db \<Rightarrow> string \<Rightarrow> uuid \<Rightarrow> (core_error, points_distribution_rule) result" where
  "load_single_rule_in_tx db realm_id rid =
     and_then (ok_or (find (\<lambda>r. drr_id r = rid \<and> drr_realm_id r = realm_id) (gd_rules db)) NotFound)
       rule_row_to_domain"

definition select_and_sort_captured ::
  "(points_distribution_rule \<times> uuid) list \<Rightarrow> distribution_trigger \<Rightarrow> (points_distribution_rule \<times> uuid) list" where
  "select_and_sort_captured captured trigger =
     dedup_by (pdr_id \<circ> fst) []
       (sort_key (firing_order \<circ> fst)
         (filter (\<lambda>(r, _). trigger \<in> set (pdr_trigger_sources r)) captured))"

definition load_captured_payment_rules ::
  "grants_db \<Rightarrow> string \<Rightarrow> uuid \<Rightarrow> distribution_trigger
     \<Rightarrow> (core_error, (points_distribution_rule \<times> uuid) list) result" where
  "load_captured_payment_rules db realm_id payment_attempt_id trigger =
     and_then (collect_results (\<lambda>(row, bucket). and_then (rule_row_to_domain row) (\<lambda>r. Inr (r, bucket)))
        (sort_key (row_order \<circ> fst)
          (concat (map (\<lambda>s. map (\<lambda>r. (r, cap_bucket_id s))
                               (filter (\<lambda>r. drr_id r = cap_rule_id s \<and> drr_realm_id r = realm_id) (gd_rules db)))
             (filter (\<lambda>s. cap_attempt_id s = payment_attempt_id) (gd_captured db)))))) (\<lambda>rows.
       Inr (select_and_sort_captured rows trigger))"

section \<open>The event row\<close>

datatype event_insert_outcome = InsertedProcessing uuid | ExistingEvent uuid string

definition same_event :: "distribution_event \<Rightarrow> distribution_event_row \<Rightarrow> bool" where
  "same_event event e \<longleftrightarrow> evt_realm_id e = ev_realm_id event \<and> evt_user_id e = ev_user_id event \<and>
     evt_trigger e = trigger_as_str (ev_trigger event) \<and> evt_event_key e = ev_event_key event"

definition new_event_row :: "uuid \<Rightarrow> distribution_event \<Rightarrow> distribution_event_row" where
  "new_event_row i event =
     \<lparr>evt_id = i, evt_realm_id = ev_realm_id event, evt_user_id = ev_user_id event,
      evt_trigger = trigger_as_str (ev_trigger event), evt_event_key = ev_event_key event,
      evt_source_id = ev_source_id event, evt_owner_type = owner_as_str (ev_owner event),
      evt_mapping_id = owner_mapping_id (ev_owner event), evt_status = ''processing'',
      evt_result_count = None, evt_completed_at = None\<rparr>"

definition insert_or_load_event_in_tx :: "env \<Rightarrow> distribution_event \<Rightarrow> points_db \<Rightarrow> event_insert_outcome tx" where
  "insert_or_load_event_in_tx env event db =
     (let (event_id, db1) = now_v7 env db in
      case find (same_event event) (db_events db1) of
        Some e \<Rightarrow> Inr (ExistingEvent (evt_id e) (evt_status e), db1)
      | None \<Rightarrow>
          and_then (ensure (\<forall>e \<in> set (db_events db1). evt_id e \<noteq> event_id)
                     (DatabaseError ''points_distribution_events_pkey'')) (\<lambda>_.
          and_then (ensure (\<exists>a \<in> set (db_accounts db1). fst a = ev_user_id event)
                     (DatabaseError ''points_distribution_events_user_id_fkey'')) (\<lambda>_.
            Inr (InsertedProcessing event_id,
                 db1\<lparr>db_events := db_events db1 @ [new_event_row event_id event]\<rparr>))))"

definition lock_completed_event_for_replay_in_tx :: "points_db \<Rightarrow> uuid \<Rightarrow> int option" where
  "lock_completed_event_for_replay_in_tx db event_id =
     Option.bind (find (\<lambda>e. evt_id e = event_id \<and> evt_status e = ''completed'') (db_events db)) evt_result_count"

definition complete_event_in_tx :: "env \<Rightarrow> points_db \<Rightarrow> uuid \<Rightarrow> int \<Rightarrow> points_db" where
  "complete_event_in_tx env db event_id result_count =
     db\<lparr>db_events := update_where (\<lambda>e. evt_id e = event_id \<and> evt_status e = ''processing'')
          (\<lambda>e. e\<lparr>evt_status := ''completed'', evt_result_count := Some result_count,
                 evt_completed_at := Some (env_sql_now env)\<rparr>)
          (db_events db)\<rparr>"

section \<open>Replay\<close>

definition replay_ledger_rows_in_tx :: "points_db \<Rightarrow> uuid \<Rightarrow> (uuid \<times> uuid \<times> uuid \<times> i64) list" where
  "replay_ledger_rows_in_tx db event_id =
     map (\<lambda>l. (the (led_distribution_rule_id l), led_bucket_id l, led_id l, led_granted_amount l))
       (sort_key (\<lambda>l. the (led_distribution_rule_id l))
         (filter (\<lambda>l. led_distribution_event_id l = Some event_id \<and> led_distribution_rule_id l \<noteq> None)
           (db_ledgers db)))"

definition replay_quota_rows_in_tx :: "points_db \<Rightarrow> uuid \<Rightarrow> (uuid \<times> uuid \<times> uuid) list" where
  "replay_quota_rows_in_tx db event_id =
     map (\<lambda>q. (the (ent_distribution_rule_id q), ent_bucket_id q, ent_id q))
       (sort_key (\<lambda>q. the (ent_distribution_rule_id q))
         (filter (\<lambda>q. ent_distribution_event_id q = Some event_id \<and> ent_distribution_rule_id q \<noteq> None)
           (db_entitlements db)))"

text \<open>The grant record of the first period is unique; without one the nil identifier is used.\<close>

definition first_ledger_of :: "grants_db \<Rightarrow> uuid \<Rightarrow> uuid" where
  "first_ledger_of db schedule_id =
     (case find (\<lambda>g. grec_schedule_id g = schedule_id \<and> grec_period_number g = 1) (gd_records db) of
        Some g \<Rightarrow> grec_ledger_id g
      | None \<Rightarrow> 0)"

definition replay_schedule_rows_in_tx :: "grants_db \<Rightarrow> uuid \<Rightarrow> (uuid \<times> uuid \<times> uuid \<times> uuid) list" where
  "replay_schedule_rows_in_tx db event_id =
     map (\<lambda>s. (sch_distribution_rule_id s, sch_bucket_id s, sch_id s, first_ledger_of db (sch_id s)))
       (sort_key sch_distribution_rule_id
         (filter (\<lambda>s. sch_distribution_event_id s = event_id) (gd_schedules db)))"

definition replay_rows :: "grants_db \<Rightarrow> uuid \<Rightarrow> replay_result_rows" where
  "replay_rows db event_id =
     \<lparr>rr_ledger_rows = replay_ledger_rows_in_tx (gd_points db) event_id,
      rr_entitlement_rows = replay_quota_rows_in_tx (gd_points db) event_id,
      rr_schedule_rows = replay_schedule_rows_in_tx db event_id\<rparr>"

section \<open>Writing the results\<close>

text \<open>What a write needs to know of its event and rule.\<close>

record attribution =
  at_event_id :: uuid
  at_rule_id :: uuid
  at_bucket_id :: uuid
  at_user_id :: uuid
  at_realm_id :: string

definition distribution_text :: "env \<Rightarrow> attribution \<Rightarrow> string" where
  "distribution_text env at =
     ''distribution:'' @ env_uuid_str env (at_event_id at) @ '':'' @ env_uuid_str env (at_rule_id at)"

definition fixed_expires_at :: "env \<Rightarrow> i64 \<Rightarrow> credit_type \<Rightarrow> instant option" where
  "fixed_expires_at env validity_days credit_type =
     (if credit_type = RegistrationCredit then None
      else if validity_days = 0 then None
      else Some (env_now env + days validity_days))"

definition rule_ledger ::
  "env \<Rightarrow> attribution \<Rightarrow> uuid \<Rightarrow> credit_type \<Rightarrow> credit_source_type \<Rightarrow> i64 \<Rightarrow> instant option \<Rightarrow> instant option
     \<Rightarrow> points_credit_ledger" where
  "rule_ledger env at i credit_type source_type amount effective_at expires_at =
     \<lparr>led_id = i, led_user_id = at_user_id at, led_realm_id = at_realm_id at,
      led_bucket_id = at_bucket_id at, led_credit_type = credit_type, led_source_type = source_type,
      led_source_id = ''distribution:'' @ env_uuid_str env (at_event_id at),
      led_granted_amount = amount, led_used_amount = 0, led_revoked_amount = 0,
      led_expires_at = expires_at, led_effective_at = effective_at, led_status = LedgerActive,
      led_distribution_event_id = Some (at_event_id at), led_distribution_rule_id = Some (at_rule_id at),
      led_created_at = env_now env, led_updated_at = env_now env\<rparr>"

definition write_rule_ledger_in_tx ::
  "env \<Rightarrow> attribution \<Rightarrow> credit_type \<Rightarrow> credit_source_type \<Rightarrow> i64 \<Rightarrow> instant option \<Rightarrow> instant option
     \<Rightarrow> points_db \<Rightarrow> points_credit_ledger tx" where
  "write_rule_ledger_in_tx env at credit_type source_type amount effective_at expires_at db =
     and_then (ensure_wallet_in_tx env db (at_realm_id at) (at_user_id at) (at_bucket_id at)) (\<lambda>(wallet, db1).
     and_then (ensure (wal_status wallet = WalletActive)
                (BadRequest (''Cannot grant points to '' @ wallet_status_as_str (wal_status wallet) @ '' wallet''))) (\<lambda>_.
     (let (i, db2) = now_v7 env db1 in
      and_then (create_ledger_in_tx db2
                  (rule_ledger env at i credit_type source_type amount effective_at expires_at)) (\<lambda>(created, db3).
      and_then (apply_wallet_delta_in_tx env db3 (wal_id wallet) (wallet_delta_grant credit_type amount)) (\<lambda>(_, db4).
        Inr (created, db4))))))"

definition write_rule_transaction_in_tx ::
  "env \<Rightarrow> attribution \<Rightarrow> credit_type \<Rightarrow> credit_source_type \<Rightarrow> i64 \<Rightarrow> points_db \<Rightarrow> unit tx" where
  "write_rule_transaction_in_tx env at credit_type source_type amount db =
     and_then (ensure_wallet_in_tx env db (at_realm_id at) (at_user_id at) (at_bucket_id at)) (\<lambda>(wallet, db1).
     (let (balance_after, topup_after, subscription_after) = derived_to_balance_snapshots
            (compute_available_balance db1 (at_realm_id at) (at_user_id at) [at_bucket_id at] (env_now env));
          (tid, db2) = now_v7 env db1
      in and_then (create_transaction_in_tx db2
           \<lparr>txn_id = tid, txn_wallet_id = wal_id wallet, txn_user_id = at_user_id at,
            txn_realm_id = at_realm_id at, txn_bucket_id = at_bucket_id at,
            txn_transaction_type = determine_transaction_type credit_type source_type,
            txn_amount = amount, txn_balance_after = balance_after,
            txn_topup_balance_after = topup_after, txn_subscription_balance_after = subscription_after,
            txn_credit_type = Some credit_type,
            txn_description = Some (credit_source_type_as_str source_type @ '': '' @ show_int amount @
              '' points granted''),
            txn_client_app_id = None, txn_subscription_id = None,
            txn_external_ref_id = Some (distribution_text env at), txn_correlation_id = None,
            txn_effective_at = None, txn_distribution_event_id = Some (at_event_id at),
            txn_distribution_rule_id = Some (at_rule_id at), txn_created_at = env_now env\<rparr>)
          (\<lambda>(_, db3). Inr ((), db3))))"

definition write_grant_record_in_tx ::
  "env \<Rightarrow> attribution \<Rightarrow> uuid \<Rightarrow> uuid \<Rightarrow> i64 \<Rightarrow> i64 \<Rightarrow> instant \<Rightarrow> grants_db \<Rightarrow> (core_error, grants_db) result" where
  "write_grant_record_in_tx env at schedule_id ledger_id period_number granted_amount grant_time db =
     (let (i, db1) = draw_uuid env db in
      and_then (ensure (0 < period_number \<and> 0 < granted_amount) (DatabaseError ''points_grant_records_check'')) (\<lambda>_.
      and_then (ensure (\<forall>g \<in> set (gd_records db1).
                   \<not> (grec_schedule_id g = schedule_id \<and> grec_period_number g = period_number))
                 (DatabaseError ''uk_points_grant_records_schedule_period'')) (\<lambda>_.
        Inr (db1\<lparr>gd_records := gd_records db1 @
          [\<lparr>grec_id = i, grec_schedule_id = schedule_id, grec_user_id = at_user_id at,
            grec_realm_id = at_realm_id at, grec_period_number = period_number,
            grec_granted_amount = granted_amount, grec_grant_time = grant_time,
            grec_ledger_id = ledger_id, grec_created_at = env_sql_now env\<rparr>]\<rparr>))))"

definition new_schedule ::
  "ext \<Rightarrow> env \<Rightarrow> attribution \<Rightarrow> uuid \<Rightarrow> grant_period_type \<Rightarrow> instant \<Rightarrow> i64 \<Rightarrow> i64 \<Rightarrow> points_grant_schedule" where
  "new_schedule x env at schedule_id period_type base_time points_per_period validity_days =
     \<lparr>sch_id = schedule_id, sch_user_id = at_user_id at, sch_realm_id = at_realm_id at,
      sch_bucket_id = at_bucket_id at, sch_subscription_id = None, sch_entitlement_key = '''',
      sch_grant_period_type = period_type, sch_base_time = base_time,
      sch_next_grant_time = next_grant_time (ext_add_months x) period_type base_time 1,
      sch_points_per_period = points_per_period, sch_validity_days = validity_days,
      sch_granted_periods = 1, sch_max_periods = None,
      sch_active = (\<not> should_stop period_type 1 None),
      sch_distribution_event_id = at_event_id at, sch_distribution_rule_id = at_rule_id at,
      sch_created_at = env_sql_now env, sch_updated_at = env_sql_now env\<rparr>"

definition write_schedule_in_tx ::
  "ext \<Rightarrow> env \<Rightarrow> attribution \<Rightarrow> uuid \<Rightarrow> grant_period_type \<Rightarrow> instant \<Rightarrow> i64 \<Rightarrow> i64 \<Rightarrow> grants_db
     \<Rightarrow> (core_error, grants_db) result" where
  "write_schedule_in_tx x env at schedule_id period_type base_time points_per_period validity_days db =
     and_then (ensure (0 \<le> points_per_period \<and> 0 \<le> validity_days) (DatabaseError ''points_grant_schedules_check'')) (\<lambda>_.
     and_then (ensure (\<forall>s \<in> set (gd_schedules db). sch_id s \<noteq> schedule_id)
                (DatabaseError ''points_grant_schedules_pkey'')) (\<lambda>_.
     and_then (ensure (\<forall>s \<in> set (gd_schedules db).
                  \<not> (sch_realm_id s = at_realm_id at \<and> sch_user_id s = at_user_id at \<and>
                     sch_distribution_rule_id s = at_rule_id at))
                (DatabaseError ''uq_points_grant_schedules_user_rule'')) (\<lambda>_.
       Inr (db\<lparr>gd_schedules := gd_schedules db @
         [new_schedule x env at schedule_id period_type base_time points_per_period validity_days]\<rparr>))))"

definition write_quota_entitlement_in_tx ::
  "env \<Rightarrow> attribution \<Rightarrow> credit_type \<Rightarrow> quota_source_type \<Rightarrow> string \<Rightarrow> quota_window list \<Rightarrow> instant \<Rightarrow> instant option
     \<Rightarrow> points_db \<Rightarrow> points_quota_entitlement tx" where
  "write_quota_entitlement_in_tx env at credit_type source_type source_id windows effective_from effective_until db =
     (let (i, db1) = now_v7 env db;
          q = \<lparr>ent_id = i, ent_user_id = at_user_id at, ent_realm_id = at_realm_id at,
               ent_bucket_id = at_bucket_id at, ent_credit_type = credit_type, ent_source_type = source_type,
               ent_source_id = source_id, ent_quota_windows = windows, ent_effective_from = effective_from,
               ent_effective_until = effective_until, ent_status = QuotaActive,
               ent_idempotency_key = distribution_text env at,
               ent_distribution_event_id = Some (at_event_id at),
               ent_distribution_rule_id = Some (at_rule_id at),
               ent_created_at = env_now env, ent_updated_at = env_now env\<rparr>
      in and_then (ensure (serialize_quota_windows_value windows \<noteq> None \<and>
                      credit_type \<in> {SubscriptionCredit, FreePeriodicCredit})
                    (DatabaseError ''points_quota_entitlements_check'')) (\<lambda>_.
         and_then (ensure (\<forall>e \<in> set (db_entitlements db1). ent_id e \<noteq> i)
                    (DatabaseError ''points_quota_entitlements_pkey'')) (\<lambda>_.
         and_then (ensure (\<forall>e \<in> set (db_entitlements db1).
                       \<not> (ent_distribution_rule_id e \<noteq> None \<and>
                          ent_distribution_event_id e = Some (at_event_id at) \<and>
                          ent_distribution_rule_id e = Some (at_rule_id at)))
                    (DatabaseError ''idx_points_quota_entitlements_event_rule'')) (\<lambda>_.
           Inr (q, db1\<lparr>db_entitlements := db_entitlements db1 @ [q]\<rparr>)))))"

section \<open>The first run of an event\<close>

type_synonym resolved_rule = "points_distribution_rule \<times> uuid \<times> distribution_trigger"

definition selection_triggers :: "distribution_trigger \<Rightarrow> distribution_trigger list" where
  "selection_triggers trigger =
     (if trigger = TriggerRegistration then [TriggerRegistration, TriggerFreePeriodicGrant] else [trigger])"

definition accumulate_rules ::
  "distribution_trigger \<Rightarrow> resolved_rule list \<Rightarrow> points_distribution_rule list \<Rightarrow> resolved_rule list" where
  "accumulate_rules t =
     foldl (\<lambda>acc r. if \<exists>y \<in> set acc. pdr_id (fst y) = pdr_id r then acc
                     else acc @ [(r, pdr_bucket_id r, t)])"

definition schedule_of :: "grants_db \<Rightarrow> string \<Rightarrow> uuid \<Rightarrow> uuid \<Rightarrow> points_grant_schedule option" where
  "schedule_of db realm_id user_id rid =
     find (\<lambda>s. sch_realm_id s = realm_id \<and> sch_user_id s = user_id \<and> sch_distribution_rule_id s = rid)
       (gd_schedules db)"

definition resolve_rules ::
  "ext \<Rightarrow> grants_db \<Rightarrow> distribution_event \<Rightarrow> distribution_rule_selection
     \<Rightarrow> (core_error, resolved_rule list) result" where
  "resolve_rules x db event selection = (case selection of
       CapturedPaymentRules refs \<Rightarrow>
         if refs = [] then Inr []
         else
           and_then (ok_or (ext_parse_uuid x (ev_source_id event))
              (DatabaseError (''captured-payment selection requires a UUID source_id, got '' @ [CHR 0x27] @
                 ev_source_id event @ [CHR 0x27]))) (\<lambda>payment_attempt_id.
           and_then (load_captured_payment_rules db (ev_realm_id event) payment_attempt_id (ev_trigger event))
             (\<lambda>rules. Inr (map (\<lambda>(r, b). (r, b, ev_trigger event)) rules)))
     | CurrentOwnerRules \<Rightarrow>
         try_fold (\<lambda>acc t.
             and_then (load_current_owner_rules_in_tx db (ev_realm_id event) (ev_owner event) t)
               (\<lambda>rules. Inr (accumulate_rules t acc rules)))
           [] (selection_triggers (ev_trigger event))
     | ScheduledRule rid \<Rightarrow>
         and_then (load_single_rule_in_tx db (ev_realm_id event) rid) (\<lambda>rule.
         and_then (ok_or (schedule_of db (ev_realm_id event) (ev_user_id event) rid) NotFound) (\<lambda>s.
           Inr [(rule, sch_bucket_id s, TriggerFreePeriodicGrant)])))"

definition check_buckets :: "env \<Rightarrow> grants_db \<Rightarrow> string \<Rightarrow> resolved_rule list \<Rightarrow> (core_error, unit) result" where
  "check_buckets env db realm_id resolved =
     try_fold (\<lambda>_ (r, b, _).
         ensure (bucket_enabled_in_realm_in_tx db realm_id b)
           (BadRequest (''distribution target bucket '' @ env_uuid_str env b @ '' for rule '' @
              env_uuid_str env (pdr_id r) @ '' is disabled or outside realm'')))
       () resolved"

text \<open>The update of the schedule row, from the row read under the lock.\<close>

definition advance_schedule ::
  "ext \<Rightarrow> env \<Rightarrow> points_grant_schedule \<Rightarrow> points_grant_schedule \<Rightarrow> points_grant_schedule" where
  "advance_schedule x env s y =
     (let period_number = sch_granted_periods s + 1 in
      y\<lparr>sch_next_grant_time := next_grant_time (ext_add_months x) (sch_grant_period_type s) (sch_base_time s) period_number,
        sch_granted_periods := period_number,
        sch_active := \<not> should_stop (sch_grant_period_type s) period_number (sch_max_periods s),
        sch_updated_at := env_sql_now env\<rparr>)"

definition execute_scheduled_fixed_in_tx ::
  "ext \<Rightarrow> env \<Rightarrow> distribution_event \<Rightarrow> attribution \<Rightarrow> credit_source_type \<Rightarrow> grants_db
     \<Rightarrow> points_credit_ledger gtx" where
  "execute_scheduled_fixed_in_tx x env event at source_type db =
     and_then (ok_or (schedule_of db (ev_realm_id event) (ev_user_id event) (at_rule_id at)) NotFound) (\<lambda>s.
     and_then (ensure (sch_active s) (BadRequest ''free-periodic grant schedule is inactive'')) (\<lambda>_.
     (let period_number = sch_granted_periods s + 1;
          expires_at = calculate_expiration (ev_effective_from event) (sch_validity_days s)
      in and_then (on_points (write_rule_ledger_in_tx env at FreePeriodicCredit source_type
                      (sch_points_per_period s) (Some (ev_effective_from event)) expires_at) db) (\<lambda>(ledger, db1).
         and_then (on_points (write_rule_transaction_in_tx env at FreePeriodicCredit source_type
                      (sch_points_per_period s)) db1) (\<lambda>(_, db2).
         and_then (write_grant_record_in_tx env at (sch_id s) (led_id ledger) period_number
                      (sch_points_per_period s) (ev_effective_from event) db2) (\<lambda>db3.
           Inr (ledger, db3\<lparr>gd_schedules :=
             update_where (\<lambda>y. sch_id y = sch_id s) (advance_schedule x env s) (gd_schedules db3)\<rparr>)))))))"

definition execute_periodic_fixed ::
  "ext \<Rightarrow> env \<Rightarrow> attribution \<Rightarrow> credit_type \<Rightarrow> credit_source_type \<Rightarrow> i64 \<Rightarrow> i64 \<Rightarrow> grant_period_type \<Rightarrow> grants_db
     \<Rightarrow> distribution_grant_result gtx" where
  "execute_periodic_fixed x env at credit_type source_type amount validity_days period_type db =
     (let (schedule_id, db0) = draw_uuid env db;
          expires_at = calculate_expiration (env_now env) validity_days
      in and_then (on_points (write_rule_ledger_in_tx env at credit_type source_type amount
                      (Some (env_now env)) expires_at) db0) (\<lambda>(first_ledger, db1).
         and_then (on_points (write_rule_transaction_in_tx env at credit_type source_type amount) db1) (\<lambda>(_, db2).
         and_then (write_grant_record_in_tx env at schedule_id (led_id first_ledger) 1 amount (env_now env) db2) (\<lambda>db3.
         and_then (write_schedule_in_tx x env at schedule_id period_type (env_now env) amount validity_days db3) (\<lambda>db4.
           Inr (ResultSchedule (at_rule_id at) (at_bucket_id at) schedule_id (led_id first_ledger), db4))))))"

definition execute_plain_fixed ::
  "env \<Rightarrow> attribution \<Rightarrow> credit_type \<Rightarrow> credit_source_type \<Rightarrow> i64 \<Rightarrow> i64 \<Rightarrow> grants_db
     \<Rightarrow> distribution_grant_result gtx" where
  "execute_plain_fixed env at credit_type source_type amount validity_days db =
     and_then (on_points (write_rule_ledger_in_tx env at credit_type source_type amount None
                 (fixed_expires_at env validity_days credit_type)) db) (\<lambda>(ledger, db1).
     and_then (on_points (write_rule_transaction_in_tx env at credit_type source_type amount) db1) (\<lambda>(_, db2).
       Inr (ResultFixed (at_rule_id at) (at_bucket_id at) (led_id ledger) amount, db2)))"

definition rule_attribution :: "uuid \<Rightarrow> distribution_event \<Rightarrow> points_distribution_rule \<Rightarrow> uuid \<Rightarrow> attribution" where
  "rule_attribution event_id event r bucket =
     \<lparr>at_event_id = event_id, at_rule_id = pdr_id r, at_bucket_id = bucket,
      at_user_id = ev_user_id event, at_realm_id = ev_realm_id event\<rparr>"

definition execute_rule ::
  "ext \<Rightarrow> env \<Rightarrow> uuid \<Rightarrow> distribution_event \<Rightarrow> distribution_rule_selection \<Rightarrow> resolved_rule \<Rightarrow> grants_db
     \<Rightarrow> distribution_grant_result gtx" where
  "execute_rule x env event_id event selection rr db =
     (case rr of (rule, bucket, execution_trigger) \<Rightarrow>
      (let (credit_type, source_type) = credit_pair_for_trigger execution_trigger;
           at = rule_attribution event_id event rule bucket
       in case pdr_policy rule of
            PolicyFixed amount validity_days grant_period_type \<Rightarrow>
              (case selection of
                 ScheduledRule _ \<Rightarrow>
                   and_then (execute_scheduled_fixed_in_tx x env event at source_type db) (\<lambda>(ledger, db').
                     Inr (ResultFixed (pdr_id rule) bucket (led_id ledger) (led_granted_amount ledger), db'))
               | _ \<Rightarrow>
                   (case grant_period_type of
                      Some period_type \<Rightarrow>
                        execute_periodic_fixed x env at credit_type source_type amount validity_days period_type db
                    | None \<Rightarrow> execute_plain_fixed env at credit_type source_type amount validity_days db))
          | PolicyQuota windows \<Rightarrow>
              and_then (quota_source_type_for_trigger execution_trigger) (\<lambda>quota_source.
              and_then (on_points (write_quota_entitlement_in_tx env at credit_type quota_source
                          (ev_source_id event) windows (ev_effective_from event) (ev_effective_until event)) db)
                (\<lambda>(entitlement, db'). Inr (ResultQuota (pdr_id rule) bucket (ent_id entitlement), db')))))"

definition execute_rule_step ::
  "ext \<Rightarrow> env \<Rightarrow> uuid \<Rightarrow> distribution_event \<Rightarrow> distribution_rule_selection
     \<Rightarrow> distribution_grant_result list \<times> grants_db \<Rightarrow> resolved_rule
     \<Rightarrow> (core_error, distribution_grant_result list \<times> grants_db) result" where
  "execute_rule_step x env event_id event selection s rr =
     and_then (execute_rule x env event_id event selection rr (snd s)) (\<lambda>(result, db'). Inr (fst s @ [result], db'))"

definition execute_first_run_in_tx ::
  "ext \<Rightarrow> env \<Rightarrow> uuid \<Rightarrow> distribution_event \<Rightarrow> distribution_rule_selection \<Rightarrow> grants_db
     \<Rightarrow> distribution_grant_result list gtx" where
  "execute_first_run_in_tx x env event_id event selection db =
     and_then (resolve_rules x db event selection) (\<lambda>unsorted.
     (let resolved = sort_key (firing_order \<circ> fst) unsorted in
      and_then (check_buckets env db (ev_realm_id event) resolved) (\<lambda>_.
      and_then (try_fold (execute_rule_step x env event_id event selection) ([], db) resolved) (\<lambda>(results, db1).
      and_then (ensure (int (length results) < 2 ^ 31)
                 (InternalServerError ''distribution event result count overflow'')) (\<lambda>_.
        Inr (results, db1\<lparr>gd_points := complete_event_in_tx env (gd_points db1) event_id (int (length results))\<rparr>))))))"

section \<open>Free periods and distribution sources\<close>

definition end_at :: "instant \<Rightarrow> instant option \<Rightarrow> instant option" where
  "end_at t until = Some (case until of None \<Rightarrow> t | Some u \<Rightarrow> min u t)"

definition registration_free_rule :: "grants_db \<Rightarrow> uuid \<Rightarrow> bool" where
  "registration_free_rule db rid \<longleftrightarrow>
     (\<exists>r \<in> set (gd_rules db). drr_id r = rid \<and> drr_owner_type r = ''realm_registration'' \<and>
        ''free_periodic_grant'' \<in> set (drr_trigger_sources r))"

definition deactivate_free_periodic_results_in_tx ::
  "env \<Rightarrow> string \<Rightarrow> uuid \<Rightarrow> instant \<Rightarrow> grants_db \<Rightarrow> grants_db" where
  "deactivate_free_periodic_results_in_tx env realm_id user_id deactivate_at db =
     db\<lparr>gd_points := (gd_points db)\<lparr>db_entitlements :=
          update_where (\<lambda>q. (case ent_distribution_rule_id q of None \<Rightarrow> False | Some rid \<Rightarrow> registration_free_rule db rid) \<and>
                            ent_realm_id q = realm_id \<and> ent_user_id q = user_id \<and> ent_status q = QuotaActive \<and>
                            ent_source_type q = QuotaFreePeriodicGrant)
            (\<lambda>q. q\<lparr>ent_status := QuotaRevoked, ent_effective_until := end_at deactivate_at (ent_effective_until q),
                   ent_updated_at := env_sql_now env\<rparr>)
            (db_entitlements (gd_points db))\<rparr>,
        gd_schedules :=
          update_where (\<lambda>s. registration_free_rule db (sch_distribution_rule_id s) \<and>
                            sch_realm_id s = realm_id \<and> sch_user_id s = user_id \<and> sch_active s)
            (\<lambda>s. s\<lparr>sch_active := False, sch_updated_at := env_sql_now env\<rparr>)
            (gd_schedules db)\<rparr>"

text \<open>SQL's \<open>LIKE\<close>: \<open>%\<close> matches any text, \<open>_\<close> one character, a backslash quotes.\<close>

fun sql_like :: "string \<Rightarrow> string \<Rightarrow> bool" where
  "sql_like [] t = (t = [])"
| "sql_like (c # p) t =
     (if c = CHR ''%'' then sql_like p t \<or> (case t of [] \<Rightarrow> False | d # u \<Rightarrow> sql_like (c # p) u)
      else if c = CHR 0x5C then (case (p, t) of (e # q, d # u) \<Rightarrow> e = d \<and> sql_like q u | _ \<Rightarrow> False)
      else (case t of [] \<Rightarrow> False | d # u \<Rightarrow> (c = CHR ''_'' \<or> c = d) \<and> sql_like p u))"

definition source_events :: "points_db \<Rightarrow> string \<Rightarrow> uuid \<Rightarrow> string \<Rightarrow> uuid set" where
  "source_events db realm_id user_id source_id =
     evt_id ` {e \<in> set (db_events db). evt_realm_id e = realm_id \<and> evt_user_id e = user_id \<and>
        (evt_source_id e = source_id \<or> sql_like (''subscription:'' @ source_id @ '':%'') (evt_event_key e))}"

definition of_source :: "points_db \<Rightarrow> string \<Rightarrow> uuid \<Rightarrow> string \<Rightarrow> uuid option \<Rightarrow> bool" where
  "of_source db realm_id user_id source_id event_id \<longleftrightarrow>
     (case event_id of None \<Rightarrow> False | Some i \<Rightarrow> i \<in> source_events db realm_id user_id source_id)"

definition source_ledgers :: "points_db \<Rightarrow> string \<Rightarrow> uuid \<Rightarrow> string \<Rightarrow> points_credit_ledger list" where
  "source_ledgers db realm_id user_id source_id =
     sort_key (\<lambda>l. (led_bucket_id l, led_id l))
       (filter (\<lambda>l. of_source db realm_id user_id source_id (led_distribution_event_id l) \<and>
                    led_distribution_rule_id l \<noteq> None \<and> 0 < remaining_amount l)
         (db_ledgers db))"

definition revoke_source_entitlements :: "env \<Rightarrow> string \<Rightarrow> uuid \<Rightarrow> string \<Rightarrow> points_db \<Rightarrow> points_db" where
  "revoke_source_entitlements env realm_id user_id source_id db =
     db\<lparr>db_entitlements :=
          update_where (\<lambda>q. of_source db realm_id user_id source_id (ent_distribution_event_id q) \<and>
                            ent_distribution_rule_id q \<noteq> None \<and> ent_status q = QuotaActive)
            (\<lambda>q. q\<lparr>ent_status := QuotaRevoked, ent_effective_until := end_at (env_sql_now env) (ent_effective_until q),
                   ent_updated_at := env_sql_now env\<rparr>)
            (db_entitlements db)\<rparr>"

definition revoke_distribution_source_in_tx ::
  "env \<Rightarrow> string \<Rightarrow> uuid \<Rightarrow> string \<Rightarrow> revocation_type \<Rightarrow> string \<Rightarrow> string \<Rightarrow> points_db \<Rightarrow> revoke_points_output tx" where
  "revoke_distribution_source_in_tx env realm_id user_id source_id rtype reason reference_id db =
     and_then (revoke_ledger_list_in_tx env db
        \<lparr>rcause_realm_id = realm_id, rcause_user_id = user_id, rcause_type = rtype, rcause_reason = reason,
         rcause_reference_id = Some reference_id\<rparr>
        (map (\<lambda>l. (led_id l, remaining_amount l)) (source_ledgers db realm_id user_id source_id)))
      (\<lambda>(total_revoked, ledger_ids, db1).
         Inr (output_of env ledger_ids total_revoked
                (revoke_source_entitlements env realm_id user_id source_id db1)))"

definition revoke_distribution_source_atomic ::
  "env \<Rightarrow> string \<Rightarrow> uuid \<Rightarrow> string \<Rightarrow> revocation_type \<Rightarrow> string \<Rightarrow> string \<Rightarrow> points_db \<Rightarrow> revoke_points_output tx" where
  "revoke_distribution_source_atomic env realm_id user_id source_id rtype reason idempotency_key db =
     (if check_completed_idempotency_in_tx env db realm_id idempotency_key \<noteq> None
      then Inr (empty_output env db)
      else
        and_then (revoke_distribution_source_in_tx env realm_id user_id source_id rtype reason idempotency_key db)
          (\<lambda>(output, db1). Inr (output,
             record_completed_idempotency_in_tx env db1 realm_id idempotency_key (rpo_revocation_id output))))"

section \<open>The atomic operations\<close>

text \<open>
  One transaction of the loop both operations share; \<open>first_run\<close> is the work of the transaction that
  inserted the event's row.  \<open>Inl\<close> is a transaction that is dropped and retried: it has drawn an
  identifier and changed nothing else.
\<close>

definition event_attempt ::
  "env \<Rightarrow> distribution_event \<Rightarrow> (uuid \<Rightarrow> grants_db \<Rightarrow> distribution_grant_result list gtx) \<Rightarrow> grants_db
     \<Rightarrow> grants_db + (core_error, distribution_grant_result list) result \<times> grants_db" where
  "event_attempt env event first_run db =
     (case on_points (insert_or_load_event_in_tx env event) db of
        Inl e \<Rightarrow> Inr (Inl e, db)
      | Inr (ExistingEvent i status, db1) \<Rightarrow>
          if status = ''completed'' then
            (case lock_completed_event_for_replay_in_tx (gd_points db1) i of
               None \<Rightarrow> Inl db1
             | Some result_count \<Rightarrow>
                 (case fold_replay_results env (replay_rows db1 i) result_count i of
                    Inl e \<Rightarrow> Inr (Inl e, db)
                  | Inr results \<Rightarrow> Inr (Inr results, db1)))
          else if status = ''processing'' then Inl db1
          else Inr (Inl (DatabaseError (''distribution event '' @ env_uuid_str env i @
                 '' in unexpected status '' @ [CHR 0x27] @ status @ [CHR 0x27])), db)
      | Inr (InsertedProcessing i, db1) \<Rightarrow>
          (case first_run i db1 of
             Inl e \<Rightarrow> Inr (Inl e, db)
           | Inr (results, db2) \<Rightarrow> Inr (Inr results, db2)))"

partial_function (option) event_loop ::
  "env \<Rightarrow> distribution_event \<Rightarrow> (uuid \<Rightarrow> grants_db \<Rightarrow> distribution_grant_result list gtx) \<Rightarrow> grants_db
     \<Rightarrow> ((core_error, distribution_grant_result list) result \<times> grants_db) option" where
  "event_loop env event first_run db =
     (case event_attempt env event first_run db of
        Inl db1 \<Rightarrow> event_loop env event first_run db1
      | Inr answer \<Rightarrow> Some answer)"

lemma event_loop_answer: "event_attempt env event first_run db = Inr answer \<Longrightarrow> event_loop env event first_run db = Some answer"
  by (subst event_loop.simps) simp

definition execute_event_first_run ::
  "ext \<Rightarrow> env \<Rightarrow> distribution_event \<Rightarrow> distribution_rule_selection \<Rightarrow> uuid \<Rightarrow> grants_db
     \<Rightarrow> distribution_grant_result list gtx" where
  "execute_event_first_run x env event selection i db =
     execute_first_run_in_tx x env i event selection
       (if ev_trigger event \<in> {TriggerSubscriptionInitial, TriggerSubscriptionRenewal}
        then deactivate_free_periodic_results_in_tx env (ev_realm_id event) (ev_user_id event)
               (ev_effective_from event) db
        else db)"

definition execute_distribution_event_atomic ::
  "ext \<Rightarrow> env \<Rightarrow> distribution_event \<Rightarrow> distribution_rule_selection \<Rightarrow> grants_db
     \<Rightarrow> ((core_error, distribution_grant_result list) result \<times> grants_db) option" where
  "execute_distribution_event_atomic x env event selection db =
     event_loop env event (execute_event_first_run x env event selection) db"

definition replace_first_run ::
  "ext \<Rightarrow> env \<Rightarrow> string \<Rightarrow> revocation_type \<Rightarrow> string \<Rightarrow> distribution_event \<Rightarrow> distribution_rule_selection
     \<Rightarrow> uuid \<Rightarrow> grants_db \<Rightarrow> distribution_grant_result list gtx" where
  "replace_first_run x env source_id rtype reason event selection i db =
     and_then (on_points (revoke_distribution_source_in_tx env (ev_realm_id event) (ev_user_id event) source_id
                 rtype reason (ev_event_key event))
        (deactivate_free_periodic_results_in_tx env (ev_realm_id event) (ev_user_id event)
           (ev_effective_from event) db)) (\<lambda>(_, db1).
       execute_first_run_in_tx x env i event selection db1)"

definition replace_distribution_source_atomic ::
  "ext \<Rightarrow> env \<Rightarrow> string \<Rightarrow> revocation_type \<Rightarrow> string \<Rightarrow> distribution_event \<Rightarrow> distribution_rule_selection
     \<Rightarrow> grants_db \<Rightarrow> ((core_error, distribution_grant_result list) result \<times> grants_db) option" where
  "replace_distribution_source_atomic x env source_id rtype reason event selection db =
     event_loop env event (replace_first_run x env source_id rtype reason event selection) db"

end
