(* ===== verification/DistributionRulesProps.thy ===== *)
theory DistributionRulesProps
  imports DistributionExec
begin

text \<open>
  What the rule model guarantees: a validated rule can be stored and executed, a stored rule
  is read back as it was written, and an event key names one business occasion.
\<close>

section \<open>Hydration inverts the columns\<close>

lemma parsed_triggers_printed [simp]: "parsed_triggers (map trigger_as_str ts) = ts"
  by (induction ts) (simp_all add: parsed_triggers_def distribution_trigger.from_as)

lemma parsed_period_printed [simp]: "parsed_period (map_option grant_period_as_str p) = p"
  by (cases p) (simp_all add: parsed_period_def grant_period.from_as)

lemma parse_serialized_windows [simp]: "parse_quota_windows_value (serialize_quota_windows_value ws) = Inr ws"
  by (simp add: parse_quota_windows_value_def serialize_quota_windows_value_def)

lemma hydrate_new_rule_row:
  "rule_row_to_domain (new_rule_row i r) = Inr (r\<lparr>pdr_id := i\<rparr>)"
  "rule_from_model (new_rule_row i r) = r\<lparr>pdr_id := i\<rparr>"
  by (cases "pdr_policy r"; cases "pdr_owner r";
      simp add: rule_row_to_domain_def rule_from_model_def new_rule_row_def policy_to_columns_def Let_def
        owner_as_str_def owner_mapping_id_def)+

lemma rule_columns_as_new:
  assumes "drr_id row = i" "drr_realm_id row = pdr_realm_id r"
    and "drr_owner_type row = owner_as_str (pdr_owner r)" "drr_mapping_id row = owner_mapping_id (pdr_owner r)"
  shows "rule_columns r row = new_rule_row i r"
  using assms by (cases row) (simp add: rule_columns_def new_rule_row_def Let_def)

section \<open>Validated rules\<close>

lemma try_fold_ensure_Inr_iff:
  "try_fold (\<lambda>_ t. ensure (P t) (e t)) () ts = Inr u \<longleftrightarrow> (\<forall>t \<in> set ts. P t)"
  by (induction ts) (auto simp: result_simps)

lemma set_dedup_id [simp]: "set (dedup_by id [] ts) = set ts"
  using keys_dedup_by[of id "[]" ts] by simp

lemma allowed_triggers_Inr_iff [result_simps]:
  "allowed_triggers owner bt t = Inr allowed \<longleftrightarrow>
     (case owner of
        OwnerEntitlementMapping _ \<Rightarrow> (\<exists>b. bt = Some b \<and> allowed = allowed_triggers_for_billing_type b)
      | OwnerRealmRegistration \<Rightarrow> allowed = [TriggerRegistration, TriggerFreePeriodicGrant])"
  by (auto simp: allowed_triggers_def result_simps split: distribution_rule_owner.splits)

lemma validate_rule_InrE:
  assumes "validate_rule_for_owner r bt = Inr u"
  obtains "pdr_trigger_sources r \<noteq> []" "validate_policy (dedup_by id [] (pdr_trigger_sources r)) (pdr_policy r) = Inr ()"
proof (rule that)
  from assms show "validate_policy (dedup_by id [] (pdr_trigger_sources r)) (pdr_policy r) = Inr ()"
    by (auto simp: validate_rule_for_owner_def Let_def result_simps split: if_splits)
  from assms show "pdr_trigger_sources r \<noteq> []"
    by (auto simp: validate_rule_for_owner_def Let_def)
qed

lemma validate_policy_Inr_iff [result_simps]:
  "validate_policy ts policy = Inr u \<longleftrightarrow> (case policy of
       PolicyFixed amount validity_days p \<Rightarrow> 0 < amount \<and> 0 \<le> validity_days \<and>
         (p \<noteq> None \<longleftrightarrow> TriggerFreePeriodicGrant \<in> set ts) \<and> (TriggerRegistration \<in> set ts \<longrightarrow> validity_days = 0)
     | PolicyQuota ws \<Rightarrow> TriggerRegistration \<notin> set ts \<and> TriggerTopup \<notin> set ts \<and> ws \<noteq> [] \<and> length ws \<le> 8 \<and>
         (\<forall>w \<in> set ws. 0 < qw_window_seconds w \<and> 0 \<le> qw_limit w))"
  by (cases policy) (auto simp: validate_policy_def Let_def result_simps)

lemma trigger_texts_all: "trigger_as_str t \<in> set trigger_texts"
  by (cases t) (simp_all add: trigger_texts_def enum_simps)

lemma owner_columns_agree:
  "owner_as_str owner \<in> {''entitlement_mapping'', ''realm_registration''}"
  "(owner_as_str owner = ''entitlement_mapping'') = (owner_mapping_id owner \<noteq> None)"
  by (cases owner; simp add: owner_as_str_def owner_mapping_id_def)+

lemma period_text_allowed: "grant_period_as_str p \<in> {''once'', ''daily'', ''weekly'', ''monthly''}"
  by (cases p) (simp_all add: enum_simps)


definition demo_rule :: "uuid \<Rightarrow> distribution_rule_owner \<Rightarrow> uuid \<Rightarrow> distribution_trigger list \<Rightarrow> distribution_policy
    \<Rightarrow> int \<Rightarrow> points_distribution_rule" where
  "demo_rule i owner b ts p n = \<lparr>pdr_id = i, pdr_realm_id = ''r'', pdr_owner = owner, pdr_bucket_id = b,
     pdr_trigger_sources = ts, pdr_policy = p, pdr_enabled = True, pdr_display_order = n\<rparr>"

definition demo_window_rule :: points_distribution_rule where
  "demo_window_rule = demo_rule 600 (OwnerEntitlementMapping 900) 10 [TriggerSubscriptionInitial, TriggerSubscriptionRenewal]
     (PolicyQuota [\<lparr>qw_window_seconds = 3600, qw_limit = 5, qw_key = ''hour''\<rparr>]) 1"


section \<open>Stored rules\<close>

lemma draw_uuid_simps [table_simps]:
  "draw_uuid env db = (i, db') \<longleftrightarrow> i = env_uuid env (db_seq (gd_points db)) \<and>
     db' = db\<lparr>gd_points := (gd_points db)\<lparr>db_seq := Suc (db_seq (gd_points db))\<rparr>\<rparr>"
  by (auto simp: draw_uuid_def now_v7_def)

lemma upsert_rule_existing:
  assumes "upsert_rule_in_tx env realm owner db up = Inr db'" "up_id up = Some i"
  obtains row where "find (\<lambda>r. drr_id r = i) (gd_rules db) = Some row" "drr_realm_id row = realm"
    "drr_owner_type row = owner_as_str owner" "drr_mapping_id row = owner_mapping_id owner"
    "gd_rules db' = update_where (\<lambda>r. drr_id r = i) (rule_columns (into_rule_for_owner up realm owner i)) (gd_rules db)"
    "gd_schedules db' = (if up_enabled up then gd_schedules db
        else deactivate_rule_schedules env realm i (gd_schedules db))"
  using assms by (auto simp: upsert_rule_in_tx_def result_simps Let_def into_rule_for_owner_def split: if_splits)

lemma upsert_rule_new:
  assumes "upsert_rule_in_tx env realm owner db up = Inr db'" "up_id up = None"
  obtains i where "i \<notin> drr_id ` set (gd_rules db)"
    "gd_rules db' = gd_rules db @ [new_rule_row i (into_rule_for_owner up realm owner i)]"
    "gd_schedules db' = gd_schedules db"
proof (rule that[of "env_uuid env (Suc (db_seq (gd_points db)))"])
  note defs = upsert_rule_in_tx_def result_simps Let_def draw_uuid_def now_v7_def into_rule_for_owner_def
    new_rule_row_def
  from assms show "env_uuid env (Suc (db_seq (gd_points db))) \<notin> drr_id ` set (gd_rules db)"
    unfolding key_unused_iff[symmetric] by (auto simp: defs)
  from assms show "gd_rules db' = gd_rules db @ [new_rule_row (env_uuid env (Suc (db_seq (gd_points db))))
      (into_rule_for_owner up realm owner (env_uuid env (Suc (db_seq (gd_points db)))))]"
    by (auto simp: defs)
  from assms show "gd_schedules db' = gd_schedules db" by (auto simp: defs)
qed

lemma find_update_other:
  "(\<And>r. f r = r \<or> k (f r) = k r) \<Longrightarrow> j \<noteq> i \<Longrightarrow>
     find (\<lambda>r. k r = j) (update_where (\<lambda>r. k r = i) f rs) = find (\<lambda>r. k r = j) rs"
  by (induction rs) (auto, metis+)

lemma find_rule_updated:
  "find (\<lambda>r. drr_id r = i) rs = Some row \<Longrightarrow>
     find (\<lambda>r. drr_id r = i) (update_where (\<lambda>r. drr_id r = i) (rule_columns x) rs) = Some (rule_columns x row)"
  by (induction rs) (auto simp: rule_columns_def Let_def)

lemma find_owner_rules_member:
  assumes "row \<in> set (gd_rules db)" "drr_realm_id row = realm" "drr_owner_type row = owner_as_str owner"
    and "drr_mapping_id row = owner_mapping_id owner"
  shows "rule_from_model row \<in> set (find_owner_rules db realm owner)"
  using assms by (cases owner) (auto simp: find_owner_rules_def owner_mapping_id_def)

lemma find_realm_rule:
  "find (\<lambda>r. drr_id r = i) rs = Some row \<Longrightarrow> drr_realm_id row = realm \<Longrightarrow> distinct (map drr_id rs) \<Longrightarrow>
     find (\<lambda>r. drr_id r = i \<and> drr_realm_id r = realm) rs = Some row"
proof (induction rs)
  case (Cons a rs)
  show ?case
  proof (cases "drr_id a = i")
    case True
    with Cons.prems show ?thesis by simp
  next
    case False
    with Cons show ?thesis by simp
  qed
qed simp

lemma inactive_after_deactivation:
  assumes "s \<in> set (deactivate_rule_schedules env realm i ss)"
  shows "sch_realm_id s = realm \<and> sch_distribution_rule_id s = i \<longrightarrow> \<not> sch_active s"
  using assms unfolding deactivate_rule_schedules_def
  by (rule update_where_all[rotated -1]) simp_all

lemma row_read_back:
  assumes "find (\<lambda>r. drr_id r = i) (gd_rules db) = Some (new_rule_row i r)" "pdr_id r = i"
    and "distinct (map drr_id (gd_rules db))"
  shows "load_single_rule_in_tx db (pdr_realm_id r) i = Inr r"
    and "r \<in> set (find_owner_rules db (pdr_realm_id r) (pdr_owner r))"
proof -
  have id: "r\<lparr>pdr_id := i\<rparr> = r" using assms(2) by simp
  have cols: "drr_realm_id (new_rule_row i r) = pdr_realm_id r" "drr_owner_type (new_rule_row i r) = owner_as_str (pdr_owner r)"
    "drr_mapping_id (new_rule_row i r) = owner_mapping_id (pdr_owner r)"
    by (simp_all add: new_rule_row_def Let_def)
  from find_realm_rule[OF assms(1) cols(1) assms(3)] show "load_single_rule_in_tx db (pdr_realm_id r) i = Inr r"
    by (simp add: load_single_rule_in_tx_def hydrate_new_rule_row id)
  have "new_rule_row i r \<in> set (gd_rules db)" using find_SomeD[OF assms(1)] by simp
  from find_owner_rules_member[OF this cols] show "r \<in> set (find_owner_rules db (pdr_realm_id r) (pdr_owner r))"
    by (simp add: hydrate_new_rule_row id)
qed

text \<open>
  C29: what an upsert stores is what is read: the rule of a successful upsert, new or updated, is
  the rule the executor loads under its identifier and one of the rules the management view lists
  for its owner; every other rule row is unchanged, and disabling a rule leaves it no active schedule.
\<close>

theorem upserted_rule_is_read_back:
  assumes "upsert_rule_in_tx env realm owner db up = Inr db'" "distinct (map drr_id (gd_rules db))"
  shows "\<exists>i. (case up_id up of Some j \<Rightarrow> i = j | None \<Rightarrow> i \<notin> drr_id ` set (gd_rules db)) \<and>
    load_single_rule_in_tx db' realm i = Inr (into_rule_for_owner up realm owner i) \<and>
    into_rule_for_owner up realm owner i \<in> set (find_owner_rules db' realm owner) \<and>
    (\<forall>j. j \<noteq> i \<longrightarrow> find (\<lambda>r. drr_id r = j) (gd_rules db') = find (\<lambda>r. drr_id r = j) (gd_rules db)) \<and>
    (up_id up \<noteq> None \<and> \<not> up_enabled up \<longrightarrow>
       (\<forall>s \<in> set (gd_schedules db'). sch_realm_id s = realm \<and> sch_distribution_rule_id s = i \<longrightarrow> \<not> sch_active s))"
proof (cases "up_id up")
  case (Some i)
  let ?r = "into_rule_for_owner up realm owner i"
  from Some have r: "pdr_id ?r = i" "pdr_realm_id ?r = realm" "pdr_owner ?r = owner"
    by (simp_all add: into_rule_for_owner_def)
  obtain row where row: "find (\<lambda>r. drr_id r = i) (gd_rules db) = Some row" "drr_realm_id row = realm"
    "drr_owner_type row = owner_as_str owner" "drr_mapping_id row = owner_mapping_id owner"
    "gd_rules db' = update_where (\<lambda>r. drr_id r = i) (rule_columns ?r) (gd_rules db)"
    "gd_schedules db' = (if up_enabled up then gd_schedules db
        else deactivate_rule_schedules env realm i (gd_schedules db))"
    using upsert_rule_existing[OF assms(1) Some] .
  have "rule_columns ?r row = new_rule_row i ?r"
    using row find_SomeD[OF row(1)] r by (intro rule_columns_as_new) auto
  then have f: "find (\<lambda>r. drr_id r = i) (gd_rules db') = Some (new_rule_row i ?r)"
    using find_rule_updated[OF row(1)] row(5) by simp
  have d: "distinct (map drr_id (gd_rules db'))"
    using assms(2) row(5) map_update_where_same[of "\<lambda>r. drr_id r = i" drr_id "rule_columns ?r" "gd_rules db"]
    by (simp add: rule_columns_def Let_def)
  have o': "find (\<lambda>r. drr_id r = j) (gd_rules db') = find (\<lambda>r. drr_id r = j) (gd_rules db)" if "j \<noteq> i" for j
    unfolding row(5) using that by (intro find_update_other) (auto simp: rule_columns_def Let_def)
  from row_read_back[OF f r(1) d] o' row(6) inactive_after_deactivation show ?thesis
    by (intro exI[of _ i]) (auto simp: Some r split: if_splits)
next
  case None
  obtain i where i: "i \<notin> drr_id ` set (gd_rules db)"
    "gd_rules db' = gd_rules db @ [new_rule_row i (into_rule_for_owner up realm owner i)]"
    "gd_schedules db' = gd_schedules db"
    using upsert_rule_new[OF assms(1) None] .
  let ?r = "into_rule_for_owner up realm owner i"
  from None have r: "pdr_id ?r = i" "pdr_realm_id ?r = realm" "pdr_owner ?r = owner"
    by (simp_all add: into_rule_for_owner_def)
  have id: "drr_id (new_rule_row i ?r) = i" by (simp add: new_rule_row_def Let_def)
  have none: "find (\<lambda>r. drr_id r = i) (gd_rules db) = None" using i(1) by (auto simp: find_None_iff)
  have f: "find (\<lambda>r. drr_id r = i) (gd_rules db') = Some (new_rule_row i ?r)"
    by (simp add: i(2) find_append none id)
  have d: "distinct (map drr_id (gd_rules db'))" using assms(2) i(1) by (simp add: i(2) id)
  have o': "find (\<lambda>r. drr_id r = j) (gd_rules db') = find (\<lambda>r. drr_id r = j) (gd_rules db)" if "j \<noteq> i" for j
    using that by (simp add: i(2) find_append id split: option.splits)
  from row_read_back[OF f r(1) d] o' i(1) show ?thesis
    by (intro exI[of _ i]) (auto simp: None r)
qed

definition demo_grants :: grants_db where
  "demo_grants = \<lparr>gd_points = demo_db, gd_rules = [new_rule_row 600 demo_window_rule], gd_schedules = [],
     gd_records = [], gd_captured = []\<rparr>"

definition demo_upsert :: rule_upsert where
  "demo_upsert = \<lparr>up_id = Some 600, up_bucket_id = 11, up_trigger_sources = [TriggerSubscriptionRenewal],
     up_policy = PolicyFixed 50 30 None, up_enabled = False, up_display_order = 2\<rparr>"

theorem upserted_rule_is_read_back_witness:
  "\<exists>db'. upsert_rule_in_tx demo_env ''r'' (OwnerEntitlementMapping 900) demo_grants demo_upsert = Inr db' \<and>
     load_single_rule_in_tx db' ''r'' 600 =
       Inr (into_rule_for_owner demo_upsert ''r'' (OwnerEntitlementMapping 900) 600)"
proof -
  have "\<not> isl (upsert_rule_in_tx demo_env ''r'' (OwnerEntitlementMapping 900) demo_grants demo_upsert)" by code_simp
  then obtain db' where run: "upsert_rule_in_tx demo_env ''r'' (OwnerEntitlementMapping 900) demo_grants demo_upsert = Inr db'"
    by (metis isl_def sum.collapse(2))
  have "distinct (map drr_id (gd_rules demo_grants))" by code_simp
  from upserted_rule_is_read_back[OF run this] run show ?thesis by (auto simp: demo_upsert_def)
qed

section \<open>Event keys\<close>

text \<open>The business occasions the services build event keys for.\<close>

datatype occasion =
    PaymentOf uuid
  | PeriodOf uuid string
  | UpgradeOf uuid string
  | RegistrationOf uuid
  | FreePeriodOf uuid uuid nat

fun occasion_key :: "env \<Rightarrow> occasion \<Rightarrow> string" where
  "occasion_key env (PaymentOf a) = event_key_for_payment env a"
| "occasion_key env (PeriodOf s p) = event_key_for_subscription_period env s p"
| "occasion_key env (UpgradeOf s e) = event_key_for_subscription_upgrade env s e"
| "occasion_key env (RegistrationOf u) = event_key_for_registration env u"
| "occasion_key env (FreePeriodOf u r n) = event_key_for_free_periodic env u r n"

lemma colon_split:
  "CHR '':'' \<notin> set a \<Longrightarrow> CHR '':'' \<notin> set b \<Longrightarrow> a @ CHR '':'' # s = b @ CHR '':'' # t \<longleftrightarrow> a = b \<and> s = t"
proof (induction a arbitrary: b)
  case Nil
  then show ?case by (cases b) auto
next
  case (Cons c a)
  then show ?case by (cases b) auto
qed

lemmas event_keys = event_key_for_payment_def event_key_for_subscription_period_def
  event_key_for_subscription_upgrade_def event_key_for_registration_def event_key_for_free_periodic_def

text \<open>
  C30: an event key determines its occasion.  The key of a payment, a subscription period, an
  upgrade, a registration or a free period is never the key of another one, whatever period or
  provider text is in it, as the text of a UUID has no colon and determines the UUID.
\<close>

theorem event_key_names_one_occasion:
  assumes "inj (env_uuid_str env)" "\<And>u. CHR '':'' \<notin> set (env_uuid_str env u)"
  shows "occasion_key env a = occasion_key env b \<longleftrightarrow> a = b"
proof -
  have u: "env_uuid_str env u = env_uuid_str env v \<longleftrightarrow> u = v" for u v
    using assms(1) by (auto dest: injD)
  show ?thesis
    by (cases a; cases b) (auto simp: event_keys colon_split assms(2) u)
qed

theorem event_key_names_one_occasion_witness:
  "occasion_key demo_env (PeriodOf 4 ''7:upgrade:1'') \<noteq> occasion_key demo_env (UpgradeOf 4 ''1'')"
proof -
  have "inj (env_uuid_str demo_env)" "\<And>u. CHR '':'' \<notin> set (env_uuid_str demo_env u)"
    by (simp_all add: demo_env_def inj_def show_nat_no_colon)
  from event_key_names_one_occasion[OF this, of "PeriodOf 4 ''7:upgrade:1''" "UpgradeOf 4 ''1''"]
  show ?thesis by (simp del: occasion_key.simps)
qed

end
