(* ===== verification/DistributionStore.thy ===== *)
theory DistributionStore
  imports DistributionRulesProps PointsRevokeProps
begin

text \<open>
  The results an event left in the tables.  \<open>stored_results\<close> reads them off the columns that no
  later operation changes (who granted the row, under which rule, into which bucket, how much),
  so that replaying an event gives back exactly what its first run wrote.
\<close>

section \<open>Columns that identify a result\<close>

definition led_key :: "points_credit_ledger \<Rightarrow> uuid option \<times> uuid option \<times> uuid \<times> uuid \<times> i64" where
  "led_key l = (led_distribution_event_id l, led_distribution_rule_id l, led_bucket_id l, led_id l, led_granted_amount l)"

definition ent_key :: "points_quota_entitlement \<Rightarrow> uuid option \<times> uuid option \<times> uuid \<times> uuid" where
  "ent_key q = (ent_distribution_event_id q, ent_distribution_rule_id q, ent_bucket_id q, ent_id q)"

definition sch_key :: "points_grant_schedule \<Rightarrow> uuid \<times> uuid \<times> uuid \<times> uuid" where
  "sch_key s = (sch_distribution_event_id s, sch_distribution_rule_id s, sch_bucket_id s, sch_id s)"

definition ledger_rows_of :: "points_db \<Rightarrow> uuid \<Rightarrow> (uuid \<times> uuid \<times> uuid \<times> i64) list" where
  "ledger_rows_of p e = map (\<lambda>(_, r, b, i, a). (the r, b, i, a))
     (filter (\<lambda>(e', r, _). e' = Some e \<and> r \<noteq> None) (map led_key (db_ledgers p)))"

definition quota_rows_of :: "points_db \<Rightarrow> uuid \<Rightarrow> (uuid \<times> uuid \<times> uuid) list" where
  "quota_rows_of p e = map (\<lambda>(_, r, b, i). (the r, b, i))
     (filter (\<lambda>(e', r, _). e' = Some e \<and> r \<noteq> None) (map ent_key (db_entitlements p)))"

definition schedule_rows_of :: "grants_db \<Rightarrow> uuid \<Rightarrow> (uuid \<times> uuid \<times> uuid \<times> uuid) list" where
  "schedule_rows_of db e = map (\<lambda>(_, r, b, i). (r, b, i, first_ledger_of db i))
     (filter (\<lambda>(e', _). e' = e) (map sch_key (gd_schedules db)))"

text \<open>The results rows stand for, as a multiset.\<close>

definition results_of ::
  "(uuid \<times> uuid \<times> uuid \<times> i64) list \<Rightarrow> (uuid \<times> uuid \<times> uuid) list \<Rightarrow> (uuid \<times> uuid \<times> uuid \<times> uuid) list
     \<Rightarrow> distribution_grant_result list" where
  "results_of ls qs ss =
     map (\<lambda>(r, b, l, a). ResultFixed r b l a) (filter (\<lambda>(r, b, l, a). l \<notin> (\<lambda>(_, _, _, f). f) ` set ss) ls) @
     map (\<lambda>(r, b, q). ResultQuota r b q) qs @ map (\<lambda>(r, b, s, l). ResultSchedule r b s l) ss"

definition stored_results :: "grants_db \<Rightarrow> uuid \<Rightarrow> distribution_grant_result multiset" where
  "stored_results db e =
     mset (results_of (ledger_rows_of (gd_points db) e) (quota_rows_of (gd_points db) e) (schedule_rows_of db e))"

lemma results_of_mset_cong:
  assumes "mset ls = mset ls'" "mset qs = mset qs'" "mset ss = mset ss'"
  shows "mset (results_of ls qs ss) = mset (results_of ls' qs' ss')"
proof -
  have "set ss = set ss'" using assms(3) by (rule mset_eq_setD)
  with assms show ?thesis by (simp add: results_of_def)
qed

lemma replay_rows_msets:
  "mset (rr_ledger_rows (replay_rows db e)) = mset (ledger_rows_of (gd_points db) e)"
  "mset (rr_entitlement_rows (replay_rows db e)) = mset (quota_rows_of (gd_points db) e)"
  "mset (rr_schedule_rows (replay_rows db e)) = mset (schedule_rows_of db e)"
  by (simp_all add: replay_rows_def replay_ledger_rows_in_tx_def replay_quota_rows_in_tx_def
      replay_schedule_rows_in_tx_def ledger_rows_of_def quota_rows_of_def schedule_rows_of_def
      filter_map comp_def led_key_def ent_key_def sch_key_def)

lemma as_i32_id: "n < 2 ^ 31 \<Longrightarrow> as_i32 n = int n"
  by (simp add: as_i32_def)

lemma fold_replay_results_eq:
  "fold_replay_results env rows n e =
     (let rs = results_of (rr_ledger_rows rows) (rr_entitlement_rows rows) (rr_schedule_rows rows) in
      if as_i32 (length rs) \<noteq> n then Inl (replay_corruption env e n (length rs)) else Inr rs)"
proof -
  have "set (map (\<lambda>(_, _, _, l). l) (rr_schedule_rows rows)) = (\<lambda>(_, _, _, f). f) ` set (rr_schedule_rows rows)"
    by simp
  then show ?thesis by (simp add: fold_replay_results_def results_of_def Let_def)
qed

text \<open>Reading an event back gives its stored results when the recorded count is theirs.\<close>

lemma fold_replay_stored:
  assumes "size (stored_results db e) < 2 ^ 31"
  obtains rs where "mset rs = stored_results db e"
    "fold_replay_results env (replay_rows db e) n e =
       (if n = int (size (stored_results db e)) then Inr rs
        else Inl (replay_corruption env e n (size (stored_results db e))))"
proof -
  let ?rs = "results_of (rr_ledger_rows (replay_rows db e)) (rr_entitlement_rows (replay_rows db e))
               (rr_schedule_rows (replay_rows db e))"
  have m: "mset ?rs = stored_results db e"
    unfolding stored_results_def by (rule results_of_mset_cong) (rule replay_rows_msets)+
  then have "length ?rs = size (stored_results db e)" by (metis size_mset)
  with m assms show ?thesis
    by (intro that[of ?rs]) (auto simp: fold_replay_results_eq Let_def as_i32_id)
qed

section \<open>Adding rows\<close>

text \<open>
  The schedules of an event have their first grant record and it points at a ledger row; this is
  what keeps a schedule's first ledger out of the fixed results.
\<close>

definition first_record :: "grants_db \<Rightarrow> uuid \<Rightarrow> points_grant_record option" where
  "first_record db s = find (\<lambda>g. grec_schedule_id g = s \<and> grec_period_number g = 1) (gd_records db)"

definition firsts_ok :: "grants_db \<Rightarrow> uuid \<Rightarrow> bool" where
  "firsts_ok db e \<longleftrightarrow> (\<forall>s \<in> set (gd_schedules db). sch_distribution_event_id s = e \<longrightarrow>
     (\<exists>g. first_record db (sch_id s) = Some g \<and> grec_ledger_id g \<in> led_id ` set (db_ledgers (gd_points db))))"

lemma first_ledger_of_record: "first_record db s = Some g \<Longrightarrow> first_ledger_of db s = grec_ledger_id g"
  by (simp add: first_record_def first_ledger_of_def)

lemma first_record_append:
  "first_record db s = Some g \<Longrightarrow> gd_records db' = gd_records db @ gs \<Longrightarrow> first_record db' s = Some g"
  by (simp add: first_record_def find_append)

text \<open>A step of the executor: rows are appended, and no schedule changes its identifying columns.\<close>

definition extends ::
  "grants_db \<Rightarrow> points_credit_ledger list \<Rightarrow> points_quota_entitlement list \<Rightarrow> points_grant_schedule list
     \<Rightarrow> points_grant_record list \<Rightarrow> grants_db \<Rightarrow> bool" where
  "extends db ls qs ss gs db' \<longleftrightarrow>
     db_ledgers (gd_points db') = db_ledgers (gd_points db) @ ls \<and>
     db_entitlements (gd_points db') = db_entitlements (gd_points db) @ qs \<and>
     map sch_key (gd_schedules db') = map sch_key (gd_schedules db @ ss) \<and>
     gd_records db' = gd_records db @ gs \<and>
     (\<forall>l \<in> set ls. led_id l \<notin> led_id ` set (db_ledgers (gd_points db)))"

lemma schedule_rows_extend:
  assumes "extends db ls qs ss gs db'" "firsts_ok db e"
  shows "schedule_rows_of db' e = schedule_rows_of db e @
    map (\<lambda>s. (sch_distribution_rule_id s, sch_bucket_id s, sch_id s, first_ledger_of db' (sch_id s)))
      (filter (\<lambda>s. sch_distribution_event_id s = e) ss)"
proof -
  have rec: "gd_records db' = gd_records db @ gs" using assms(1) by (simp add: extends_def)
  have "first_ledger_of db' (sch_id s) = first_ledger_of db (sch_id s)"
    if "s \<in> set (gd_schedules db)" "sch_distribution_event_id s = e" for s
  proof -
    from assms(2) that obtain g where g: "first_record db (sch_id s) = Some g" unfolding firsts_ok_def by blast
    from first_ledger_of_record[OF first_record_append[OF g rec]] first_ledger_of_record[OF g] show ?thesis by simp
  qed
  then have old: "map (\<lambda>(_, r, b, i). (r, b, i, first_ledger_of db' i)) (filter (\<lambda>(e', _). e' = e) (map sch_key (gd_schedules db))) =
      schedule_rows_of db e"
    by (auto simp: schedule_rows_of_def filter_map sch_key_def)
  have keys: "map sch_key (gd_schedules db') = map sch_key (gd_schedules db) @ map sch_key ss"
    using assms(1) by (simp add: extends_def)
  show ?thesis
    unfolding schedule_rows_of_def[of db'] keys filter_append map_append old
    by (simp add: filter_map comp_def sch_key_def)
qed

lemma firsts_in_ledgers:
  assumes "firsts_ok db e" "(r, b, s, f) \<in> set (schedule_rows_of db e)"
  shows "f \<in> led_id ` set (db_ledgers (gd_points db))"
proof -
  from assms(2) obtain y where y: "y \<in> set (gd_schedules db)" "sch_distribution_event_id y = e" "f = first_ledger_of db (sch_id y)"
    by (auto simp: schedule_rows_of_def sch_key_def)
  from assms(1) y obtain g where "first_record db (sch_id y) = Some g" "grec_ledger_id g \<in> led_id ` set (db_ledgers (gd_points db))"
    unfolding firsts_ok_def by blast
  with y(3) first_ledger_of_record show ?thesis by metis
qed

lemma ledger_rows_ids: "(r, b, l, a) \<in> set (ledger_rows_of p e) \<Longrightarrow> l \<in> led_id ` set (db_ledgers p)"
  by (auto simp: ledger_rows_of_def led_key_def)

lemma stored_results_extend:
  assumes ext: "extends db ls qs ss gs db'" and ok: "firsts_ok db e"
    and new: "\<And>s. s \<in> set ss \<Longrightarrow> first_ledger_of db' (sch_id s) \<notin> led_id ` set (db_ledgers (gd_points db))"
  shows "stored_results db' e = stored_results db e +
    mset (results_of
      (map (\<lambda>l. (the (led_distribution_rule_id l), led_bucket_id l, led_id l, led_granted_amount l))
         (filter (\<lambda>l. led_distribution_event_id l = Some e \<and> led_distribution_rule_id l \<noteq> None) ls))
      (map (\<lambda>q. (the (ent_distribution_rule_id q), ent_bucket_id q, ent_id q))
         (filter (\<lambda>q. ent_distribution_event_id q = Some e \<and> ent_distribution_rule_id q \<noteq> None) qs))
      (map (\<lambda>s. (sch_distribution_rule_id s, sch_bucket_id s, sch_id s, first_ledger_of db' (sch_id s)))
         (filter (\<lambda>s. sch_distribution_event_id s = e) ss)))"
proof -
  let ?S' = "map (\<lambda>s. (sch_distribution_rule_id s, sch_bucket_id s, sch_id s, first_ledger_of db' (sch_id s)))
         (filter (\<lambda>s. sch_distribution_event_id s = e) ss)"
  let ?L' = "map (\<lambda>l. (the (led_distribution_rule_id l), led_bucket_id l, led_id l, led_granted_amount l))
         (filter (\<lambda>l. led_distribution_event_id l = Some e \<and> led_distribution_rule_id l \<noteq> None) ls)"
  let ?first = "\<lambda>x :: uuid \<times> uuid \<times> uuid \<times> uuid. (case x of (_, _, _, f) \<Rightarrow> f)"
  have L: "ledger_rows_of (gd_points db') e = ledger_rows_of (gd_points db) e @ ?L'"
    using ext by (simp add: extends_def ledger_rows_of_def filter_map comp_def led_key_def)
  have Q: "quota_rows_of (gd_points db') e = quota_rows_of (gd_points db) e @
      map (\<lambda>q. (the (ent_distribution_rule_id q), ent_bucket_id q, ent_id q))
         (filter (\<lambda>q. ent_distribution_event_id q = Some e \<and> ent_distribution_rule_id q \<noteq> None) qs)"
    using ext by (simp add: extends_def quota_rows_of_def filter_map comp_def ent_key_def)
  have S: "schedule_rows_of db' e = schedule_rows_of db e @ ?S'" by (rule schedule_rows_extend[OF ext ok])
  have old: "filter (\<lambda>(r, b, l, a). l \<notin> ?first ` set (schedule_rows_of db' e)) (ledger_rows_of (gd_points db) e) =
      filter (\<lambda>(r, b, l, a). l \<notin> ?first ` set (schedule_rows_of db e)) (ledger_rows_of (gd_points db) e)"
  proof (rule filter_cong[OF refl])
    fix y assume "y \<in> set (ledger_rows_of (gd_points db) e)"
    then obtain r b l a where y: "y = (r, b, l, a)" "l \<in> led_id ` set (db_ledgers (gd_points db))"
      by (metis ledger_rows_ids prod_cases4)
    have sub: "?first ` set ?S' \<subseteq> (\<lambda>s. first_ledger_of db' (sch_id s)) ` set ss" by auto
    have "l \<notin> ?first ` set ?S'"
    proof
      assume "l \<in> ?first ` set ?S'"
      from subsetD[OF sub this] obtain s where "s \<in> set ss" "l = first_ledger_of db' (sch_id s)" by (rule imageE)
      with new y(2) show False by metis
    qed
    then show "(case y of (r, b, l, a) \<Rightarrow> l \<notin> ?first ` set (schedule_rows_of db' e)) =
        (case y of (r, b, l, a) \<Rightarrow> l \<notin> ?first ` set (schedule_rows_of db e))"
      unfolding S y(1) set_append image_Un by simp
  qed
  have fresh: "filter (\<lambda>(r, b, l, a). l \<notin> ?first ` set (schedule_rows_of db' e)) ?L' =
      filter (\<lambda>(r, b, l, a). l \<notin> ?first ` set ?S') ?L'"
  proof (rule filter_cong[OF refl])
    fix y assume "y \<in> set ?L'"
    then obtain r b l a where y: "y = (r, b, l, a)" "l \<in> led_id ` set ls" by auto
    then have "l \<notin> led_id ` set (db_ledgers (gd_points db))" using ext by (auto simp: extends_def)
    then have "l \<notin> ?first ` set (schedule_rows_of db e)" using firsts_in_ledgers[OF ok] by auto
    then show "(case y of (r, b, l, a) \<Rightarrow> l \<notin> ?first ` set (schedule_rows_of db' e)) =
        (case y of (r, b, l, a) \<Rightarrow> l \<notin> ?first ` set ?S')"
      unfolding S y(1) set_append image_Un by simp
  qed
  have "mset (results_of (ledger_rows_of (gd_points db') e) (quota_rows_of (gd_points db') e) (schedule_rows_of db' e)) =
      mset (map (\<lambda>(r, b, l, a). ResultFixed r b l a)
        (filter (\<lambda>(r, b, l, a). l \<notin> ?first ` set (schedule_rows_of db e)) (ledger_rows_of (gd_points db) e) @
         filter (\<lambda>(r, b, l, a). l \<notin> ?first ` set ?S') ?L')) +
      mset (map (\<lambda>(r, b, q). ResultQuota r b q) (quota_rows_of (gd_points db') e)) +
      mset (map (\<lambda>(r, b, s, l). ResultSchedule r b s l) (schedule_rows_of db' e))"
    unfolding results_of_def L filter_append old[unfolded L] fresh[unfolded L] by simp
  then show ?thesis
    unfolding stored_results_def Q S by (simp add: results_of_def)
qed

end
