(* ===== verification/DistributionRun.thy ===== *)
theory DistributionRun
  imports DistributionStore
begin

text \<open>
  The first run of an event, rule by rule: what each write adds, that the loop produces one result
  per rule in firing order, and that the results it returns are the ones the tables hold.
\<close>

section \<open>Effects of the writes\<close>

definition fixed_tables :: "points_db \<Rightarrow> distribution_event_row list \<times> (uuid \<times> string) list \<times> credit_bucket list" where
  "fixed_tables p = (db_events p, db_accounts p, db_buckets p)"

lemma ensure_wallet_tables:
  assumes "ensure_wallet_in_tx env p r u b = Inr (w, p')"
  shows "db_ledgers p' = db_ledgers p" "db_entitlements p' = db_entitlements p" "fixed_tables p' = fixed_tables p"
  using assms by (auto elim!: ensure_wallet_InrE simp: fixed_tables_def)

lemma write_rule_ledger_effect:
  assumes "write_rule_ledger_in_tx env at ct st a eff ex p = Inr (l, p')"
  shows "l = rule_ledger env at (led_id l) ct st a eff ex" "led_id l \<notin> led_id ` set (db_ledgers p)"
    "db_ledgers p' = db_ledgers p @ [l]" "db_entitlements p' = db_entitlements p"
    "fixed_tables p' = fixed_tables p" "0 < a"
proof -
  from assms obtain w p1 where w: "ensure_wallet_in_tx env p (at_realm_id at) (at_user_id at) (at_bucket_id at) = Inr (w, p1)"
    and run: "(let (i, p2) = now_v7 env p1 in
      and_then (create_ledger_in_tx p2 (rule_ledger env at i ct st a eff ex)) (\<lambda>(created, p3).
      and_then (apply_wallet_delta_in_tx env p3 (wal_id w) (wallet_delta_grant ct a)) (\<lambda>(_, p4).
        Inr (created, p4)))) = Inr (l, p')"
    unfolding write_rule_ledger_in_tx_def by (auto simp: result_simps)
  note t = ensure_wallet_tables[OF w]
  from run show "l = rule_ledger env at (led_id l) ct st a eff ex" "0 < a"
    by (auto simp: result_simps now_v7_def rule_ledger_def ledger_check_def)
  from run t show "led_id l \<notin> led_id ` set (db_ledgers p)" "db_ledgers p' = db_ledgers p @ [l]"
      "db_entitlements p' = db_entitlements p" "fixed_tables p' = fixed_tables p"
    by (auto simp: result_simps now_v7_def fixed_tables_def)
qed

lemma write_rule_transaction_effect:
  assumes "write_rule_transaction_in_tx env at ct st a p = Inr (u, p')"
  shows "db_ledgers p' = db_ledgers p" "db_entitlements p' = db_entitlements p" "fixed_tables p' = fixed_tables p"
proof -
  obtain w p1 where w: "ensure_wallet_in_tx env p (at_realm_id at) (at_user_id at) (at_bucket_id at) = Inr (w, p1)"
    using assms unfolding write_rule_transaction_in_tx_def by (auto simp: result_simps)
  obtain b1 b2 b3 where b: "derived_to_balance_snapshots (compute_available_balance p1 (at_realm_id at) (at_user_id at)
      [at_bucket_id at] (env_now env)) = (b1, b2, b3)" by (metis prod_cases3)
  from assms have "db_ledgers p' = db_ledgers p1" "db_entitlements p' = db_entitlements p1" "fixed_tables p' = fixed_tables p1"
    by (auto simp: write_rule_transaction_in_tx_def w b result_simps now_v7_def fixed_tables_def)
  with ensure_wallet_tables[OF w] show "db_ledgers p' = db_ledgers p" "db_entitlements p' = db_entitlements p"
    "fixed_tables p' = fixed_tables p" by simp_all
qed

lemma write_quota_effect:
  assumes "write_quota_entitlement_in_tx env at ct qt src ws from until p = Inr (q, p')"
  shows "db_entitlements p' = db_entitlements p @ [q]" "db_ledgers p' = db_ledgers p" "fixed_tables p' = fixed_tables p"
    "ent_key q = (Some (at_event_id at), Some (at_rule_id at), at_bucket_id at, ent_id q)" "ent_quota_windows q = ws"
  using assms
  by (auto simp: write_quota_entitlement_in_tx_def result_simps now_v7_def fixed_tables_def ent_key_def Let_def)

lemma on_points_Inr_iff [result_simps]:
  "on_points f db = Inr (y, db') \<longleftrightarrow> (\<exists>p. f (gd_points db) = Inr (y, p) \<and> db' = db\<lparr>gd_points := p\<rparr>)"
  by (auto simp: on_points_def result_simps)

lemma write_grant_record_effect:
  assumes "write_grant_record_in_tx env at s l n a t db = Inr db'"
  shows "\<exists>g m. db' = db\<lparr>gd_points := (gd_points db)\<lparr>db_seq := m\<rparr>, gd_records := gd_records db @ [g]\<rparr> \<and>
    grec_schedule_id g = s \<and> grec_period_number g = n \<and> grec_ledger_id g = l \<and>
    (\<forall>h \<in> set (gd_records db). \<not> (grec_schedule_id h = s \<and> grec_period_number h = n))"
  using assms by (auto simp: write_grant_record_in_tx_def result_simps draw_uuid_def now_v7_def Let_def)

lemma write_schedule_effect:
  assumes "write_schedule_in_tx x env at i pt base a v db = Inr db'"
  shows "db' = db\<lparr>gd_schedules := gd_schedules db @ [new_schedule x env at i pt base a v]\<rparr>"
    "i \<notin> sch_id ` set (gd_schedules db)"
  using assms unfolding write_schedule_in_tx_def key_unused_iff by (auto simp: result_simps)

lemma sch_key_new_schedule:
  "sch_key (new_schedule x env at i pt base a v) = (at_event_id at, at_rule_id at, at_bucket_id at, i)"
  by (simp add: sch_key_def new_schedule_def)

lemma map_sch_key_update:
  "(\<And>s. sch_key (f s) = sch_key s) \<Longrightarrow> map sch_key (update_where P f ss) = map sch_key ss"
  by (rule map_update_where_same)

lemma sch_key_advance: "sch_key (advance_schedule x env s y) = sch_key y"
  by (simp add: sch_key_def advance_schedule_def Let_def)

section \<open>One rule\<close>

text \<open>
  What executing one rule adds: the rows of its result.  A plain or scheduled grant adds a ledger
  row, a quota grant an entitlement, a free-periodic rule a ledger row, a grant record and a schedule.
\<close>

definition rule_added :: "uuid \<Rightarrow> uuid \<Rightarrow> uuid \<Rightarrow> grants_db \<Rightarrow> distribution_grant_result \<Rightarrow> grants_db \<Rightarrow> bool" where
  "rule_added e r b db result db' \<longleftrightarrow> (case result of
       ResultFixed r' b' i a \<Rightarrow> r' = r \<and> b' = b \<and>
         (\<exists>l gs. extends db [l] [] [] gs db' \<and> led_key l = (Some e, Some r, b, i, a))
     | ResultQuota r' b' i \<Rightarrow> r' = r \<and> b' = b \<and>
         (\<exists>q. extends db [] [q] [] [] db' \<and> ent_key q = (Some e, Some r, b, i))
     | ResultSchedule r' b' i f \<Rightarrow> r' = r \<and> b' = b \<and>
         (\<exists>l s g. extends db [l] [] [s] [g] db' \<and> (\<exists>a. led_key l = (Some e, Some r, b, f, a)) \<and>
            sch_key s = (e, r, b, i) \<and> first_record db i = None \<and>
            grec_schedule_id g = i \<and> grec_period_number g = 1 \<and> grec_ledger_id g = f))"

definition config :: "grants_db \<Rightarrow> distribution_rule_row list \<times> captured_rule list" where
  "config db = (gd_rules db, gd_captured db)"

lemma rule_ledger_key: "led_key (rule_ledger env at i ct st a eff ex) = (Some (at_event_id at), Some (at_rule_id at), at_bucket_id at, i, a)"
  by (simp add: led_key_def rule_ledger_def)

lemma execute_plain_fixed_effect:
  assumes "execute_plain_fixed env at ct st a v db = Inr (result, db')"
  shows "rule_added (at_event_id at) (at_rule_id at) (at_bucket_id at) db result db' \<and>
    fixed_tables (gd_points db') = fixed_tables (gd_points db) \<and> config db' = config db"
proof -
  from assms obtain l p1 p2 where run: "write_rule_ledger_in_tx env at ct st a None (fixed_expires_at env v ct) (gd_points db) = Inr (l, p1)"
      "write_rule_transaction_in_tx env at ct st a p1 = Inr ((), p2)" "db' = db\<lparr>gd_points := p2\<rparr>"
      "result = ResultFixed (at_rule_id at) (at_bucket_id at) (led_id l) a"
    by (auto simp: execute_plain_fixed_def result_simps)
  note w = write_rule_ledger_effect[OF run(1)] write_rule_transaction_effect[OF run(2)]
  have "led_key l = (Some (at_event_id at), Some (at_rule_id at), at_bucket_id at, led_id l, a)"
    by (subst w(1)) (simp add: rule_ledger_key)
  moreover have "extends db [l] [] [] [] db'" using w run(3) by (simp add: extends_def)
  ultimately show ?thesis using w run(3,4) by (auto simp: rule_added_def config_def)
qed

lemma execute_scheduled_fixed_effect:
  assumes "execute_scheduled_fixed_in_tx x env event at st db = Inr (l, db')"
  shows "rule_added (at_event_id at) (at_rule_id at) (at_bucket_id at) db
      (ResultFixed (at_rule_id at) (at_bucket_id at) (led_id l) (led_granted_amount l)) db' \<and>
    fixed_tables (gd_points db') = fixed_tables (gd_points db) \<and> config db' = config db"
proof -
  from assms obtain s p1 p2 db3 where
    run: "write_rule_ledger_in_tx env at FreePeriodicCredit st (sch_points_per_period s) (Some (ev_effective_from event))
        (calculate_expiration (ev_effective_from event) (sch_validity_days s)) (gd_points db) = Inr (l, p1)"
      "write_rule_transaction_in_tx env at FreePeriodicCredit st (sch_points_per_period s) p1 = Inr ((), p2)"
      "write_grant_record_in_tx env at (sch_id s) (led_id l) (sch_granted_periods s + 1) (sch_points_per_period s)
        (ev_effective_from event) (db\<lparr>gd_points := p2\<rparr>) = Inr db3"
    and db': "db' = db3\<lparr>gd_schedules := update_where (\<lambda>y. sch_id y = sch_id s) (advance_schedule x env s) (gd_schedules db3)\<rparr>"
    by (auto simp: execute_scheduled_fixed_in_tx_def result_simps Let_def)
  note w = write_rule_ledger_effect[OF run(1)] write_rule_transaction_effect[OF run(2)]
  from write_grant_record_effect[OF run(3)] obtain g m where
    db3: "db3 = db\<lparr>gd_points := p2\<lparr>db_seq := m\<rparr>, gd_records := gd_records db @ [g]\<rparr>" by auto
  have key: "led_key l = (Some (at_event_id at), Some (at_rule_id at), at_bucket_id at, led_id l, led_granted_amount l)"
    by (subst (1 3) w(1)) (simp add: rule_ledger_key, simp add: rule_ledger_def)
  have "extends db [l] [] [] [g] db'"
    using w db3 db' by (simp add: extends_def map_sch_key_update[OF sch_key_advance])
  with key show ?thesis
    using w db3 db' by (auto simp: rule_added_def config_def fixed_tables_def)
qed

lemma execute_periodic_fixed_effect:
  assumes "execute_periodic_fixed x env at ct st a v pt db = Inr (result, db')"
  shows "rule_added (at_event_id at) (at_rule_id at) (at_bucket_id at) db result db' \<and>
    fixed_tables (gd_points db') = fixed_tables (gd_points db) \<and> config db' = config db"
proof -
  obtain i db0 where d0: "draw_uuid env db = (i, db0)" by (cases "draw_uuid env db")
  then have db0: "db0 = db\<lparr>gd_points := (gd_points db)\<lparr>db_seq := Suc (db_seq (gd_points db))\<rparr>\<rparr>"
    by (simp add: table_simps)
  from assms obtain l p1 p2 db3 where
    run: "write_rule_ledger_in_tx env at ct st a (Some (env_now env)) (calculate_expiration (env_now env) v) (gd_points db0) = Inr (l, p1)"
      "write_rule_transaction_in_tx env at ct st a p1 = Inr ((), p2)"
      "write_grant_record_in_tx env at i (led_id l) 1 a (env_now env) (db0\<lparr>gd_points := p2\<rparr>) = Inr db3"
      "write_schedule_in_tx x env at i pt (env_now env) a v db3 = Inr db'"
      "result = ResultSchedule (at_rule_id at) (at_bucket_id at) i (led_id l)"
    by (auto simp: execute_periodic_fixed_def result_simps d0)
  note w = write_rule_ledger_effect[OF run(1)] write_rule_transaction_effect[OF run(2)] write_schedule_effect[OF run(4)]
  from write_grant_record_effect[OF run(3)] obtain g m where
    db3: "db3 = db\<lparr>gd_points := p2\<lparr>db_seq := m\<rparr>, gd_records := gd_records db @ [g]\<rparr>"
    and g: "grec_schedule_id g = i" "grec_period_number g = 1" "grec_ledger_id g = led_id l"
    and none: "\<forall>h \<in> set (gd_records db). \<not> (grec_schedule_id h = i \<and> grec_period_number h = 1)"
    by (auto simp: db0)
  have key: "led_key l = (Some (at_event_id at), Some (at_rule_id at), at_bucket_id at, led_id l, a)"
    by (subst w(1)) (simp add: rule_ledger_key)
  have "first_record db i = None" using none by (auto simp: first_record_def find_None_iff)
  moreover have "extends db [l] [] [new_schedule x env at i pt (env_now env) a v] [g] db'"
    using w db3 by (simp add: extends_def db0)
  ultimately have "rule_added (at_event_id at) (at_rule_id at) (at_bucket_id at) db result db'"
    unfolding run(5) rule_added_def distribution_grant_result.case
    using key g sch_key_new_schedule[of x env at i pt "env_now env" a v] by blast
  then show ?thesis using w db3 by (simp add: config_def fixed_tables_def db0)
qed

lemma execute_rule_effect:
  assumes "execute_rule x env e event selection rr db = Inr (result, db')"
  shows "rule_added e (pdr_id (fst rr)) (fst (snd rr)) db result db' \<and>
    fixed_tables (gd_points db') = fixed_tables (gd_points db) \<and> config db' = config db"
proof -
  obtain rule bucket t where rr: "rr = (rule, bucket, t)" by (metis prod_cases3)
  obtain ct st where ct: "credit_pair_for_trigger t = (ct, st)" by fastforce
  let ?at = "rule_attribution e event rule bucket"
  have at: "at_event_id ?at = e" "at_rule_id ?at = pdr_id rule" "at_bucket_id ?at = bucket"
    by (simp_all add: rule_attribution_def)
  show ?thesis
  proof (cases "pdr_policy rule")
    case (PolicyFixed amount v p)
    show ?thesis
    proof (cases "\<exists>j. selection = ScheduledRule j")
      case True
      with assms PolicyFixed show ?thesis
        using execute_scheduled_fixed_effect[of x env event ?at st db]
        by (auto simp: execute_rule_def rr ct result_simps at)
    next
      case False
      with assms PolicyFixed show ?thesis
        using execute_plain_fixed_effect[of env ?at ct st amount v db result db']
          execute_periodic_fixed_effect[of x env ?at ct st amount v _ db result db']
        by (cases selection; cases p) (simp_all add: execute_rule_def rr ct at Let_def)
    qed
  next
    case (PolicyQuota ws)
    with assms obtain qt q p1 where
      q: "write_quota_entitlement_in_tx env ?at ct qt (ev_source_id event) ws (ev_effective_from event)
            (ev_effective_until event) (gd_points db) = Inr (q, p1)"
      "db' = db\<lparr>gd_points := p1\<rparr>" "result = ResultQuota (pdr_id rule) bucket (ent_id q)"
      by (auto simp: execute_rule_def rr ct result_simps)
    note w = write_quota_effect[OF q(1)]
    have "extends db [] [q] [] [] db'" using w q(2) by (simp add: extends_def)
    with w q(2,3) show ?thesis by (auto simp: rule_added_def rr at config_def)
  qed
qed

section \<open>The rows of other events\<close>

definition refs :: "grants_db \<Rightarrow> uuid set" where
  "refs db = {e. Some e \<in> fst ` led_key ` set (db_ledgers (gd_points db)) \<or>
     Some e \<in> fst ` ent_key ` set (db_entitlements (gd_points db)) \<or> e \<in> fst ` sch_key ` set (gd_schedules db)}"

lemma extends_refs:
  assumes "extends db ls qs ss gs db'" "\<forall>l \<in> set ls. fst (led_key l) = Some e"
    and "\<forall>q \<in> set qs. fst (ent_key q) = Some e" "\<forall>s \<in> set ss. fst (sch_key s) = e"
  shows "refs db' \<subseteq> insert e (refs db)"
proof -
  have "sch_key ` set (gd_schedules db') = sch_key ` set (gd_schedules db) \<union> sch_key ` set ss"
    using assms(1) unfolding extends_def by (metis image_Un list.set_map set_append)
  then show ?thesis
    using assms by (auto simp: refs_def extends_def)
qed

lemma extends_firsts:
  assumes ext: "extends db ls qs ss gs db'" and ok: "firsts_ok db e"
    and new: "\<And>s. s \<in> set ss \<Longrightarrow> sch_distribution_event_id s = e \<Longrightarrow>
      \<exists>g. first_record db' (sch_id s) = Some g \<and> grec_ledger_id g \<in> led_id ` set (db_ledgers (gd_points db'))"
  shows "firsts_ok db' e"
  unfolding firsts_ok_def
proof (intro ballI impI)
  fix s assume s: "s \<in> set (gd_schedules db')" "sch_distribution_event_id s = e"
  have keys: "sch_key ` set (gd_schedules db') = sch_key ` (set (gd_schedules db) \<union> set ss)"
    using ext unfolding extends_def by (metis list.set_map set_append)
  from s(1) have "sch_key s \<in> sch_key ` (set (gd_schedules db) \<union> set ss)" unfolding keys[symmetric] by (rule imageI)
  then obtain y where y: "y \<in> set (gd_schedules db) \<or> y \<in> set ss" "sch_key s = sch_key y" by blast
  then have id: "sch_id s = sch_id y" "sch_distribution_event_id y = e" using s(2) by (auto simp: sch_key_def)
  from y(1) show "\<exists>g. first_record db' (sch_id s) = Some g \<and> grec_ledger_id g \<in> led_id ` set (db_ledgers (gd_points db'))"
  proof
    assume "y \<in> set (gd_schedules db)"
    with ok id obtain g where g: "first_record db (sch_id s) = Some g" "grec_ledger_id g \<in> led_id ` set (db_ledgers (gd_points db))"
      unfolding firsts_ok_def by metis
    have "first_record db' (sch_id s) = Some g"
      using ext by (intro first_record_append[OF g(1)]) (auto simp: extends_def)
    moreover have "led_id ` set (db_ledgers (gd_points db)) \<subseteq> led_id ` set (db_ledgers (gd_points db'))"
      using ext by (auto simp: extends_def)
    ultimately show ?thesis using g(2) by blast
  next
    assume "y \<in> set ss"
    from new[OF this id(2)] show ?thesis unfolding id(1) .
  qed
qed

section \<open>The loop over the rules\<close>

fun result_rule :: "distribution_grant_result \<Rightarrow> uuid" where
  "result_rule (ResultFixed r _ _ _) = r"
| "result_rule (ResultQuota r _ _) = r"
| "result_rule (ResultSchedule r _ _ _) = r"

text \<open>Results were added to one event and to no other.\<close>

definition grown :: "uuid \<Rightarrow> grants_db \<Rightarrow> distribution_grant_result list \<Rightarrow> grants_db \<Rightarrow> bool" where
  "grown e db new db' \<longleftrightarrow>
     (firsts_ok db e \<longrightarrow> firsts_ok db' e \<and> stored_results db' e = stored_results db e + mset new) \<and>
     (\<forall>e'. e' \<noteq> e \<longrightarrow> firsts_ok db e' \<longrightarrow> firsts_ok db' e' \<and> stored_results db' e' = stored_results db e') \<and>
     refs db' \<subseteq> insert e (refs db) \<and>
     (distinct (map led_id (db_ledgers (gd_points db))) \<longrightarrow> distinct (map led_id (db_ledgers (gd_points db')))) \<and>
     fixed_tables (gd_points db') = fixed_tables (gd_points db) \<and> config db' = config db"

lemma grown_refl: "grown e db [] db"
  by (auto simp: grown_def)

lemma grown_trans:
  assumes "grown e db a db1" "grown e db1 b db2"
  shows "grown e db (a @ b) db2"
  unfolding grown_def
proof (intro conjI)
  show "firsts_ok db e \<longrightarrow> firsts_ok db2 e \<and> stored_results db2 e = stored_results db e + mset (a @ b)"
    using assms by (simp add: grown_def)
  show "\<forall>e'. e' \<noteq> e \<longrightarrow> firsts_ok db e' \<longrightarrow> firsts_ok db2 e' \<and> stored_results db2 e' = stored_results db e'"
    using assms by (simp add: grown_def)
  show "refs db2 \<subseteq> insert e (refs db)" using assms unfolding grown_def by blast
  show "distinct (map led_id (db_ledgers (gd_points db))) \<longrightarrow> distinct (map led_id (db_ledgers (gd_points db2)))"
    using assms unfolding grown_def by blast
  show "fixed_tables (gd_points db2) = fixed_tables (gd_points db)" "config db2 = config db"
    using assms by (simp_all add: grown_def)
qed

lemma extends_grown:
  assumes ext: "extends db ls qs ss gs db'"
    and ev: "\<forall>l \<in> set ls. fst (led_key l) = Some e" "\<forall>q \<in> set qs. fst (ent_key q) = Some e" "\<forall>s \<in> set ss. fst (sch_key s) = e"
    and first: "\<And>s. s \<in> set ss \<Longrightarrow> \<exists>g. first_record db' (sch_id s) = Some g \<and> grec_ledger_id g \<in> led_id ` set ls"
    and new: "mset (results_of
      (map (\<lambda>l. (the (led_distribution_rule_id l), led_bucket_id l, led_id l, led_granted_amount l))
         (filter (\<lambda>l. led_distribution_event_id l = Some e \<and> led_distribution_rule_id l \<noteq> None) ls))
      (map (\<lambda>q. (the (ent_distribution_rule_id q), ent_bucket_id q, ent_id q))
         (filter (\<lambda>q. ent_distribution_event_id q = Some e \<and> ent_distribution_rule_id q \<noteq> None) qs))
      (map (\<lambda>s. (sch_distribution_rule_id s, sch_bucket_id s, sch_id s, first_ledger_of db' (sch_id s)))
         (filter (\<lambda>s. sch_distribution_event_id s = e) ss))) = mset rs"
    and frame: "fixed_tables (gd_points db') = fixed_tables (gd_points db)" "config db' = config db"
    and one: "distinct (map led_id ls)"
  shows "grown e db rs db'"
proof -
  have ids: "\<forall>l \<in> set ls. led_id l \<notin> led_id ` set (db_ledgers (gd_points db))"
    and leds: "db_ledgers (gd_points db') = db_ledgers (gd_points db) @ ls" using ext by (simp_all add: extends_def)
  have unseen: "first_ledger_of db' (sch_id s) \<notin> led_id ` set (db_ledgers (gd_points db))" if "s \<in> set ss" for s
  proof -
    from first[OF that] obtain g where "first_record db' (sch_id s) = Some g" "grec_ledger_id g \<in> led_id ` set ls" by blast
    with ids first_ledger_of_record show ?thesis by (metis imageE)
  qed
  have sub: "led_id ` set ls \<subseteq> led_id ` set (db_ledgers (gd_points db'))" by (auto simp: leds)
  have firsts: "firsts_ok db' e'" if "firsts_ok db e'" for e'
  proof (rule extends_firsts[OF ext that])
    fix s assume "s \<in> set ss"
    from first[OF this] sub show "\<exists>g. first_record db' (sch_id s) = Some g \<and>
        grec_ledger_id g \<in> led_id ` set (db_ledgers (gd_points db'))" by blast
  qed
  have other: "stored_results db' e' = stored_results db e'" if "firsts_ok db e'" "e' \<noteq> e" for e'
  proof -
    have none: "filter (\<lambda>l. led_distribution_event_id l = Some e' \<and> led_distribution_rule_id l \<noteq> None) ls = []"
      "filter (\<lambda>q. ent_distribution_event_id q = Some e' \<and> ent_distribution_rule_id q \<noteq> None) qs = []"
      "filter (\<lambda>s. sch_distribution_event_id s = e') ss = []"
      using ev that(2) by (auto simp: filter_empty_conv led_key_def ent_key_def sch_key_def)
    show ?thesis
      using stored_results_extend[OF ext that(1) unseen] unfolding none by (simp add: results_of_def)
  qed
  have this_event: "stored_results db' e = stored_results db e + mset rs" if "firsts_ok db e"
    using stored_results_extend[OF ext that unseen] unfolding new .
  have "distinct (map led_id (db_ledgers (gd_points db')))" if "distinct (map led_id (db_ledgers (gd_points db)))"
  proof -
    have "i \<notin> led_id ` set (db_ledgers (gd_points db))" if "i \<in> led_id ` set ls" for i
      using that by (rule imageE) (simp add: bspec[OF ids])
    then have "led_id ` set (db_ledgers (gd_points db)) \<inter> led_id ` set ls = {}"
      by (simp only: disjoint_iff) metis
    with that one show ?thesis by (simp add: leds)
  qed
  then show ?thesis
    unfolding grown_def using firsts other this_event extends_refs[OF ext ev] frame by blast
qed

lemma rule_added_grown:
  assumes add: "rule_added e r b db result db'"
    and frame: "fixed_tables (gd_points db') = fixed_tables (gd_points db)" "config db' = config db"
  shows "grown e db [result] db' \<and> result_rule result = r"
proof (cases result)
  case (ResultFixed r' b' i a)
  with add obtain l gs where l: "extends db [l] [] [] gs db'" "led_key l = (Some e, Some r, b, i, a)" "r' = r" "b' = b"
    by (auto simp: rule_added_def)
  have "grown e db [result] db'"
    by (rule extends_grown[OF l(1) _ _ _ _ _ frame])
      (use l ResultFixed in \<open>auto simp: results_of_def led_key_def\<close>)
  with l(3) ResultFixed show ?thesis by simp
next
  case (ResultQuota r' b' i)
  with add obtain q where q: "extends db [] [q] [] [] db'" "ent_key q = (Some e, Some r, b, i)" "r' = r" "b' = b"
    by (auto simp: rule_added_def)
  have "grown e db [result] db'"
    by (rule extends_grown[OF q(1) _ _ _ _ _ frame])
      (use q ResultQuota in \<open>auto simp: results_of_def ent_key_def\<close>)
  with q(3) ResultQuota show ?thesis by simp
next
  case (ResultSchedule r' b' i f)
  with add obtain l s g a where l: "extends db [l] [] [s] [g] db'" "led_key l = (Some e, Some r, b, f, a)"
    "sch_key s = (e, r, b, i)" "first_record db i = None"
    and g: "grec_schedule_id g = i" "grec_period_number g = 1" "grec_ledger_id g = f" and "r' = r" "b' = b"
    by (auto simp: rule_added_def)
  have rec: "first_record db' i = Some g"
    using l(1,4) g by (auto simp: first_record_def extends_def find_append)
  note first = first_ledger_of_record[OF rec]
  have "grown e db [result] db'"
    by (rule extends_grown[OF l(1) _ _ _ _ _ frame])
      (use l(2,3) g rec first ResultSchedule \<open>r' = r\<close> \<open>b' = b\<close> in \<open>auto simp: results_of_def led_key_def sch_key_def\<close>)
  with \<open>r' = r\<close> ResultSchedule show ?thesis by simp
qed

lemma execute_rules_grown:
  assumes "try_fold (execute_rule_step x env e event selection) (rs, db) resolved = Inr (rs', db')"
  shows "\<exists>new. rs' = rs @ new \<and> grown e db new db' \<and> map result_rule new = map (pdr_id \<circ> fst) resolved"
  using assms
proof (induction resolved arbitrary: rs db)
  case Nil
  then show ?case by (simp add: grown_refl)
next
  case (Cons rr resolved)
  from Cons.prems obtain result db1 where one: "execute_rule x env e event selection rr db = Inr (result, db1)"
    and rest: "try_fold (execute_rule_step x env e event selection) (rs @ [result], db1) resolved = Inr (rs', db')"
    unfolding try_fold.simps execute_rule_step_def[of _ _ _ _ _ "(rs, db)"] by (auto simp: result_simps)
  from Cons.IH[OF rest] obtain new where new: "rs' = (rs @ [result]) @ new" "grown e db1 new db'"
    "map result_rule new = map (pdr_id \<circ> fst) resolved" by blast
  from execute_rule_effect[OF one] rule_added_grown
  have "grown e db [result] db1" "result_rule result = pdr_id (fst rr)" by blast+
  with new grown_trans[of e db "[result]" db1 new db'] show ?case by (intro exI[of _ "result # new"]) simp
qed

end
