(* ===== verification/DistributionProps.thy ===== *)
theory DistributionProps
  imports DistributionRun
begin

text \<open>
  The promises of the atomic distribution operations.  The invariant says that every committed
  event is completed and that its recorded result count is the number of results the tables hold
  for it; it makes the retry loop return, and makes every replay answer with the results of the
  first run.  The loop is a client of the work it runs in its transaction: the contract between
  them is the locale \<open>event_work\<close>, interpreted for the plain execution and for the replacement
  of a source.
\<close>

section \<open>The invariant\<close>

definition settled :: "grants_db \<Rightarrow> distribution_event_row \<Rightarrow> bool" where
  "settled db ev \<longleftrightarrow> evt_status ev = ''completed'' \<and>
     evt_result_count ev = Some (int (size (stored_results db (evt_id ev)))) \<and>
     size (stored_results db (evt_id ev)) < 2 ^ 31 \<and> firsts_ok db (evt_id ev)"

definition dist_inv :: "grants_db \<Rightarrow> bool" where
  "dist_inv db \<longleftrightarrow>
     distinct (map evt_id (db_events (gd_points db))) \<and>
     distinct (map led_id (db_ledgers (gd_points db))) \<and>
     (\<forall>ev \<in> set (db_events (gd_points db)). settled db ev) \<and>
     refs db \<subseteq> evt_id ` set (db_events (gd_points db))"

text \<open>Operations that keep the identifying columns keep the results of every event.\<close>

definition same_rows :: "grants_db \<Rightarrow> grants_db \<Rightarrow> bool" where
  "same_rows db db' \<longleftrightarrow>
     map led_key (db_ledgers (gd_points db')) = map led_key (db_ledgers (gd_points db)) \<and>
     map ent_key (db_entitlements (gd_points db')) = map ent_key (db_entitlements (gd_points db)) \<and>
     map sch_key (gd_schedules db') = map sch_key (gd_schedules db) \<and>
     gd_records db' = gd_records db"

lemma same_rows_refl [simp]: "same_rows db db"
  by (simp add: same_rows_def)

lemma same_rows_trans: "same_rows db db1 \<Longrightarrow> same_rows db1 db2 \<Longrightarrow> same_rows db db2"
  by (simp add: same_rows_def)

lemma led_ids_of_keys: "map led_id ls = map (\<lambda>(_, _, _, i, _). i) (map led_key ls)"
  by (simp add: comp_def led_key_def)

lemma same_rows_ledger_ids:
  "same_rows db db' \<Longrightarrow> map led_id (db_ledgers (gd_points db')) = map led_id (db_ledgers (gd_points db))"
  unfolding led_ids_of_keys same_rows_def by simp

lemma same_rows_stored: "same_rows db db' \<Longrightarrow> stored_results db' e = stored_results db e"
  by (simp add: same_rows_def stored_results_def ledger_rows_of_def quota_rows_of_def schedule_rows_of_def
      first_ledger_of_def)

lemma firsts_ok_keys:
  "firsts_ok db e \<longleftrightarrow> (\<forall>k \<in> set (map sch_key (gd_schedules db)). fst k = e \<longrightarrow>
     (\<exists>g. first_record db (snd (snd (snd k))) = Some g \<and>
          grec_ledger_id g \<in> set (map led_id (db_ledgers (gd_points db)))))"
  by (simp add: firsts_ok_def sch_key_def)

lemma same_rows_firsts: "same_rows db db' \<Longrightarrow> firsts_ok db' e = firsts_ok db e"
  unfolding firsts_ok_keys same_rows_ledger_ids by (simp add: same_rows_def first_record_def)

lemma refs_keys:
  "refs db = {e. Some e \<in> fst ` set (map led_key (db_ledgers (gd_points db))) \<or>
     Some e \<in> fst ` set (map ent_key (db_entitlements (gd_points db))) \<or>
     e \<in> fst ` set (map sch_key (gd_schedules db))}"
  by (simp add: refs_def image_image)

lemma same_rows_refs: "same_rows db db' \<Longrightarrow> refs db' = refs db"
  unfolding refs_keys by (simp only: same_rows_def)

lemma no_refs:
  assumes "e \<notin> refs db"
  shows "stored_results db e = {#}" "firsts_ok db e"
proof -
  have "led_distribution_event_id l \<noteq> Some e" if "l \<in> set (db_ledgers (gd_points db))" for l
    using assms that by (auto simp: refs_def led_key_def image_iff)
  then have l: "ledger_rows_of (gd_points db) e = []"
    by (auto simp: ledger_rows_of_def filter_empty_conv led_key_def)
  have "ent_distribution_event_id q \<noteq> Some e" if "q \<in> set (db_entitlements (gd_points db))" for q
    using assms that by (auto simp: refs_def ent_key_def image_iff)
  then have q: "quota_rows_of (gd_points db) e = []"
    by (auto simp: quota_rows_of_def filter_empty_conv ent_key_def)
  have s: "sch_distribution_event_id s \<noteq> e" if "s \<in> set (gd_schedules db)" for s
    using assms that by (auto simp: refs_def sch_key_def image_iff)
  then have "schedule_rows_of db e = []"
    by (auto simp: schedule_rows_of_def filter_empty_conv sch_key_def)
  with l q show "stored_results db e = {#}" by (simp add: stored_results_def results_of_def)
  from s show "firsts_ok db e" unfolding firsts_ok_def by blast
qed

lemma dist_inv_draw: "dist_inv (snd (draw_uuid env db)) = dist_inv db"
proof -
  let ?db = "snd (draw_uuid env db)"
  have p: "gd_points ?db = (gd_points db)\<lparr>db_seq := Suc (db_seq (gd_points db))\<rparr>"
    "gd_schedules ?db = gd_schedules db" "gd_records ?db = gd_records db"
    by (simp_all add: draw_uuid_def now_v7_def)
  have rows: "same_rows db ?db" by (simp add: same_rows_def p)
  show ?thesis
    unfolding dist_inv_def settled_def
    by (simp add: same_rows_stored[OF rows] same_rows_firsts[OF rows] same_rows_refs[OF rows] p)
qed

section \<open>The loop\<close>

lemma find_conj: "find P xs = Some y \<Longrightarrow> \<forall>x \<in> set xs. Q x \<Longrightarrow> find (\<lambda>x. P x \<and> Q x) xs = Some y"
  by (induction xs) (auto split: if_splits)

lemma insert_existing:
  "find (same_event event) (db_events (gd_points db)) = Some ev \<Longrightarrow>
     on_points (insert_or_load_event_in_tx env event) db =
       Inr (ExistingEvent (evt_id ev) (evt_status ev), snd (draw_uuid env db))"
  by (simp add: on_points_def insert_or_load_event_in_tx_def draw_uuid_def now_v7_def)

lemma event_loop_existing:
  assumes inv: "dist_inv db" and ev: "find (same_event event) (db_events (gd_points db)) = Some ev"
  shows "\<exists>rs. event_loop env event work db = Some (Inr rs, snd (draw_uuid env db)) \<and>
    mset rs = stored_results db (evt_id ev)"
proof -
  let ?db = "snd (draw_uuid env db)"
  from inv have inv': "dist_inv ?db" by (simp add: dist_inv_draw)
  have events: "db_events (gd_points ?db) = db_events (gd_points db)" by (simp add: draw_uuid_def now_v7_def)
  have rows: "same_rows db ?db" by (simp add: same_rows_def draw_uuid_def now_v7_def)
  have mem: "ev \<in> set (db_events (gd_points db))" using find_SomeD[OF ev] by simp
  then have s: "settled ?db ev" using inv' by (simp add: dist_inv_def events)
  have "find (\<lambda>e. evt_id e = evt_id ev) (db_events (gd_points db)) = Some ev"
    using inv mem by (intro find_key_in) (simp add: dist_inv_def)
  moreover have "\<forall>e \<in> set (db_events (gd_points db)). evt_status e = ''completed''"
    using inv by (simp add: dist_inv_def settled_def)
  ultimately have "find (\<lambda>e. evt_id e = evt_id ev \<and> evt_status e = ''completed'') (db_events (gd_points db)) = Some ev"
    by (rule find_conj)
  with s have lock: "lock_completed_event_for_replay_in_tx (gd_points ?db) (evt_id ev) =
      Some (int (size (stored_results ?db (evt_id ev))))"
    by (simp add: lock_completed_event_for_replay_in_tx_def events settled_def)
  obtain rs where "mset rs = stored_results ?db (evt_id ev)"
    "fold_replay_results env (replay_rows ?db (evt_id ev)) (int (size (stored_results ?db (evt_id ev)))) (evt_id ev) = Inr rs"
    using fold_replay_stored[of ?db "evt_id ev" env "int (size (stored_results ?db (evt_id ev)))"] s
    by (auto simp: settled_def)
  with lock s insert_existing[OF ev, of env] same_rows_stored[OF rows] show ?thesis
    by (subst event_loop.simps) (simp add: settled_def event_attempt_def)
qed

text \<open>What the loop needs of the work: it completes the event it was given and adds results to no
  other event.\<close>

definition completed_run ::
  "distribution_event \<Rightarrow> uuid \<Rightarrow> distribution_event_row list \<Rightarrow> grants_db \<Rightarrow> distribution_grant_result list \<Rightarrow> grants_db \<Rightarrow> bool" where
  "completed_run event i es db rs db' \<longleftrightarrow>
     (\<exists>t. db_events (gd_points db') = es @ [(new_event_row i event)\<lparr>evt_status := ''completed'',
         evt_result_count := Some (int (length rs)), evt_completed_at := Some t\<rparr>]) \<and>
     length rs < 2 ^ 31 \<and> firsts_ok db' i \<and> stored_results db' i = mset rs \<and>
     (\<forall>e'. e' \<noteq> i \<longrightarrow> firsts_ok db e' \<longrightarrow> firsts_ok db' e' \<and> stored_results db' e' = stored_results db e') \<and>
     refs db' \<subseteq> insert i (refs db) \<and> distinct (map led_id (db_ledgers (gd_points db')))"

locale event_work =
  fixes event :: distribution_event and work :: "uuid \<Rightarrow> grants_db \<Rightarrow> distribution_grant_result list gtx"
  assumes work_done: "work i db = Inr (rs, db') \<Longrightarrow> db_events (gd_points db) = es @ [new_event_row i event] \<Longrightarrow>
      i \<notin> evt_id ` set es \<Longrightarrow> i \<notin> refs db \<Longrightarrow> distinct (map led_id (db_ledgers (gd_points db))) \<Longrightarrow>
      completed_run event i es db rs db'"
begin

lemma work_keeps_inv:
  assumes inv: "dist_inv db" and none: "find (same_event event) (db_events (gd_points db)) = None"
    and ins: "on_points (insert_or_load_event_in_tx env event) db = Inr (InsertedProcessing i, db1)"
    and run: "work i db1 = Inr (rs, db2)"
  shows "dist_inv db2 \<and> (\<exists>ev. find (same_event event) (db_events (gd_points db2)) = Some ev \<and>
    stored_results db2 (evt_id ev) = mset rs)"
proof -
  let ?es = "db_events (gd_points db)"
  from ins none have i: "i \<notin> evt_id ` set ?es"
    and es: "db_events (gd_points db1) = ?es @ [new_event_row i event]" and rows: "same_rows db db1"
    unfolding insert_or_load_event_in_tx_def on_points_def key_unused_iff
    by (auto simp: result_simps now_v7_def same_rows_def)
  from inv i have unref: "i \<notin> refs db1" by (auto simp: dist_inv_def same_rows_refs[OF rows])
  have "distinct (map led_id (db_ledgers (gd_points db1)))"
    using inv by (simp add: dist_inv_def same_rows_ledger_ids[OF rows])
  from work_done[OF run es i unref this] obtain t where
    w: "db_events (gd_points db2) = ?es @ [(new_event_row i event)\<lparr>evt_status := ''completed'',
         evt_result_count := Some (int (length rs)), evt_completed_at := Some t\<rparr>]"
      "length rs < 2 ^ 31" "firsts_ok db2 i" "stored_results db2 i = mset rs"
      "\<And>e'. e' \<noteq> i \<Longrightarrow> firsts_ok db1 e' \<Longrightarrow> firsts_ok db2 e' \<and> stored_results db2 e' = stored_results db1 e'"
      "refs db2 \<subseteq> insert i (refs db1)" "distinct (map led_id (db_ledgers (gd_points db2)))"
    unfolding completed_run_def by blast
  let ?ev = "(new_event_row i event)\<lparr>evt_status := ''completed'',
         evt_result_count := Some (int (length rs)), evt_completed_at := Some t\<rparr>"
  have id: "evt_id ?ev = i" and same: "same_event event ?ev"
    by (simp_all add: new_event_row_def same_event_def)
  have old: "settled db2 e" if "e \<in> set ?es" for e
  proof -
    have "evt_id e \<noteq> i" using i that by auto
    with inv that show ?thesis
      using w(5)[of "evt_id e"] same_rows_stored[OF rows] same_rows_firsts[OF rows]
      by (simp add: dist_inv_def settled_def)
  qed
  have "settled db2 ?ev" using w(2,3,4) by (simp add: settled_def id)
  then have "dist_inv db2"
    unfolding dist_inv_def w(1)
    using old inv i w(6,7) by (auto simp: dist_inv_def id same_rows_refs[OF rows])
  moreover have "find (same_event event) (db_events (gd_points db2)) = Some ?ev"
    unfolding w(1) by (simp add: find_append none same)
  ultimately show ?thesis using w(4) id by metis
qed

text \<open>The loop returns, and keeps the invariant.\<close>

lemma loop_returns:
  assumes "dist_inv db"
  obtains r db' where "event_loop env event work db = Some (r, db')" "dist_inv db'"
proof (cases "find (same_event event) (db_events (gd_points db))")
  case (Some ev)
  from event_loop_existing[OF assms Some, of env work] assms show ?thesis
    using that dist_inv_draw by blast
next
  case None
  show ?thesis
  proof (cases "on_points (insert_or_load_event_in_tx env event) db")
    case (Inl e)
    with assms that show ?thesis by (subst (asm) event_loop.simps) (simp add: event_attempt_def)
  next
    case (Inr r)
    with None obtain i db1 where ins: "on_points (insert_or_load_event_in_tx env event) db = Inr (InsertedProcessing i, db1)"
      by (cases r) (auto simp: on_points_def insert_or_load_event_in_tx_def now_v7_def result_simps)
    show ?thesis
    proof (cases "work i db1")
      case (Inl e)
      with ins assms that show ?thesis by (subst (asm) event_loop.simps) (simp add: event_attempt_def)
    next
      case (Inr r)
      then obtain rs db2 where run: "work i db1 = Inr (rs, db2)" by (cases r) auto
      with ins have "event_loop env event work db = Some (Inr rs, db2)" by (subst event_loop.simps) (simp add: event_attempt_def)
      with work_keeps_inv[OF assms None ins run] that show ?thesis by blast
    qed
  qed
qed

text \<open>A successful call left the event with the results it returned.\<close>

lemma loop_stored:
  assumes inv: "dist_inv db" and run: "event_loop env event work db = Some (Inr rs, db')"
  obtains ev where "find (same_event event) (db_events (gd_points db')) = Some ev"
    "stored_results db' (evt_id ev) = mset rs" "dist_inv db'"
proof (cases "find (same_event event) (db_events (gd_points db))")
  case (Some ev)
  with event_loop_existing[OF inv Some, of env work] run have
    "db' = snd (draw_uuid env db)" "mset rs = stored_results db (evt_id ev)" by auto
  moreover have "same_rows db (snd (draw_uuid env db))"
    "db_events (gd_points (snd (draw_uuid env db))) = db_events (gd_points db)"
    by (simp_all add: same_rows_def draw_uuid_def now_v7_def)
  ultimately show ?thesis using that[of ev] Some inv dist_inv_draw by (simp add: same_rows_stored)
next
  case None
  from run None obtain i db1 where ins: "on_points (insert_or_load_event_in_tx env event) db = Inr (InsertedProcessing i, db1)"
    and w: "work i db1 = Inr (rs, db')"
    by (subst (asm) event_loop.simps)
      (auto simp: event_attempt_def on_points_def insert_or_load_event_in_tx_def now_v7_def result_simps split: sum.splits if_splits)
  from work_keeps_inv[OF inv None ins w] that show ?thesis by blast
qed

lemma loop_replays:
  assumes inv: "dist_inv db" and run: "event_loop env event work db = Some (Inr rs, db')"
  shows "\<exists>rs'. event_loop env' event work' db' = Some (Inr rs', snd (draw_uuid env' db')) \<and> mset rs' = mset rs"
  using loop_stored[OF inv run] event_loop_existing by metis

end

section \<open>The two operations honour the contract\<close>

lemma complete_event_rows: "same_rows db (db\<lparr>gd_points := complete_event_in_tx env (gd_points db) i n\<rparr>)"
  by (simp add: same_rows_def complete_event_in_tx_def)

lemma complete_event_events:
  assumes "db_events p = es @ [new_event_row i event]" "i \<notin> evt_id ` set es"
  shows "db_events (complete_event_in_tx env p i n) = es @ [(new_event_row i event)\<lparr>evt_status := ''completed'',
    evt_result_count := Some n, evt_completed_at := Some (env_sql_now env)\<rparr>]"
proof -
  have "evt_id e \<noteq> i" if "e \<in> set es" for e
    using assms(2) that by (metis imageI)
  then have "update_where (\<lambda>e. evt_id e = i \<and> evt_status e = ''processing'') f es = es" for f
    unfolding update_where_def by (intro map_idI) simp
  then show ?thesis
    by (simp add: complete_event_in_tx_def assms(1) update_where_def new_event_row_def)
qed

lemma first_run_InrE:
  assumes "execute_first_run_in_tx x env i event selection db = Inr (rs, db')"
  obtains unsorted db1 where "resolve_rules x db event selection = Inr unsorted"
    "check_buckets env db (ev_realm_id event) (sort_key (firing_order \<circ> fst) unsorted) = Inr ()"
    "try_fold (execute_rule_step x env i event selection) ([], db) (sort_key (firing_order \<circ> fst) unsorted) = Inr (rs, db1)"
    "length rs < 2 ^ 31" "db' = db1\<lparr>gd_points := complete_event_in_tx env (gd_points db1) i (int (length rs))\<rparr>"
  using assms unfolding execute_first_run_in_tx_def Let_def by (auto simp: result_simps of_nat_less_numeral_iff)

lemma first_run_completes:
  assumes run: "execute_first_run_in_tx x env i event selection db = Inr (rs, db')"
    and es: "db_events (gd_points db) = es @ [new_event_row i event]" "i \<notin> evt_id ` set es" "i \<notin> refs db"
    and dist: "distinct (map led_id (db_ledgers (gd_points db)))"
  shows "completed_run event i es db rs db'"
proof -
  obtain unsorted db1 where
    loop: "try_fold (execute_rule_step x env i event selection) ([], db) (sort_key (firing_order \<circ> fst) unsorted) = Inr (rs, db1)"
    and len: "length rs < 2 ^ 31" and db': "db' = db1\<lparr>gd_points := complete_event_in_tx env (gd_points db1) i (int (length rs))\<rparr>"
    using first_run_InrE[OF run] by metis
  from execute_rules_grown[OF loop] have g: "grown i db rs db1" by simp
  have rows: "same_rows db1 db'" unfolding db' by (rule complete_event_rows)
  have "db_events (gd_points db1) = es @ [new_event_row i event]"
    using g es(1) by (simp add: grown_def fixed_tables_def)
  from complete_event_events[OF this es(2)] db' have ev: "db_events (gd_points db') = es @
      [(new_event_row i event)\<lparr>evt_status := ''completed'', evt_result_count := Some (int (length rs)),
        evt_completed_at := Some (env_sql_now env)\<rparr>]" by simp
  note start = no_refs[OF es(3)]
  show ?thesis
    unfolding completed_run_def same_rows_stored[OF rows] same_rows_firsts[OF rows] same_rows_refs[OF rows]
      same_rows_ledger_ids[OF rows] using g ev len start dist by (auto simp: grown_def)
qed

lemma completed_run_after:
  assumes "completed_run event i es db1 rs db2" "same_rows db db1"
  shows "completed_run event i es db rs db2"
  using assms(1) unfolding completed_run_def same_rows_stored[OF assms(2)] same_rows_firsts[OF assms(2)]
    same_rows_refs[OF assms(2)] .

lemma deactivate_rows:
  "same_rows db (deactivate_free_periodic_results_in_tx env realm user t db)"
  unfolding same_rows_def deactivate_free_periodic_results_in_tx_def
  by (simp add: map_update_where_same ent_key_def sch_key_def)

lemma deactivate_events [simp]:
  "db_events (gd_points (deactivate_free_periodic_results_in_tx env realm user t db)) = db_events (gd_points db)"
  "db_ledgers (gd_points (deactivate_free_periodic_results_in_tx env realm user t db)) = db_ledgers (gd_points db)"
  by (simp_all add: deactivate_free_periodic_results_in_tx_def)

lemma execute_event_completes:
  assumes "execute_event_first_run x env event selection i db = Inr (rs, db')"
    and "db_events (gd_points db) = es @ [new_event_row i event]" "i \<notin> evt_id ` set es" "i \<notin> refs db"
    and "distinct (map led_id (db_ledgers (gd_points db)))"
  shows "completed_run event i es db rs db'"
proof -
  define db1 where "db1 = (if ev_trigger event \<in> {TriggerSubscriptionInitial, TriggerSubscriptionRenewal}
      then deactivate_free_periodic_results_in_tx env (ev_realm_id event) (ev_user_id event) (ev_effective_from event) db
      else db)"
  have rows: "same_rows db db1" by (simp add: db1_def deactivate_rows)
  have "execute_first_run_in_tx x env i event selection db1 = Inr (rs, db')"
    using assms(1) unfolding execute_event_first_run_def db1_def .
  moreover have "i \<notin> refs db1" "distinct (map led_id (db_ledgers (gd_points db1)))"
    using assms(4,5) by (simp_all add: same_rows_refs[OF rows] same_rows_ledger_ids[OF rows])
  moreover have "db_events (gd_points db1) = es @ [new_event_row i event]" using assms(2) by (simp add: db1_def)
  ultimately have "completed_run event i es db1 rs db'" using assms(3) by (intro first_run_completes)
  then show ?thesis using rows by (rule completed_run_after)
qed

interpretation execute_event: event_work event "execute_event_first_run x env event selection"
  by unfold_locales (rule execute_event_completes)

text \<open>Revoking keeps the identifying columns of every ledger row.\<close>

lemma update_ledger_keys:
  assumes "update_ledger_in_tx env p i upd = Inr (l', p')" "distinct (map led_id (db_ledgers p))"
  shows "map led_key (db_ledgers p') = map led_key (db_ledgers p)"
proof -
  from assms(1) obtain l l0 where l: "find (\<lambda>l. led_id l = i) (db_ledgers p) = Some l" "updated_ledger upd l = Inr l0"
      "l' = l0\<lparr>led_updated_at := env_sql_now env\<rparr>"
      "p' = p\<lparr>db_ledgers := update_where (\<lambda>x. led_id x = i) (\<lambda>_. l') (db_ledgers p)\<rparr>"
    by (auto simp: result_simps)
  from find_SomeD[OF l(1)] have "l \<in> set (db_ledgers p)" "led_id l = i" by auto
  have "led_key l' = led_key l"
    using updated_ledger_origin[OF l(2)] by (simp add: l(3) ledger_origin_def led_key_def)
  moreover have "y = l" if "y \<in> set (db_ledgers p)" "led_id y = i" for y
    using distinct_key_unique[OF assms(2)] that \<open>l \<in> set (db_ledgers p)\<close> \<open>led_id l = i\<close> by metis
  ultimately show ?thesis unfolding l(4) by (simp add: update_where_def)
qed

lemma revoke_step_keys:
  assumes "revoke_ledger_step env cause (tot, ids, p) (i, a) = Inr (tot', ids', p')" "distinct (map led_id (db_ledgers p))"
  shows "map led_key (db_ledgers p') = map led_key (db_ledgers p) \<and> db_entitlements p' = db_entitlements p \<and>
    fixed_tables p' = fixed_tables p"
proof -
  from assms(1) obtain l p1 where u: "update_ledger_in_tx env p i (Revocation a) = Inr (l, p1)"
    and "db_ledgers p' = db_ledgers p1" "db_entitlements p' = db_entitlements p1" "fixed_tables p' = fixed_tables p1"
    by (auto simp: revoke_ledger_step_def and_then_Inr_iff create_revocation_Inr_iff now_v7_def fixed_tables_def)
  moreover from update_ledger_frame[OF u] obtain ls where "p1 = p\<lparr>db_ledgers := ls\<rparr>" by blast
  ultimately show ?thesis using update_ledger_keys[OF u assms(2)] by (simp add: fixed_tables_def)
qed

lemma revoke_fold_keys:
  assumes "try_fold (revoke_ledger_step env cause) (tot, ids, p) ps = Inr (tot', ids', p')" "distinct (map led_id (db_ledgers p))"
  shows "map led_key (db_ledgers p') = map led_key (db_ledgers p) \<and> db_entitlements p' = db_entitlements p \<and>
    fixed_tables p' = fixed_tables p"
  using assms
proof (induction ps arbitrary: tot ids p)
  case (Cons q ps)
  obtain i a where q: "q = (i, a)" by (cases q)
  from Cons.prems(1) obtain t1 ids1 p1 where one: "revoke_ledger_step env cause (tot, ids, p) (i, a) = Inr (t1, ids1, p1)"
    and rest: "try_fold (revoke_ledger_step env cause) (t1, ids1, p1) ps = Inr (tot', ids', p')"
    unfolding q try_fold.simps and_then_Inr_iff by (metis prod_cases3)
  note k = revoke_step_keys[OF one Cons.prems(2)]
  then have "distinct (map led_id (db_ledgers p1))" using Cons.prems(2) by (simp only: led_ids_of_keys)
  from Cons.IH[OF rest this] k show ?case by simp
qed simp

lemma revoke_source_rows:
  assumes "revoke_distribution_source_in_tx env realm user source ty reason ref p = Inr (out, p')"
    and "distinct (map led_id (db_ledgers p))"
  shows "map led_key (db_ledgers p') = map led_key (db_ledgers p) \<and>
    map ent_key (db_entitlements p') = map ent_key (db_entitlements p) \<and> fixed_tables p' = fixed_tables p"
proof -
  from assms(1) obtain tot ids p1 cause ps where
    run: "try_fold (revoke_ledger_step env cause) (0, [], p) ps = Inr (tot, ids, p1)"
    and p': "p' = snd (output_of env ids tot (revoke_source_entitlements env realm user source p1))"
    unfolding revoke_distribution_source_in_tx_def revoke_ledger_list_in_tx_def by (auto simp: result_simps)
  have "db_ledgers p' = db_ledgers p1" "fixed_tables p' = fixed_tables p1"
    "map ent_key (db_entitlements p') = map ent_key (db_entitlements p1)"
    unfolding p'
    by (simp_all add: output_of_def now_v7_def revoke_source_entitlements_def fixed_tables_def map_update_where_same ent_key_def)
  with revoke_fold_keys[OF run assms(2)] show ?thesis by simp
qed

lemma replace_completes:
  assumes run: "replace_first_run x env source ty reason event selection i db = Inr (rs, db')"
    and es: "db_events (gd_points db) = es @ [new_event_row i event]" "i \<notin> evt_id ` set es" "i \<notin> refs db"
    and dist: "distinct (map led_id (db_ledgers (gd_points db)))"
  shows "completed_run event i es db rs db'"
proof -
  define db0 where "db0 = deactivate_free_periodic_results_in_tx env (ev_realm_id event) (ev_user_id event) (ev_effective_from event) db"
  from run obtain out p where
    rev: "revoke_distribution_source_in_tx env (ev_realm_id event) (ev_user_id event) source ty reason (ev_event_key event)
        (gd_points db0) = Inr (out, p)"
    and first: "execute_first_run_in_tx x env i event selection (db0\<lparr>gd_points := p\<rparr>) = Inr (rs, db')"
    by (auto simp: replace_first_run_def result_simps db0_def)
  have "distinct (map led_id (db_ledgers (gd_points db0)))" using dist by (simp add: db0_def)
  note r = revoke_source_rows[OF rev this]
  have "same_rows db0 (db0\<lparr>gd_points := p\<rparr>)" using r by (simp add: same_rows_def)
  then have rows: "same_rows db (db0\<lparr>gd_points := p\<rparr>)"
    using same_rows_trans deactivate_rows unfolding db0_def by blast
  have "db_events p = es @ [new_event_row i event]" using r es(1) by (simp add: fixed_tables_def db0_def)
  moreover have "i \<notin> refs (db0\<lparr>gd_points := p\<rparr>)" "distinct (map led_id (db_ledgers p))"
    using es(3) dist same_rows_ledger_ids[OF rows] by (simp_all add: same_rows_refs[OF rows])
  ultimately have "completed_run event i es (db0\<lparr>gd_points := p\<rparr>) rs db'"
    using first es(2) by (intro first_run_completes) simp_all
  then show ?thesis using rows by (rule completed_run_after)
qed

interpretation replace_source: event_work event "replace_first_run x env source ty reason event selection"
  by unfold_locales (rule replace_completes)

section \<open>Properties\<close>

lemma dist_inv_same_rows:
  assumes "dist_inv db" "same_rows db db'" "db_events (gd_points db') = db_events (gd_points db)"
  shows "dist_inv db'"
  using assms(1) unfolding dist_inv_def settled_def same_rows_stored[OF assms(2)] same_rows_firsts[OF assms(2)]
    same_rows_refs[OF assms(2)] same_rows_ledger_ids[OF assms(2)] assms(3) .


text \<open>
  C32: the retry loops return.  On a database in which every committed event is completed with its
  result count, both operations end after one transaction, with a value or an error, and leave such
  a database; an event is never seen in progress and a replay never reports corruption.
\<close>

theorem distribution_loops_return:
  assumes "dist_inv db"
  shows "(\<exists>r db'. execute_distribution_event_atomic x env event selection db = Some (r, db') \<and> dist_inv db') \<and>
    (\<exists>r db'. replace_distribution_source_atomic x env source ty reason event selection db = Some (r, db') \<and> dist_inv db')"
  unfolding execute_distribution_event_atomic_def replace_distribution_source_atomic_def
  using execute_event.loop_returns[OF assms] replace_source.loop_returns[OF assms] by metis

definition demo_ext :: ext where
  "demo_ext = \<lparr>ext_parse_uuid = (\<lambda>s. Some (read_digits s)), ext_add_months = (\<lambda>t n. t + days (30 * int n)),
     ext_rfc3339 = show_int\<rparr>"

definition demo_dist :: grants_db where
  "demo_dist = \<lparr>gd_points = demo_db,
     gd_rules = [new_rule_row 602 (demo_rule 602 OwnerRealmRegistration 11 [TriggerFreePeriodicGrant] (PolicyFixed 5 1 (Some Daily)) 2),
       new_rule_row 601 (demo_rule 601 OwnerRealmRegistration 10 [TriggerRegistration] (PolicyFixed 20 0 None) 1),
       new_rule_row 603 (demo_rule 603 OwnerRealmRegistration 10 [TriggerFreePeriodicGrant]
         (PolicyQuota [\<lparr>qw_window_seconds = 60, qw_limit = 3, qw_key = ''minute''\<rparr>]) 2)],
     gd_schedules = [], gd_records = [], gd_captured = []\<rparr>"

definition demo_registration :: distribution_event where
  "demo_registration = \<lparr>ev_realm_id = ''r'', ev_user_id = 1, ev_owner = OwnerRealmRegistration,
     ev_trigger = TriggerRegistration, ev_event_key = ''registration:1'', ev_source_id = ''registration:1'',
     ev_effective_from = secs 100, ev_effective_until = None\<rparr>"

lemma demo_dist_inv: "dist_inv demo_dist"
  by (simp add: dist_inv_def demo_dist_def demo_defs refs_def led_key_def ent_key_def)

lemma demo_registration_runs:
  obtains rs db' where "execute_distribution_event_atomic demo_ext demo_env demo_registration CurrentOwnerRules demo_dist = Some (Inr rs, db')"
proof -
  let ?work = "execute_event_first_run demo_ext demo_env demo_registration CurrentOwnerRules"
  have "(case event_attempt demo_env demo_registration ?work demo_dist of
      Inl _ \<Rightarrow> False | Inr (r, _) \<Rightarrow> \<not> isl r)" by code_simp
  then obtain r db' where "event_attempt demo_env demo_registration ?work demo_dist = Inr (r, db')" "\<not> isl r"
    by (simp split: sum.splits prod.splits)
  with that show ?thesis
    by (cases r) (simp_all add: execute_distribution_event_atomic_def event_loop_answer)
qed


theorem distribution_loops_return_witness:
  "\<exists>r db'. replace_distribution_source_atomic demo_ext demo_env ''4'' RevUpgrade ''Subscription upgrade'' demo_registration
     CurrentOwnerRules demo_dist = Some (r, db') \<and> dist_inv db'"
  using distribution_loops_return[OF demo_dist_inv, of demo_ext demo_env demo_registration CurrentOwnerRules "''4''" RevUpgrade
      "''Subscription upgrade''"] by blast

end
