(* ===== verification/DistributionSelection.thy ===== *)
theory DistributionSelection
  imports DistributionProps
begin

text \<open>
  Which rules a new event fires: exactly the owner's enabled rules that declare one of the event's
  triggers, each once, in the order of their display position and identifier.
\<close>

definition owned :: "string \<Rightarrow> distribution_rule_owner \<Rightarrow> distribution_rule_row \<Rightarrow> bool" where
  "owned realm owner r \<longleftrightarrow> drr_realm_id r = realm \<and> drr_owner_type r = owner_as_str owner \<and> drr_enabled r \<and>
     (owner_mapping_id owner = None \<or> drr_mapping_id r = owner_mapping_id owner)"

definition declares :: "distribution_trigger \<Rightarrow> distribution_rule_row \<Rightarrow> bool" where
  "declares t r \<longleftrightarrow> t \<in> set (parsed_triggers (drr_trigger_sources r))"

definition fires :: "distribution_event \<Rightarrow> distribution_rule_row \<Rightarrow> bool" where
  "fires event r \<longleftrightarrow> owned (ev_realm_id event) (ev_owner event) r \<and>
     (\<exists>t \<in> set (selection_triggers (ev_trigger event)). declares t r)"

section \<open>Loading\<close>

lemma hydrated_columns:
  assumes "rule_row_to_domain row = Inr r"
  shows "pdr_id r = drr_id row" "firing_order r = row_order row" "pdr_enabled r = drr_enabled row"
    "set (pdr_trigger_sources r) = set (parsed_triggers (drr_trigger_sources row))"
  using assms by (auto simp: rule_row_to_domain_def result_simps firing_order_def row_order_def)

lemma hydrated_list:
  assumes "list_all2 (\<lambda>row r. rule_row_to_domain row = Inr r) rows rs"
  shows "map pdr_id rs = map drr_id rows"
    "firing_order ` {r \<in> set rs. pdr_enabled r \<and> t \<in> set (pdr_trigger_sources r)} =
       row_order ` {row \<in> set rows. drr_enabled row \<and> declares t row}"
  using assms
proof (induction rows rs rule: list_all2_induct)
  case (Cons row rows r rs)
  note c = hydrated_columns[OF Cons.hyps(1)]
  case 1
  from c Cons.IH(1) show ?case by simp
  case 2
  have "{r' \<in> set (r # rs). pdr_enabled r' \<and> t \<in> set (pdr_trigger_sources r')} =
      (if drr_enabled row \<and> declares t row then {r} else {}) \<union> {r' \<in> set rs. pdr_enabled r' \<and> t \<in> set (pdr_trigger_sources r')}"
    using c by (auto simp: declares_def)
  moreover have "{r' \<in> set (row # rows). drr_enabled r' \<and> declares t r'} =
      (if drr_enabled row \<and> declares t row then {row} else {}) \<union> {r' \<in> set rows. drr_enabled r' \<and> declares t r'}"
    by auto
  ultimately show ?case using Cons.IH(2) c(2) by (simp add: image_Un)
qed simp_all

lemma load_rules_keys:
  assumes "load_current_owner_rules_in_tx db realm owner t = Inr rules" "distinct (map drr_id (gd_rules db))"
  shows "firing_order ` set rules = row_order ` {r \<in> set (gd_rules db). owned realm owner r \<and> declares t r}"
proof -
  let ?rows = "sort_key row_order (filter (owned realm owner) (gd_rules db))"
  from assms(1) obtain hs where hs: "collect_results rule_row_to_domain ?rows = Inr hs"
    and rules: "rules = select_and_sort_rules hs t"
    unfolding load_current_owner_rules_in_tx_def owned_def[abs_def] by (auto simp: result_simps)
  note h = hydrated_list[OF hs[unfolded collect_results_Inr_iff]]
  have "distinct (map drr_id ?rows)"
    using assms(2) by (simp add: distinct_map inj_on_def)
  then have d: "distinct (map pdr_id (filter (\<lambda>r. pdr_enabled r \<and> t \<in> set (pdr_trigger_sources r)) hs))"
    unfolding h(1)[symmetric] by (rule distinct_map_filter)
  have "set rules = set (filter (\<lambda>r. pdr_enabled r \<and> t \<in> set (pdr_trigger_sources r)) hs)"
  proof -
    have "distinct (map pdr_id (sort_key firing_order (filter (\<lambda>r. pdr_enabled r \<and> t \<in> set (pdr_trigger_sources r)) hs)))"
      using d by (simp add: distinct_map)
    then show ?thesis unfolding rules select_and_sort_rules_def by (subst dedup_by_distinct) simp_all
  qed
  then have "firing_order ` set rules = row_order ` {row \<in> set ?rows. drr_enabled row \<and> declares t row}"
    using h(2)[of t] by simp
  moreover have "{row \<in> set ?rows. drr_enabled row \<and> declares t row} =
      {r \<in> set (gd_rules db). owned realm owner r \<and> declares t r}"
    by (auto simp: owned_def)
  ultimately show ?thesis by simp
qed

section \<open>Resolving\<close>

abbreviation acc_keys :: "resolved_rule list \<Rightarrow> (int \<times> uuid) set" where
  "acc_keys acc \<equiv> firing_order ` fst ` set acc"

lemma accumulate_rules_keys:
  assumes "distinct (map (pdr_id \<circ> fst) acc)"
    and "\<And>k k'. k \<in> acc_keys acc \<union> firing_order ` set rules \<Longrightarrow>
      k' \<in> acc_keys acc \<union> firing_order ` set rules \<Longrightarrow> snd k = snd k' \<Longrightarrow> k = k'"
  shows "distinct (map (pdr_id \<circ> fst) (accumulate_rules t acc rules)) \<and>
    acc_keys (accumulate_rules t acc rules) = acc_keys acc \<union> firing_order ` set rules"
  using assms
proof (induction rules arbitrary: acc)
  case (Cons r rules)
  show ?case
  proof (cases "\<exists>y \<in> set acc. pdr_id (fst y) = pdr_id r")
    case True
    then obtain y where y: "y \<in> set acc" "pdr_id (fst y) = pdr_id r" by blast
    have "firing_order (fst y) = firing_order r"
      by (rule Cons.prems(2)) (use y in \<open>auto simp: firing_order_def\<close>)
    with y(1) have in_acc: "firing_order r \<in> acc_keys acc" by (metis imageI)
    have step: "accumulate_rules t acc (r # rules) = accumulate_rules t acc rules"
      using True by (simp add: accumulate_rules_def)
    have u: "acc_keys acc \<union> firing_order ` set (r # rules) = acc_keys acc \<union> firing_order ` set rules"
      using in_acc by (simp add: insert_absorb)
    have "distinct (map (pdr_id \<circ> fst) (accumulate_rules t acc rules)) \<and>
      acc_keys (accumulate_rules t acc rules) = acc_keys acc \<union> firing_order ` set rules"
    proof (rule Cons.IH[OF Cons.prems(1)])
      fix k k' assume "k \<in> acc_keys acc \<union> firing_order ` set rules" "k' \<in> acc_keys acc \<union> firing_order ` set rules"
        "snd k = snd k'"
      then show "k = k'" by (intro Cons.prems(2)) (elim UnE, simp_all)+
    qed
    then show ?thesis unfolding step u .
  next
    case False
    let ?acc = "acc @ [(r, pdr_bucket_id r, t)]"
    have step: "accumulate_rules t acc (r # rules) = accumulate_rules t ?acc rules"
      using False by (simp add: accumulate_rules_def)
    have keys: "acc_keys ?acc = acc_keys acc \<union> {firing_order r}" by auto
    have d: "distinct (map (pdr_id \<circ> fst) ?acc)"
      using Cons.prems(1) False by (auto simp: image_iff comp_def)
    have "distinct (map (pdr_id \<circ> fst) (accumulate_rules t ?acc rules)) \<and>
      acc_keys (accumulate_rules t ?acc rules) = acc_keys ?acc \<union> firing_order ` set rules"
    proof (rule Cons.IH[OF d])
      fix k k' assume "k \<in> acc_keys ?acc \<union> firing_order ` set rules" "k' \<in> acc_keys ?acc \<union> firing_order ` set rules"
        "snd k = snd k'"
      then show "k = k'" unfolding keys by (intro Cons.prems(2)) (elim UnE, simp_all)+
    qed
    moreover have "acc_keys acc \<union> firing_order ` set (r # rules) = acc_keys ?acc \<union> firing_order ` set rules"
      unfolding keys by simp
    ultimately show ?thesis unfolding step by (simp only:)
  qed
qed (simp add: accumulate_rules_def)

lemma resolve_loop_keys:
  assumes "try_fold (\<lambda>acc t. and_then (load_current_owner_rules_in_tx db realm owner t)
      (\<lambda>rules. Inr (accumulate_rules t acc rules))) acc ts = Inr resolved"
    and "distinct (map drr_id (gd_rules db))" "distinct (map (pdr_id \<circ> fst) acc)" "acc_keys acc \<subseteq> row_order ` set (gd_rules db)"
  shows "distinct (map (pdr_id \<circ> fst) resolved) \<and>
    acc_keys resolved = acc_keys acc \<union> row_order ` {r \<in> set (gd_rules db). owned realm owner r \<and> (\<exists>t \<in> set ts. declares t r)}"
  using assms(1,3,4)
proof (induction ts arbitrary: acc)
  case (Cons t ts)
  from Cons.prems(1) obtain rules where load: "load_current_owner_rules_in_tx db realm owner t = Inr rules"
    and rest: "try_fold (\<lambda>acc t. and_then (load_current_owner_rules_in_tx db realm owner t)
      (\<lambda>rules. Inr (accumulate_rules t acc rules))) (accumulate_rules t acc rules) ts = Inr resolved"
    by (auto simp: result_simps)
  note k = load_rules_keys[OF load assms(2)]
  then have sub: "acc_keys acc \<union> firing_order ` set rules \<subseteq> row_order ` set (gd_rules db)"
    using Cons.prems(3) by auto
  have a: "distinct (map (pdr_id \<circ> fst) (accumulate_rules t acc rules)) \<and>
    acc_keys (accumulate_rules t acc rules) = acc_keys acc \<union> firing_order ` set rules"
  proof (rule accumulate_rules_keys[OF Cons.prems(2)])
    fix k k' assume "k \<in> acc_keys acc \<union> firing_order ` set rules" "k' \<in> acc_keys acc \<union> firing_order ` set rules"
      and s: "snd k = snd k'"
    with sub obtain r r' where "r \<in> set (gd_rules db)" "k = row_order r" "r' \<in> set (gd_rules db)" "k' = row_order r'"
      by (meson imageE subsetD)
    moreover from this s have "drr_id r = drr_id r'" by (simp add: row_order_def)
    ultimately show "k = k'" using distinct_key_unique[OF assms(2)] by metis
  qed
  have IH: "distinct (map (pdr_id \<circ> fst) resolved) \<and>
    acc_keys resolved = acc_keys (accumulate_rules t acc rules) \<union>
      row_order ` {r \<in> set (gd_rules db). owned realm owner r \<and> (\<exists>t \<in> set ts. declares t r)}"
    using sub by (intro Cons.IH[OF rest conjunct1[OF a]]) (simp only: conjunct2[OF a])
  have "{r \<in> set (gd_rules db). owned realm owner r \<and> (\<exists>t' \<in> set (t # ts). declares t' r)} =
      {r \<in> set (gd_rules db). owned realm owner r \<and> declares t r} \<union>
      {r \<in> set (gd_rules db). owned realm owner r \<and> (\<exists>t \<in> set ts. declares t r)}" by auto
  then have "row_order ` {r \<in> set (gd_rules db). owned realm owner r \<and> (\<exists>t' \<in> set (t # ts). declares t' r)} =
      firing_order ` set rules \<union>
      row_order ` {r \<in> set (gd_rules db). owned realm owner r \<and> (\<exists>t \<in> set ts. declares t r)}"
    by (simp only: image_Un k)
  with IH a show ?case by (simp only: Un_assoc)
qed simp

lemma resolved_in_firing_order:
  assumes "resolve_rules x db event CurrentOwnerRules = Inr unsorted" "distinct (map drr_id (gd_rules db))"
  shows "map (pdr_id \<circ> fst) (sort_key (firing_order \<circ> fst) unsorted) =
    map drr_id (sort_key row_order (filter (fires event) (gd_rules db)))"
proof -
  let ?L = "sort_key (firing_order \<circ> fst) unsorted" and ?M = "sort_key row_order (filter (fires event) (gd_rules db))"
  from assms(1) have r: "distinct (map (pdr_id \<circ> fst) unsorted) \<and>
    acc_keys unsorted = row_order ` {r \<in> set (gd_rules db). fires event r}"
    using resolve_loop_keys[OF _ assms(2), of "ev_realm_id event" "ev_owner event" "[]" "selection_triggers (ev_trigger event)" unsorted]
    by (simp add: resolve_rules_def fires_def)
  have "map snd (map (firing_order \<circ> fst) unsorted) = map (pdr_id \<circ> fst) unsorted"
    by (simp add: firing_order_def)
  with r have dL: "distinct (map (firing_order \<circ> fst) unsorted)" by (metis distinct_map)
  have "map snd (map row_order (gd_rules db)) = map drr_id (gd_rules db)" by (simp add: row_order_def)
  with assms(2) have "distinct (map row_order (gd_rules db))" by (metis distinct_map)
  then have dM: "distinct (map row_order (filter (fires event) (gd_rules db)))" by (rule distinct_map_filter)
  have "map (firing_order \<circ> fst) ?L = map row_order ?M"
  proof (rule sorted_distinct_set_unique)
    show "sorted (map (firing_order \<circ> fst) ?L)" "sorted (map row_order ?M)" by simp_all
    show "distinct (map (firing_order \<circ> fst) ?L)" "distinct (map row_order ?M)"
      using dL dM by (simp_all add: distinct_map)
    show "set (map (firing_order \<circ> fst) ?L) = set (map row_order ?M)"
      using r by (simp add: image_comp)
  qed
  then have keys: "map snd (map (firing_order \<circ> fst) ?L) = map snd (map row_order ?M)" by simp
  have "snd \<circ> (firing_order \<circ> fst) = pdr_id \<circ> fst" "snd \<circ> row_order = drr_id"
    by (simp_all add: fun_eq_iff firing_order_def row_order_def)
  with keys[unfolded map_map] show ?thesis by metis
qed

text \<open>
  C33: the first execution of an event with the owner's current rules returns one result for every
  enabled rule of the owner that declares a trigger of the event (a registration also fires the
  free-periodic rules), no rule twice, in the order of display position and rule identifier.
\<close>

theorem event_fires_each_matching_rule_once:
  assumes "distinct (map drr_id (gd_rules db))" and "find (same_event event) (db_events (gd_points db)) = None"
    and "execute_distribution_event_atomic x env event CurrentOwnerRules db = Some (Inr rs, db')"
  shows "map result_rule rs = map drr_id (sort_key row_order (filter (fires event) (gd_rules db)))"
proof -
  from assms(2,3) obtain i db1 where
    ins: "on_points (insert_or_load_event_in_tx env event) db = Inr (InsertedProcessing i, db1)"
    and run: "execute_event_first_run x env event CurrentOwnerRules i db1 = Inr (rs, db')"
    unfolding execute_distribution_event_atomic_def
    by (subst (asm) event_loop.simps)
      (auto simp: event_attempt_def on_points_def insert_or_load_event_in_tx_def now_v7_def result_simps split: sum.splits if_splits)
  define db2 where "db2 = (if ev_trigger event \<in> {TriggerSubscriptionInitial, TriggerSubscriptionRenewal}
      then deactivate_free_periodic_results_in_tx env (ev_realm_id event) (ev_user_id event) (ev_effective_from event) db1
      else db1)"
  from ins have "gd_rules db1 = gd_rules db" by (auto simp: result_simps)
  then have rules: "gd_rules db2 = gd_rules db" by (simp add: db2_def deactivate_free_periodic_results_in_tx_def)
  from run have "execute_first_run_in_tx x env i event CurrentOwnerRules db2 = Inr (rs, db')"
    unfolding execute_event_first_run_def db2_def .
  then obtain unsorted db3 where u: "resolve_rules x db2 event CurrentOwnerRules = Inr unsorted"
    and "try_fold (execute_rule_step x env i event CurrentOwnerRules) ([], db2) (sort_key (firing_order \<circ> fst) unsorted) = Inr (rs, db3)"
    by (rule first_run_InrE)
  from execute_rules_grown[OF this(2)] have "map result_rule rs = map (pdr_id \<circ> fst) (sort_key (firing_order \<circ> fst) unsorted)"
    by simp
  also have "\<dots> = map drr_id (sort_key row_order (filter (fires event) (gd_rules db)))"
    using resolved_in_firing_order[OF u] assms(1) by (simp add: rules)
  finally show ?thesis .
qed

theorem event_fires_each_matching_rule_once_witness:
  "\<exists>rs db'. execute_distribution_event_atomic demo_ext demo_env demo_registration CurrentOwnerRules demo_dist = Some (Inr rs, db') \<and>
     map result_rule rs = [601, 602, 603]"
proof -
  obtain rs db' where run: "execute_distribution_event_atomic demo_ext demo_env demo_registration CurrentOwnerRules demo_dist = Some (Inr rs, db')"
    by (rule demo_registration_runs)
  have "distinct (map drr_id (gd_rules demo_dist))" by code_simp
  moreover have "find (same_event demo_registration) (db_events (gd_points demo_dist)) = None" by code_simp
  moreover have "map drr_id (sort_key row_order (filter (fires demo_registration) (gd_rules demo_dist))) = [601, 602, 603]" by code_simp
  ultimately show ?thesis using event_fires_each_matching_rule_once[OF _ _ run] run by metis
qed

end
