(* ===== verification/GrantScheduler.thy ===== *)
theory GrantScheduler
  imports DistributionExec
begin

text \<open>
  The services that run distribution events: the scheduler of the free periods and the sweep of
  ended quota entitlements (\<open>domain/src/points/services/grant_scheduler.rs\<close>), the realization of
  due periods on the read path (\<open>domain/src/points/service.rs\<close>), the registration grants
  (\<open>domain/src/points/services/registration_service.rs\<close>), and the quota entitlement writes of
  the repository they share.

  The services run one transaction per event: an error of one event leaves what the events before
  it have committed, so a service returns its result together with the database.
\<close>

section \<open>Due schedules\<close>

definition default_batch_size :: nat where
  "default_batch_size = 1000"

definition find_due_grant_schedules :: "instant \<Rightarrow> nat \<Rightarrow> grants_db \<Rightarrow> points_grant_schedule list" where
  "find_due_grant_schedules before limit db =
     take limit (sort_key sch_next_grant_time
       (filter (\<lambda>s. sch_next_grant_time s \<le> before \<and> sch_active s) (gd_schedules db)))"

definition find_due_free_grant_schedules_for_user ::
  "string \<Rightarrow> uuid \<Rightarrow> instant \<Rightarrow> nat \<Rightarrow> grants_db \<Rightarrow> points_grant_schedule list" where
  "find_due_free_grant_schedules_for_user realm_id user_id before limit db =
     take limit (sort_key sch_next_grant_time
       (filter (\<lambda>s. sch_realm_id s = realm_id \<and> sch_user_id s = user_id \<and> sch_active s \<and>
                    sch_subscription_id s = None \<and> sch_next_grant_time s \<le> before)
         (gd_schedules db)))"

text \<open>\<open>u32::try_from\<close> of a period number.\<close>

definition period_u32 :: "i64 \<Rightarrow> nat option" where
  "period_u32 n = (if 0 \<le> n \<and> n < 2 ^ 32 then Some (nat n) else None)"

definition period_event :: "env \<Rightarrow> points_grant_schedule \<Rightarrow> nat \<Rightarrow> distribution_event" where
  "period_event env s period_number =
     (let event_key = event_key_for_free_periodic env (sch_user_id s) (sch_distribution_rule_id s) period_number
      in \<lparr>ev_realm_id = sch_realm_id s, ev_user_id = sch_user_id s, ev_owner = OwnerRealmRegistration,
          ev_trigger = TriggerFreePeriodicGrant, ev_event_key = event_key, ev_source_id = event_key,
          ev_effective_from = sch_next_grant_time s, ev_effective_until = None\<rparr>)"

definition run_period ::
  "ext \<Rightarrow> env \<Rightarrow> points_grant_schedule \<Rightarrow> nat \<Rightarrow> grants_db
     \<Rightarrow> ((core_error, distribution_grant_result list) result \<times> grants_db) option" where
  "run_period x env s period_number db =
     execute_distribution_event_atomic x env (period_event env s period_number)
       (ScheduledRule (sch_distribution_rule_id s)) db"

section \<open>The scheduler\<close>

definition granted_in :: "distribution_grant_result list \<Rightarrow> i64" where
  "granted_in results = sum_list (map (\<lambda>r. case r of ResultFixed _ _ _ amount \<Rightarrow> amount | _ \<Rightarrow> 0) results)"

primrec process_schedules ::
  "ext \<Rightarrow> env \<Rightarrow> points_grant_schedule list \<Rightarrow> grant_summary \<Rightarrow> grants_db
     \<Rightarrow> ((core_error, grant_summary) result \<times> grants_db) option" where
  "process_schedules x env [] summary db = Some (Inr summary, db)"
| "process_schedules x env (s # due) summary db =
     (let period_number = sch_granted_periods s + 1 in
      case period_u32 period_number of
        None \<Rightarrow> Some (Inl (InternalServerError (''invalid free-periodic period number '' @ show_int period_number @
                  '' for schedule '' @ env_uuid_str env (sch_id s))), db)
      | Some event_period \<Rightarrow>
          (case run_period x env s event_period db of
             None \<Rightarrow> None
           | Some (Inr results, db') \<Rightarrow>
               process_schedules x env due
                 (summary\<lparr>gs_processed := gs_processed summary + 1,
                          gs_total_granted := gs_total_granted summary + granted_in results\<rparr>) db'
           | Some (Inl e, db') \<Rightarrow>
               process_schedules x env due (summary\<lparr>gs_failed := gs_failed summary + 1\<rparr>) db'))"

definition empty_summary :: grant_summary where
  "empty_summary = \<lparr>gs_processed = 0, gs_skipped = 0, gs_failed = 0, gs_total_granted = 0\<rparr>"

definition process_due_schedules ::
  "ext \<Rightarrow> env \<Rightarrow> grants_db \<Rightarrow> ((core_error, grant_summary) result \<times> grants_db) option" where
  "process_due_schedules x env db =
     process_schedules x env (find_due_grant_schedules (env_now env) default_batch_size db) empty_summary db"

section \<open>The read path\<close>

definition read_path_realization_limit :: nat where
  "read_path_realization_limit = 3"

primrec realize_schedules ::
  "ext \<Rightarrow> env \<Rightarrow> points_grant_schedule list \<Rightarrow> grants_db \<Rightarrow> ((core_error, unit) result \<times> grants_db) option" where
  "realize_schedules x env [] db = Some (Inr (), db)"
| "realize_schedules x env (s # schedules) db =
     (if schedule_should_stop s then realize_schedules x env schedules db
      else case period_u32 (sch_granted_periods s + 1) of
             None \<Rightarrow> Some (Inl (InternalServerError (''invalid grant period for schedule '' @ env_uuid_str env (sch_id s) @
                       '': '' @ show_int (sch_granted_periods s + 1))), db)
           | Some period_number \<Rightarrow>
               (case run_period x env s period_number db of
                  None \<Rightarrow> None
                | Some (Inl e, db') \<Rightarrow> Some (Inl e, db')
                | Some (Inr _, db') \<Rightarrow> realize_schedules x env schedules db'))"

definition reconcile_due_for_user ::
  "ext \<Rightarrow> env \<Rightarrow> string \<Rightarrow> uuid \<Rightarrow> instant \<Rightarrow> grants_db \<Rightarrow> ((core_error, unit) result \<times> grants_db) option" where
  "reconcile_due_for_user x env realm_id user_id now db =
     realize_schedules x env
       (find_due_free_grant_schedules_for_user realm_id user_id now read_path_realization_limit db) db"

section \<open>Registration\<close>

definition registration_execution :: "env \<Rightarrow> uuid \<Rightarrow> string \<Rightarrow> instant \<Rightarrow> distribution_event \<times> distribution_rule_selection" where
  "registration_execution env user_id realm_id registered_at =
     (let source_id = event_key_for_registration env user_id
      in (\<lparr>ev_realm_id = realm_id, ev_user_id = user_id, ev_owner = OwnerRealmRegistration,
           ev_trigger = TriggerRegistration, ev_event_key = source_id, ev_source_id = source_id,
           ev_effective_from = registered_at, ev_effective_until = None\<rparr>, CurrentOwnerRules))"

definition handle_user_registration ::
  "ext \<Rightarrow> env \<Rightarrow> uuid \<Rightarrow> string \<Rightarrow> grants_db \<Rightarrow> ((core_error, unit) result \<times> grants_db) option" where
  "handle_user_registration x env user_id realm_id db =
     (let (event, selection) = registration_execution env user_id realm_id (env_now env)
      in map_option (\<lambda>(r, db'). (map_sum id (\<lambda>_. ()) r, db')) (execute_distribution_event_atomic x env event selection db))"

section \<open>Quota entitlements\<close>

text \<open>The columns of the unique index over entitlements that no rule granted.\<close>

definition same_quota_key :: "points_quota_entitlement \<Rightarrow> points_quota_entitlement \<Rightarrow> bool" where
  "same_quota_key q e \<longleftrightarrow> ent_realm_id e = ent_realm_id q \<and> ent_user_id e = ent_user_id q \<and>
     ent_bucket_id e = ent_bucket_id q \<and> ent_credit_type e = ent_credit_type q \<and>
     ent_idempotency_key e = ent_idempotency_key q"

definition grant_quota_entitlement_atomic ::
  "points_quota_entitlement \<Rightarrow> points_db \<Rightarrow> points_quota_entitlement tx" where
  "grant_quota_entitlement_atomic q db =
     and_then (ensure (ent_credit_type q \<in> {SubscriptionCredit, FreePeriodicCredit} \<and>
                 (ent_distribution_event_id q = None) = (ent_distribution_rule_id q = None))
                (DatabaseError ''points_quota_entitlements_check'')) (\<lambda>_.
     if ent_distribution_rule_id q = None \<and>
        (\<exists>e \<in> set (db_entitlements db). ent_distribution_rule_id e = None \<and> same_quota_key q e)
     then and_then (ok_or (find (same_quota_key q) (db_entitlements db))
                     (DatabaseError ''quota entitlement upsert returned no row'')) (\<lambda>row. Inr (row, db))
     else and_then (ensure (\<forall>e \<in> set (db_entitlements db). ent_id e \<noteq> ent_id q)
                     (DatabaseError ''points_quota_entitlements_pkey'')) (\<lambda>_.
       (let row = q\<lparr>ent_updated_at := ent_created_at q\<rparr>
        in Inr (row, db\<lparr>db_entitlements := db_entitlements db @ [row]\<rparr>))))"

definition revoke_quota_entitlement_atomic ::
  "env \<Rightarrow> string \<Rightarrow> uuid \<Rightarrow> uuid \<Rightarrow> credit_type \<Rightarrow> string \<Rightarrow> instant \<Rightarrow> points_db \<Rightarrow> points_db" where
  "revoke_quota_entitlement_atomic env realm_id user_id bucket_id credit_type source_id revoke_at db =
     db\<lparr>db_entitlements :=
          update_where (\<lambda>q. ent_realm_id q = realm_id \<and> ent_user_id q = user_id \<and> ent_bucket_id q = bucket_id \<and>
                            ent_credit_type q = credit_type \<and> ent_source_id q = source_id \<and> ent_status q = QuotaActive)
            (\<lambda>q. q\<lparr>ent_status := QuotaRevoked, ent_effective_until := Some revoke_at, ent_updated_at := env_sql_now env\<rparr>)
            (db_entitlements db)\<rparr>"

definition quota_ended :: "instant \<Rightarrow> points_quota_entitlement \<Rightarrow> bool" where
  "quota_ended now q \<longleftrightarrow> ent_status q = QuotaActive \<and>
     (case ent_effective_until q of None \<Rightarrow> False | Some t \<Rightarrow> t \<le> now)"

text \<open>The first \<open>n\<close> ended rows, in table order; which rows a \<open>LIMIT\<close> without an order picks is
  the database's choice.\<close>

fun expire_first :: "instant \<Rightarrow> instant \<Rightarrow> nat \<Rightarrow> points_quota_entitlement list \<Rightarrow> points_quota_entitlement list" where
  "expire_first sql_now now n [] = []"
| "expire_first sql_now now n (q # qs) =
     (if quota_ended now q \<and> 0 < n
      then q\<lparr>ent_status := QuotaExpired, ent_updated_at := sql_now\<rparr> # expire_first sql_now now (n - 1) qs
      else q # expire_first sql_now now n qs)"

definition expire_quota_entitlements_batch :: "env \<Rightarrow> instant \<Rightarrow> nat \<Rightarrow> points_db \<Rightarrow> nat \<times> points_db" where
  "expire_quota_entitlements_batch env now batch_size db =
     (min batch_size (length (filter (quota_ended now) (db_entitlements db))),
      db\<lparr>db_entitlements := expire_first (env_sql_now env) now batch_size (db_entitlements db)\<rparr>)"

partial_function (option) expire_quota_loop ::
  "env \<Rightarrow> instant \<Rightarrow> nat \<Rightarrow> grant_summary \<Rightarrow> points_db \<Rightarrow> (grant_summary \<times> points_db) option" where
  "expire_quota_loop env now batch_size summary db =
     (let (expired, db') = expire_quota_entitlements_batch env now batch_size db;
          summary' = summary\<lparr>gs_processed := gs_processed summary + expired\<rparr>
      in if expired < batch_size then Some (summary', db') else expire_quota_loop env now batch_size summary' db')"

definition expire_quota_entitlements :: "env \<Rightarrow> nat \<Rightarrow> points_db \<Rightarrow> (grant_summary \<times> points_db) option" where
  "expire_quota_entitlements env batch_size db = expire_quota_loop env (env_now env) batch_size empty_summary db"

end
