(* ===== verification/SchedulePeriods.thy ===== *)
theory SchedulePeriods
  imports DistributionSelection GrantScheduler
begin

text \<open>
  The timetable of free periods.  The invariant says that the records of a schedule are exactly its
  periods from the first to the last one granted, that its next grant time is the one the period
  type computes from them, and that a schedule with nothing left to grant is inactive.  Every
  distribution operation keeps it, and a run of the scheduler moves each due schedule by at most
  one period.
\<close>

section \<open>The invariant\<close>

definition slot :: "points_grant_schedule \<Rightarrow> string \<times> uuid \<times> uuid" where
  "slot s = (sch_realm_id s, sch_user_id s, sch_distribution_rule_id s)"

definition periods_of :: "points_grant_record list \<Rightarrow> uuid \<Rightarrow> i64 list" where
  "periods_of gs i = map grec_period_number (filter (\<lambda>g. grec_schedule_id g = i) gs)"

definition schedule_ok :: "ext \<Rightarrow> points_grant_record list \<Rightarrow> points_grant_schedule \<Rightarrow> bool" where
  "schedule_ok x gs s \<longleftrightarrow> 1 \<le> sch_granted_periods s \<and>
     periods_of gs (sch_id s) = [1..sch_granted_periods s] \<and>
     sch_next_grant_time s =
       next_grant_time (ext_add_months x) (sch_grant_period_type s) (sch_base_time s) (sch_granted_periods s) \<and>
     (schedule_should_stop s \<longrightarrow> \<not> sch_active s)"

definition sched_inv :: "ext \<Rightarrow> points_grant_schedule list \<Rightarrow> points_grant_record list \<Rightarrow> bool" where
  "sched_inv x ss gs \<longleftrightarrow> distinct (map sch_id ss) \<and> distinct (map slot ss) \<and>
     (\<forall>s \<in> set ss. schedule_ok x gs s) \<and> grec_schedule_id ` set gs \<subseteq> sch_id ` set ss"

text \<open>Schedules stay, and only those in \<open>K\<close> move, by one period.\<close>

definition moved :: "(string \<times> uuid \<times> uuid) set \<Rightarrow> points_grant_schedule list \<Rightarrow> points_grant_schedule list \<Rightarrow> bool" where
  "moved K ss ss' \<longleftrightarrow> (\<forall>s \<in> set ss. \<exists>s' \<in> set ss'. sch_id s' = sch_id s \<and> slot s' = slot s \<and>
     (sch_granted_periods s' = sch_granted_periods s \<or>
      slot s \<in> K \<and> sch_granted_periods s' = sch_granted_periods s + 1))"

lemma moved_refl [simp]: "moved K ss ss"
  by (auto simp: moved_def)

lemma moved_mono: "moved K ss ss' \<Longrightarrow> K \<subseteq> K' \<Longrightarrow> moved K' ss ss'"
  unfolding moved_def by blast

lemma moved_trans:
  assumes "moved K ss ss1" "moved L ss1 ss2" "K \<inter> L = {}"
  shows "moved (K \<union> L) ss ss2"
  unfolding moved_def
proof
  fix s assume "s \<in> set ss"
  with assms(1) obtain s1 where 1: "s1 \<in> set ss1" "sch_id s1 = sch_id s" "slot s1 = slot s"
    "sch_granted_periods s1 = sch_granted_periods s \<or> slot s \<in> K \<and> sch_granted_periods s1 = sch_granted_periods s + 1"
    unfolding moved_def by blast
  with assms(2) obtain s2 where 2: "s2 \<in> set ss2" "sch_id s2 = sch_id s1" "slot s2 = slot s1"
    "sch_granted_periods s2 = sch_granted_periods s1 \<or> slot s1 \<in> L \<and> sch_granted_periods s2 = sch_granted_periods s1 + 1"
    unfolding moved_def by blast
  have "sch_granted_periods s2 = sch_granted_periods s \<or>
      slot s \<in> K \<union> L \<and> sch_granted_periods s2 = sch_granted_periods s + 1"
    using 1(3,4) 2(4) assms(3) by (elim disjE conjE) (simp_all, blast)
  with 1 2 show "\<exists>s'\<in>set ss2. sch_id s' = sch_id s \<and> slot s' = slot s \<and>
      (sch_granted_periods s' = sch_granted_periods s \<or>
       slot s \<in> K \<union> L \<and> sch_granted_periods s' = sch_granted_periods s + 1)"
    by (intro bexI[of _ s2]) simp_all
qed

section \<open>The three changes of the timetable\<close>

lemma periods_of_append: "periods_of (gs @ [g]) i = periods_of gs i @ (if grec_schedule_id g = i then [grec_period_number g] else [])"
  by (simp add: periods_of_def)

lemma timetable_map:
  assumes inv: "sched_inv x ss gs" and keys: "\<And>y. sch_id (f y) = sch_id y" "\<And>y. slot (f y) = slot y"
    and ok: "\<And>y. y \<in> set ss \<Longrightarrow> schedule_ok x gs' (f y)" and gs: "grec_schedule_id ` set gs' \<subseteq> sch_id ` set ss"
  shows "sched_inv x (map f ss) gs'"
proof -
  have m: "map sch_id (map f ss) = map sch_id ss" "map slot (map f ss) = map slot ss" by (simp_all add: keys)
  then have "sch_id ` set (map f ss) = sch_id ` set ss" by (metis list.set_map)
  moreover have "\<forall>y \<in> set (map f ss). schedule_ok x gs' y" using ok by simp
  ultimately show ?thesis using inv gs unfolding sched_inv_def m by (simp only:)
qed

lemma moved_map:
  assumes keys: "\<And>y. sch_id (f y) = sch_id y" "\<And>y. slot (f y) = slot y"
    and step: "\<And>y. y \<in> set ss \<Longrightarrow> sch_granted_periods (f y) = sch_granted_periods y \<or>
      slot y \<in> K \<and> sch_granted_periods (f y) = sch_granted_periods y + 1"
  shows "moved K ss (map f ss)"
  unfolding moved_def
proof
  fix y assume "y \<in> set ss"
  with step keys show "\<exists>s'\<in>set (map f ss). sch_id s' = sch_id y \<and> slot s' = slot y \<and>
      (sch_granted_periods s' = sch_granted_periods y \<or> slot y \<in> K \<and> sch_granted_periods s' = sch_granted_periods y + 1)"
    by (intro bexI[of _ "f y"]) simp_all
qed

lemma timetable_deactivate:
  fixes P :: "points_grant_schedule \<Rightarrow> bool" and t :: instant
  assumes "sched_inv x ss gs"
  defines "ss' \<equiv> update_where P (\<lambda>s. s\<lparr>sch_active := False, sch_updated_at := t\<rparr>) ss"
  shows "sched_inv x ss' gs" "moved {} ss ss'"
proof -
  let ?f = "\<lambda>s. if P s then s\<lparr>sch_active := False, sch_updated_at := t\<rparr> else s"
  have ss': "ss' = map ?f ss" by (simp add: ss'_def update_where_def)
  have keys: "sch_id (?f s) = sch_id s" "slot (?f s) = slot s"
    "sch_granted_periods (?f s) = sch_granted_periods s" for s by (simp_all add: slot_def)
  have ok: "schedule_ok x gs (?f s)" if "s \<in> set ss" for s
    using assms(1) that by (simp add: sched_inv_def schedule_ok_def schedule_should_stop_def)
  show "sched_inv x ss' gs"
    unfolding ss' by (rule timetable_map[OF assms(1) keys(1,2) ok]) (use assms(1) in \<open>simp_all add: sched_inv_def\<close>)
  show "moved {} ss ss'"
    unfolding ss' by (rule moved_map[OF keys(1,2)]) (simp add: keys)
qed

lemma timetable_append:
  assumes inv: "sched_inv x ss gs" and s: "sch_id s \<notin> sch_id ` set ss" "slot s \<notin> slot ` set ss"
    and g: "grec_schedule_id g = sch_id s" "grec_period_number g = 1"
    and new: "sch_granted_periods s = 1" "schedule_should_stop s \<longrightarrow> \<not> sch_active s"
      "sch_next_grant_time s = next_grant_time (ext_add_months x) (sch_grant_period_type s) (sch_base_time s) 1"
  shows "sched_inv x (ss @ [s]) (gs @ [g])" "moved {} ss (ss @ [s])"
proof -
  have "periods_of gs (sch_id s) = []"
    using inv s(1) by (metis (mono_tags, lifting) sched_inv_def filter_empty_conv image_subset_iff list.simps(8) periods_of_def)
  then have "schedule_ok x (gs @ [g]) s" using new g by (simp add: schedule_ok_def periods_of_append)
  moreover have "schedule_ok x (gs @ [g]) y" if "y \<in> set ss" for y
  proof -
    have "sch_id y \<noteq> sch_id s" using that s(1) by (metis imageI)
    with that inv g(1) show ?thesis by (simp add: sched_inv_def schedule_ok_def periods_of_append)
  qed
  ultimately have "\<forall>y \<in> set (ss @ [s]). schedule_ok x (gs @ [g]) y" by simp
  moreover have "distinct (map sch_id (ss @ [s]))" "distinct (map slot (ss @ [s]))"
    using inv s by (simp_all add: sched_inv_def)
  moreover have "grec_schedule_id ` set (gs @ [g]) \<subseteq> sch_id ` set (ss @ [s])"
    using inv g(1) by (auto simp: sched_inv_def)
  ultimately show "sched_inv x (ss @ [s]) (gs @ [g])" by (simp only: sched_inv_def)
  show "moved {} ss (ss @ [s])" by (auto simp: moved_def)
qed

lemma timetable_advance:
  fixes env :: env
  assumes inv: "sched_inv x ss gs" and s: "s \<in> set ss"
    and g: "grec_schedule_id g = sch_id s" "grec_period_number g = sch_granted_periods s + 1"
  defines "ss' \<equiv> update_where (\<lambda>y. sch_id y = sch_id s) (advance_schedule x env s) ss"
  shows "sched_inv x ss' (gs @ [g])" "moved {slot s} ss ss'"
proof -
  let ?f = "\<lambda>y. if sch_id y = sch_id s then advance_schedule x env s y else y"
  have ss': "ss' = map ?f ss" by (simp add: ss'_def update_where_def)
  have keys: "sch_id (?f y) = sch_id y" "slot (?f y) = slot y" for y
    by (simp_all add: advance_schedule_def Let_def slot_def)
  have one: "y = s" if "y \<in> set ss" "sch_id y = sch_id s" for y
    using inv s that distinct_key_unique[of sch_id ss] by (simp add: sched_inv_def)
  have ok: "schedule_ok x gs y" if "y \<in> set ss" for y using inv that by (simp add: sched_inv_def)
  have ok': "schedule_ok x (gs @ [g]) (?f y)" if "y \<in> set ss" for y
  proof (cases "sch_id y = sch_id s")
    case True
    with one that have y: "y = s" by simp
    show ?thesis
      using ok[OF s] g unfolding y
      by (simp add: schedule_ok_def periods_of_append advance_schedule_def Let_def schedule_should_stop_def
          upto_rec2[of 1 "sch_granted_periods s + 1"])
  next
    case False
    with ok[OF that] g(1) show ?thesis by (simp add: schedule_ok_def periods_of_append)
  qed
  have ids: "grec_schedule_id ` set (gs @ [g]) \<subseteq> sch_id ` set ss" using inv s g(1) by (simp add: sched_inv_def)
  show "sched_inv x ss' (gs @ [g])" unfolding ss' by (rule timetable_map[OF inv keys ok' ids])
  show "moved {slot s} ss ss'"
    unfolding ss'
  proof (rule moved_map[OF keys])
    fix y assume "y \<in> set ss"
    from one[OF this] show "sch_granted_periods (?f y) = sch_granted_periods y \<or>
        slot y \<in> {slot s} \<and> sch_granted_periods (?f y) = sch_granted_periods y + 1"
      by (cases "sch_id y = sch_id s") (simp_all add: advance_schedule_def Let_def)
  qed
qed

section \<open>The executor\<close>

definition timetable :: "grants_db \<Rightarrow> points_grant_schedule list \<times> points_grant_record list" where
  "timetable db = (gd_schedules db, gd_records db)"

text \<open>The invariant is kept and only the schedules in \<open>K\<close> move.\<close>

definition keeps_timetable :: "ext \<Rightarrow> (string \<times> uuid \<times> uuid) set \<Rightarrow> grants_db \<Rightarrow> grants_db \<Rightarrow> bool" where
  "keeps_timetable x K db db' \<longleftrightarrow> (sched_inv x (gd_schedules db) (gd_records db) \<longrightarrow>
     sched_inv x (gd_schedules db') (gd_records db') \<and> moved K (gd_schedules db) (gd_schedules db'))"

lemma keeps_timetable_same: "timetable db' = timetable db \<Longrightarrow> keeps_timetable x K db db'"
  by (simp add: keeps_timetable_def timetable_def)

lemma keeps_timetable_trans:
  "keeps_timetable x K db db1 \<Longrightarrow> keeps_timetable x L db1 db2 \<Longrightarrow> K \<inter> L = {} \<Longrightarrow> keeps_timetable x (K \<union> L) db db2"
  unfolding keeps_timetable_def using moved_trans by blast

lemma keeps_timetable_mono: "keeps_timetable x K db db' \<Longrightarrow> K \<subseteq> L \<Longrightarrow> keeps_timetable x L db db'"
  unfolding keeps_timetable_def using moved_mono by blast

lemma timetable_points [simp]: "timetable (db\<lparr>gd_points := p\<rparr>) = timetable db"
  by (simp add: timetable_def)

lemma timetable_draw [simp]: "timetable (snd (draw_uuid env db)) = timetable db"
  by (simp add: draw_uuid_def split_beta)

lemma execute_plain_fixed_timetable:
  "execute_plain_fixed env at ct st a v db = Inr (result, db') \<Longrightarrow> timetable db' = timetable db"
  by (auto simp: execute_plain_fixed_def result_simps)

lemma execute_scheduled_fixed_timetable:
  assumes "execute_scheduled_fixed_in_tx x env event at st db = Inr (l, db')"
  shows "keeps_timetable x {(ev_realm_id event, ev_user_id event, at_rule_id at)} db db'"
proof -
  from assms obtain s p2 db3 where
    find: "schedule_of db (ev_realm_id event) (ev_user_id event) (at_rule_id at) = Some s"
    and rec: "write_grant_record_in_tx env at (sch_id s) (led_id l) (sch_granted_periods s + 1) (sch_points_per_period s)
        (ev_effective_from event) (db\<lparr>gd_points := p2\<rparr>) = Inr db3"
    and db': "db' = db3\<lparr>gd_schedules := update_where (\<lambda>y. sch_id y = sch_id s) (advance_schedule x env s) (gd_schedules db3)\<rparr>"
    by (auto simp: execute_scheduled_fixed_in_tx_def result_simps Let_def)
  from find_SomeD[OF find[unfolded schedule_of_def]] have s: "s \<in> set (gd_schedules db)"
    "slot s = (ev_realm_id event, ev_user_id event, at_rule_id at)" by (simp_all add: slot_def)
  from write_grant_record_effect[OF rec] obtain g m where
    db3: "gd_schedules db3 = gd_schedules db" "gd_records db3 = gd_records db @ [g]"
    and g: "grec_schedule_id g = sch_id s" "grec_period_number g = sch_granted_periods s + 1" by auto
  show ?thesis
    unfolding keeps_timetable_def db' using timetable_advance[OF _ s(1) g, of x _ env] s(2)
    by (simp add: db3)
qed

lemma execute_periodic_fixed_timetable:
  assumes "execute_periodic_fixed x env at ct st a v pt db = Inr (result, db')"
  shows "keeps_timetable x {} db db'"
proof -
  obtain i db0 where d0: "draw_uuid env db = (i, db0)" by (cases "draw_uuid env db")
  then have "timetable db0 = timetable db" using timetable_draw[of env db] by simp
  moreover from assms obtain l :: points_credit_ledger and p2 db3 where
    rec: "write_grant_record_in_tx env at i (led_id l) 1 a (env_now env) (db0\<lparr>gd_points := p2\<rparr>) = Inr db3"
    and sch: "write_schedule_in_tx x env at i pt (env_now env) a v db3 = Inr db'"
    by (auto simp: execute_periodic_fixed_def result_simps d0)
  moreover from write_grant_record_effect[OF rec] obtain g where
    "gd_schedules db3 = gd_schedules db0" "gd_records db3 = gd_records db0 @ [g]"
    and g: "grec_schedule_id g = i" "grec_period_number g = 1" by auto
  ultimately have db3: "gd_schedules db3 = gd_schedules db" "gd_records db3 = gd_records db @ [g]"
    by (simp_all add: timetable_def)
  let ?s = "new_schedule x env at i pt (env_now env) a v"
  from sch have db': "db' = db3\<lparr>gd_schedules := gd_schedules db @ [?s]\<rparr>"
    and fresh: "\<forall>s \<in> set (gd_schedules db). sch_id s \<noteq> i"
      "\<forall>s \<in> set (gd_schedules db). \<not> (sch_realm_id s = at_realm_id at \<and> sch_user_id s = at_user_id at \<and>
         sch_distribution_rule_id s = at_rule_id at)"
    by (simp_all add: write_schedule_in_tx_def result_simps db3)
  have s: "sch_id ?s = i" "slot ?s = (at_realm_id at, at_user_id at, at_rule_id at)" "sch_granted_periods ?s = 1"
    "schedule_should_stop ?s \<longrightarrow> \<not> sch_active ?s"
    "sch_next_grant_time ?s = next_grant_time (ext_add_months x) (sch_grant_period_type ?s) (sch_base_time ?s) 1"
    by (simp_all add: new_schedule_def slot_def schedule_should_stop_def)
  have "sch_id ?s \<notin> sch_id ` set (gd_schedules db)" "slot ?s \<notin> slot ` set (gd_schedules db)"
    using fresh unfolding s(1,2) by (auto simp: slot_def)
  from timetable_append[OF _ this _ g(2) s(3,4,5)] show ?thesis
    unfolding keeps_timetable_def db' by (simp add: db3 g(1) s(1))
qed

definition scheduled_slots :: "distribution_event \<Rightarrow> distribution_rule_selection \<Rightarrow> (string \<times> uuid \<times> uuid) set" where
  "scheduled_slots event selection =
     (case selection of ScheduledRule rid \<Rightarrow> {(ev_realm_id event, ev_user_id event, rid)} | _ \<Rightarrow> {})"

lemma execute_rule_timetable:
  assumes "execute_rule x env e event selection rr db = Inr (result, db')"
    and "\<And>rid. selection = ScheduledRule rid \<Longrightarrow> pdr_id (fst rr) = rid"
  shows "keeps_timetable x (scheduled_slots event selection) db db'"
proof -
  obtain rule bucket t where rr: "rr = (rule, bucket, t)" by (metis prod_cases3)
  obtain ct st where ct: "credit_pair_for_trigger t = (ct, st)" by fastforce
  let ?at = "rule_attribution e event rule bucket"
  have at: "at_rule_id ?at = pdr_id rule" by (simp add: rule_attribution_def)
  show ?thesis
  proof (cases "pdr_policy rule")
    case (PolicyFixed amount v p)
    show ?thesis
    proof (cases selection)
      case (ScheduledRule rid)
      with assms PolicyFixed show ?thesis
        using execute_scheduled_fixed_timetable[of x env event ?at st db]
        by (auto simp: execute_rule_def rr ct result_simps at scheduled_slots_def)
    qed (use assms(1) PolicyFixed execute_plain_fixed_timetable[of env ?at ct st amount v db result db']
          execute_periodic_fixed_timetable[of x env ?at ct st amount v _ db result db']
        in \<open>cases p; simp add: execute_rule_def rr ct Let_def keeps_timetable_same scheduled_slots_def\<close>)+
  next
    case (PolicyQuota ws)
    with assms(1) show ?thesis
      by (auto simp: execute_rule_def rr ct result_simps intro!: keeps_timetable_same)
  qed
qed

lemma execute_rules_timetable:
  assumes "try_fold (execute_rule_step x env e event selection) (rs, db) resolved = Inr (rs', db')"
    and "\<And>rid. selection \<noteq> ScheduledRule rid"
  shows "keeps_timetable x {} db db'"
  using assms(1)
proof (induction resolved arbitrary: rs db)
  case Nil
  then show ?case by (simp add: keeps_timetable_same)
next
  case (Cons rr resolved)
  from Cons.prems obtain result db1 where one: "execute_rule x env e event selection rr db = Inr (result, db1)"
    and rest: "try_fold (execute_rule_step x env e event selection) (rs @ [result], db1) resolved = Inr (rs', db')"
    unfolding try_fold.simps execute_rule_step_def[of _ _ _ _ _ "(rs, db)"] by (auto simp: result_simps)
  have "scheduled_slots event selection = {}" using assms(2) by (simp add: scheduled_slots_def split: distribution_rule_selection.split)
  with execute_rule_timetable[OF one] assms(2) have "keeps_timetable x {} db db1" by simp
  from keeps_timetable_trans[OF this Cons.IH[OF rest]] show ?case by simp
qed

lemma load_single_rule_id: "load_single_rule_in_tx db realm rid = Inr r \<Longrightarrow> pdr_id r = rid"
  by (auto simp: load_single_rule_in_tx_def result_simps dest!: find_SomeD hydrated_columns(1))

lemma first_run_timetable:
  assumes "execute_first_run_in_tx x env i event selection db = Inr (rs, db')"
  shows "keeps_timetable x (scheduled_slots event selection) db db'"
proof -
  from assms obtain unsorted db1 where u: "resolve_rules x db event selection = Inr unsorted"
    and loop: "try_fold (execute_rule_step x env i event selection) ([], db) (sort_key (firing_order \<circ> fst) unsorted) = Inr (rs, db1)"
    and db': "db' = db1\<lparr>gd_points := complete_event_in_tx env (gd_points db1) i (int (length rs))\<rparr>"
    by (rule first_run_InrE)
  have "keeps_timetable x (scheduled_slots event selection) db db1"
  proof (cases "\<exists>rid. selection = ScheduledRule rid")
    case True
    then obtain rid where sel: "selection = ScheduledRule rid" by blast
    with u obtain rule bucket where unsorted: "unsorted = [(rule, bucket, TriggerFreePeriodicGrant)]" and "pdr_id rule = rid"
      by (auto simp: resolve_rules_def result_simps dest: load_single_rule_id)
    from loop obtain result where "execute_rule x env i event selection (rule, bucket, TriggerFreePeriodicGrant) db = Inr (result, db1)"
      by (auto simp: unsorted execute_rule_step_def result_simps)
    from execute_rule_timetable[OF this] show ?thesis using sel \<open>pdr_id rule = rid\<close> by simp
  next
    case False
    with execute_rules_timetable[OF loop] have "keeps_timetable x {} db db1" by blast
    then show ?thesis by (rule keeps_timetable_mono) simp
  qed
  moreover have "timetable db' = timetable db1" by (simp add: db')
  ultimately show ?thesis by (simp add: keeps_timetable_def timetable_def)
qed

section \<open>The operations\<close>

lemma insert_event_timetable:
  "on_points (insert_or_load_event_in_tx env event) db = Inr (y, db1) \<Longrightarrow> timetable db1 = timetable db"
  by (auto simp: result_simps)

lemma event_attempt_timetable:
  assumes work: "\<And>i d rs d'. work i d = Inr (rs, d') \<Longrightarrow> keeps_timetable x K d d'"
  shows "event_attempt env event work db = Inl db1 \<Longrightarrow> timetable db1 = timetable db"
    and "event_attempt env event work db = Inr (r, db') \<Longrightarrow> keeps_timetable x K db db'"
proof -
  have load: "timetable d = timetable db" if "on_points (insert_or_load_event_in_tx env event) db = Inr (y, d)" for y d
    using that by (rule insert_event_timetable)
  show "timetable db1 = timetable db" if "event_attempt env event work db = Inl db1"
    using that load by (auto simp: event_attempt_def split: sum.splits event_insert_outcome.splits option.splits if_splits)
  show "keeps_timetable x K db db'" if run: "event_attempt env event work db = Inr (r, db')"
  proof -
    have "timetable db' = timetable db \<or>
        (\<exists>i d rs. on_points (insert_or_load_event_in_tx env event) db = Inr (InsertedProcessing i, d) \<and> work i d = Inr (rs, db'))"
      using run load by (auto simp: event_attempt_def split: sum.splits event_insert_outcome.splits option.splits if_splits)
    then show ?thesis
    proof (elim disjE exE conjE)
      fix i d rs assume "on_points (insert_or_load_event_in_tx env event) db = Inr (InsertedProcessing i, d)" and w: "work i d = Inr (rs, db')"
      then have "timetable d = timetable db" using load by blast
      with work[OF w] show ?thesis by (simp add: keeps_timetable_def timetable_def)
    qed (rule keeps_timetable_same)
  qed
qed

lemma event_loop_timetable:
  assumes work: "\<And>i d rs d'. work i d = Inr (rs, d') \<Longrightarrow> keeps_timetable x K d d'"
    and run: "event_loop env event work db = Some (r, db')"
  shows "keeps_timetable x K db db'"
proof -
  have "(\<forall>i d rs d'. work i d = Inr (rs, d') \<longrightarrow> keeps_timetable x K d d') \<longrightarrow> keeps_timetable x K db (snd (r, db'))"
  proof (rule event_loop.raw_induct[where P = "\<lambda>_ _ work db answer.
      (\<forall>i d rs d'. work i d = Inr (rs, d') \<longrightarrow> keeps_timetable x K d d') \<longrightarrow> keeps_timetable x K db (snd answer)", OF _ run])
    fix loop :: "env \<Rightarrow> distribution_event \<Rightarrow> (uuid \<Rightarrow> grants_db \<Rightarrow> distribution_grant_result list gtx) \<Rightarrow> grants_db
        \<Rightarrow> ((core_error, distribution_grant_result list) result \<times> grants_db) option"
      and env event work db answer
    assume IH: "\<And>env event work db answer. loop env event work db = Some answer \<Longrightarrow>
        (\<forall>i d rs d'. work i d = Inr (rs, d') \<longrightarrow> keeps_timetable x K d d') \<longrightarrow> keeps_timetable x K db (snd answer)"
      and body: "(case event_attempt env event work db of Inl db1 \<Rightarrow> loop env event work db1 | Inr answer \<Rightarrow> Some answer) = Some answer"
    show "(\<forall>i d rs d'. work i d = Inr (rs, d') \<longrightarrow> keeps_timetable x K d d') \<longrightarrow> keeps_timetable x K db (snd answer)"
    proof
      assume work: "\<forall>i d rs d'. work i d = Inr (rs, d') \<longrightarrow> keeps_timetable x K d d'"
      then have w: "\<And>i d rs d'. work i d = Inr (rs, d') \<Longrightarrow> keeps_timetable x K d d'" by blast
      show "keeps_timetable x K db (snd answer)"
      proof (cases "event_attempt env event work db")
        case (Inl db1)
        with body have "loop env event work db1 = Some answer" by simp
        with IH work have "keeps_timetable x K db1 (snd answer)" by blast
        with event_attempt_timetable(1)[OF w Inl] show ?thesis by (simp add: keeps_timetable_def timetable_def)
      next
        case (Inr y)
        with body have "y = answer" by simp
        with Inr have "event_attempt env event work db = Inr (fst answer, snd answer)" by simp
        from event_attempt_timetable(2)[OF w this] show ?thesis .
      qed
    qed
  qed
  with work show ?thesis by simp
qed

lemma deactivate_timetable: "keeps_timetable x {} db (deactivate_free_periodic_results_in_tx env realm user t db)"
  unfolding keeps_timetable_def deactivate_free_periodic_results_in_tx_def
  by (auto intro: timetable_deactivate)

lemma execute_event_timetable:
  assumes "execute_distribution_event_atomic x env event selection db = Some (r, db')"
  shows "keeps_timetable x (scheduled_slots event selection) db db'"
proof (rule event_loop_timetable[OF _ assms[unfolded execute_distribution_event_atomic_def]])
  fix i d rs d' assume "execute_event_first_run x env event selection i d = Inr (rs, d')"
  then have "keeps_timetable x (scheduled_slots event selection)
      (if ev_trigger event \<in> {TriggerSubscriptionInitial, TriggerSubscriptionRenewal}
       then deactivate_free_periodic_results_in_tx env (ev_realm_id event) (ev_user_id event) (ev_effective_from event) d
       else d) d'"
    unfolding execute_event_first_run_def by (rule first_run_timetable)
  then show "keeps_timetable x (scheduled_slots event selection) d d'"
    using keeps_timetable_trans[OF deactivate_timetable] by (simp split: if_splits)
qed

lemma replace_source_timetable:
  assumes "replace_distribution_source_atomic x env source ty reason event selection db = Some (r, db')"
  shows "keeps_timetable x (scheduled_slots event selection) db db'"
proof (rule event_loop_timetable[OF _ assms[unfolded replace_distribution_source_atomic_def]])
  fix i d rs d' assume "replace_first_run x env source ty reason event selection i d = Inr (rs, d')"
  then obtain p where "execute_first_run_in_tx x env i event selection
      ((deactivate_free_periodic_results_in_tx env (ev_realm_id event) (ev_user_id event) (ev_effective_from event) d)
         \<lparr>gd_points := p\<rparr>) = Inr (rs, d')"
    by (auto simp: replace_first_run_def result_simps)
  note run = first_run_timetable[OF this]
  let ?d = "deactivate_free_periodic_results_in_tx env (ev_realm_id event) (ev_user_id event) (ev_effective_from event) d"
  have "keeps_timetable x {} d (?d\<lparr>gd_points := p\<rparr>)"
    using deactivate_timetable[of x d] by (simp add: keeps_timetable_def)
  from keeps_timetable_trans[OF this run] show "keeps_timetable x (scheduled_slots event selection) d d'" by simp
qed

lemma upsert_rules_timetable:
  assumes "upsert_rules_in_tx env realm owner ups db = Inr db'"
  shows "keeps_timetable x {} db db'"
  using assms unfolding upsert_rules_in_tx_def
proof (induction ups arbitrary: db)
  case Nil
  then show ?case by (simp add: keeps_timetable_same)
next
  case (Cons up ups)
  then obtain db1 where one: "upsert_rule_in_tx env realm owner db up = Inr db1"
    and rest: "try_fold (upsert_rule_in_tx env realm owner) db1 ups = Inr db'" by (auto simp: result_simps)
  have "keeps_timetable x {} db db1"
  proof (cases "timetable db1 = timetable db")
    case False
    with one obtain rid where "gd_records db1 = gd_records db"
      "gd_schedules db1 = deactivate_rule_schedules env realm rid (gd_schedules db)"
      by (auto simp: upsert_rule_in_tx_def result_simps draw_uuid_def now_v7_def timetable_def Let_def
          split: option.splits if_splits)
    then show ?thesis
      unfolding keeps_timetable_def deactivate_rule_schedules_def by (auto intro: timetable_deactivate)
  qed (rule keeps_timetable_same)
  from keeps_timetable_trans[OF this Cons.IH[OF rest]] show ?case by simp
qed

end
