(* ===== verification/SchedulerProps.thy ===== *)
theory SchedulerProps
  imports SchedulePeriods
begin

text \<open>
  The services over the timetable: the scheduler and the read path return and grant no period
  twice, the sweep of ended quota entitlements returns and expires all of them, and the invariants
  hold in every store the distribution operations reach.
\<close>

section \<open>The scheduler\<close>

lemma scheduled_period_slot [simp]:
  "scheduled_slots (period_event env s n) (ScheduledRule (sch_distribution_rule_id s)) = {slot s}"
  by (simp add: scheduled_slots_def period_event_def slot_def Let_def)

lemma run_period_effect:
  assumes "dist_inv db"
  obtains r db' where "run_period x env s n db = Some (r, db')" "dist_inv db'" "keeps_timetable x {slot s} db db'"
proof -
  obtain r db' where run: "run_period x env s n db = Some (r, db')" and inv: "dist_inv db'"
    unfolding run_period_def execute_distribution_event_atomic_def using execute_event.loop_returns[OF assms] by metis
  from execute_event_timetable[OF run[unfolded run_period_def]] have "keeps_timetable x {slot s} db db'" by simp
  with that run inv show ?thesis by blast
qed

text \<open>What running the schedules of a list promises.\<close>

definition runs_schedules :: "ext \<Rightarrow> points_grant_schedule list \<Rightarrow> grants_db \<Rightarrow> ('a \<times> grants_db) option \<Rightarrow> bool" where
  "runs_schedules x due db run \<longleftrightarrow>
     (\<exists>r db'. run = Some (r, db') \<and> dist_inv db' \<and> keeps_timetable x (slot ` set due) db db')"

lemma runs_schedules_stop: "dist_inv db \<Longrightarrow> runs_schedules x due db (Some (r, db))"
  by (simp add: runs_schedules_def keeps_timetable_same)

lemma runs_schedules_step:
  assumes "keeps_timetable x {slot s} db db1" "runs_schedules x due db1 run" "slot s \<notin> slot ` set due"
  shows "runs_schedules x (s # due) db run"
proof -
  from assms(2) obtain r db' where run: "run = Some (r, db')" "dist_inv db'" "keeps_timetable x (slot ` set due) db1 db'"
    unfolding runs_schedules_def by blast
  from keeps_timetable_trans[OF assms(1) run(3)] assms(3) have "keeps_timetable x (slot ` set (s # due)) db db'" by simp
  with run show ?thesis unfolding runs_schedules_def by blast
qed

lemma runs_schedules_mono:
  assumes "runs_schedules x due db run" "set due \<subseteq> set due'"
  shows "runs_schedules x due' db run"
proof -
  from assms(1) obtain r db' where run: "run = Some (r, db')" "dist_inv db'" "keeps_timetable x (slot ` set due) db db'"
    unfolding runs_schedules_def by blast
  from keeps_timetable_mono[OF run(3) image_mono[OF assms(2)]] run(1,2) show ?thesis by (simp add: runs_schedules_def)
qed

lemma process_schedules_run:
  assumes "dist_inv db" "distinct (map slot due)"
  shows "runs_schedules x due db (process_schedules x env due summary db)"
  using assms
proof (induction due arbitrary: summary db)
  case (Cons s due)
  show ?case
  proof (cases "period_u32 (sch_granted_periods s + 1)")
    case (Some n)
    obtain r db1 where run: "run_period x env s n db = Some (r, db1)" "dist_inv db1" "keeps_timetable x {slot s} db db1"
      by (rule run_period_effect[OF Cons.prems(1)])
    have new: "distinct (map slot due)" "slot s \<notin> slot ` set due" using Cons.prems(2) by simp_all
    have "runs_schedules x (s # due) db (process_schedules x env due summary' db1)" for summary'
      by (rule runs_schedules_step[OF run(3) Cons.IH[OF run(2) new(1)] new(2)])
    then show ?thesis by (simp add: Some run(1) Let_def split: sum.split)
  qed (simp add: runs_schedules_stop[OF Cons.prems(1)] Let_def)
qed (simp add: runs_schedules_stop)

lemma realize_schedules_run:
  assumes "dist_inv db" "distinct (map slot due)"
  shows "runs_schedules x due db (realize_schedules x env due db)"
  using assms
proof (induction due arbitrary: db)
  case (Cons s due)
  have new: "distinct (map slot due)" "slot s \<notin> slot ` set due" using Cons.prems(2) by simp_all
  have skip: "runs_schedules x (s # due) db (realize_schedules x env due db)"
    by (rule runs_schedules_mono[OF Cons.IH[OF Cons.prems(1) new(1)]]) (rule set_subset_Cons)
  show ?case
  proof (cases "schedule_should_stop s \<or> period_u32 (sch_granted_periods s + 1) = None")
    case True
    then show ?thesis using skip runs_schedules_stop[OF Cons.prems(1)] by (cases "schedule_should_stop s") simp_all
  next
    case False
    then obtain n where n: "period_u32 (sch_granted_periods s + 1) = Some n" by auto
    obtain r db1 where run: "run_period x env s n db = Some (r, db1)" "dist_inv db1" "keeps_timetable x {slot s} db db1"
      by (rule run_period_effect[OF Cons.prems(1)])
    have go: "runs_schedules x (s # due) db (realize_schedules x env due db1)"
      by (rule runs_schedules_step[OF run(3) Cons.IH[OF run(2) new(1)] new(2)])
    have stop: "runs_schedules x (s # due) db (Some (Inl e :: (core_error, unit) result, db1))" for e
      using run(2) keeps_timetable_mono[OF run(3), of "slot ` set (s # due)"] by (simp add: runs_schedules_def)
    show ?thesis
    proof (cases r)
      case (Inl e)
      with stop False n run(1) show ?thesis by simp
    next
      case (Inr a)
      with go False n run(1) show ?thesis by simp
    qed
  qed
qed (simp add: runs_schedules_stop)

lemma due_slots:
  assumes "sched_inv x ss gs"
  shows "distinct (map slot (take n (sort_key k (filter P ss))))" "set (take n (sort_key k (filter P ss))) \<subseteq> {s \<in> set ss. P s}"
proof -
  have "distinct (map slot (filter P ss))" using assms by (simp add: sched_inv_def distinct_map_filter)
  then have "distinct (map slot (sort_key k (filter P ss)))" by (simp add: distinct_map)
  then show "distinct (map slot (take n (sort_key k (filter P ss))))" by (metis distinct_take take_map)
  show "set (take n (sort_key k (filter P ss))) \<subseteq> {s \<in> set ss. P s}" by (auto dest: in_set_takeD)
qed

text \<open>Only a due schedule moves, since no two schedules share their realm, user and rule.\<close>

lemma moved_slots:
  assumes inv: "sched_inv x ss gs" and "set due \<subseteq> {s \<in> set ss. P s}" and moved: "moved (slot ` set due) ss ss'" and s: "s \<in> set ss"
  obtains s' where "s' \<in> set ss'" "sch_id s' = sch_id s"
    "sch_granted_periods s' = sch_granted_periods s \<or> P s \<and> sch_granted_periods s' = sch_granted_periods s + 1"
proof -
  from moved s obtain s' where s': "s' \<in> set ss'" "sch_id s' = sch_id s"
    "sch_granted_periods s' = sch_granted_periods s \<or> slot s \<in> slot ` set due \<and> sch_granted_periods s' = sch_granted_periods s + 1"
    unfolding moved_def by blast
  have "P s" if hit: "slot s \<in> slot ` set due"
  proof -
    from hit obtain d where d: "slot s = slot d" "d \<in> set due" by (rule imageE)
    with assms(2) have "d \<in> set ss" "P d" by auto
    with d(1) s inv distinct_key_unique[of slot ss d s] show ?thesis by (simp add: sched_inv_def)
  qed
  with that s' show ?thesis by blast
qed

text \<open>A store whose event and timetable invariants hold, and what a scheduling run may do to it.\<close>

definition sound_store :: "ext \<Rightarrow> grants_db \<Rightarrow> bool" where
  "sound_store x db \<longleftrightarrow> dist_inv db \<and> sched_inv x (gd_schedules db) (gd_records db)"

definition moves_due :: "(points_grant_schedule \<Rightarrow> bool) \<Rightarrow> grants_db \<Rightarrow> grants_db \<Rightarrow> bool" where
  "moves_due P db db' \<longleftrightarrow> (\<forall>s \<in> set (gd_schedules db). \<exists>s' \<in> set (gd_schedules db'). sch_id s' = sch_id s \<and>
     (sch_granted_periods s' = sch_granted_periods s \<or> P s \<and> sch_granted_periods s' = sch_granted_periods s + 1))"

lemma run_moves_due:
  assumes inv: "sound_store x db" and sub: "set due \<subseteq> {s \<in> set (gd_schedules db). P s}"
    and run: "runs_schedules x due db run"
  shows "\<exists>r db'. run = Some (r, db') \<and> sound_store x db' \<and> moves_due P db db'"
proof -
  from run obtain r db' where r: "run = Some (r, db')" "dist_inv db'" and k: "keeps_timetable x (slot ` set due) db db'"
    unfolding runs_schedules_def by blast
  from k inv have inv': "sched_inv x (gd_schedules db') (gd_records db')"
    and m: "moved (slot ` set due) (gd_schedules db) (gd_schedules db')"
    by (simp_all add: keeps_timetable_def sound_store_def)
  have "moves_due P db db'"
    unfolding moves_due_def using moved_slots[OF inv[unfolded sound_store_def, THEN conjunct2] sub m] by metis
  with r inv' show ?thesis by (simp add: sound_store_def)
qed

lemma process_due_effect:
  assumes "sound_store x db"
  shows "\<exists>r db'. process_due_schedules x env db = Some (r, db') \<and> sound_store x db' \<and>
    moves_due (\<lambda>s. is_due s (env_now env)) db db'"
proof -
  from assms have inv: "dist_inv db" "sched_inv x (gd_schedules db) (gd_records db)" by (simp_all add: sound_store_def)
  note d = due_slots[OF inv(2), of default_batch_size sch_next_grant_time "\<lambda>s. sch_next_grant_time s \<le> env_now env \<and> sch_active s"]
  show ?thesis unfolding process_due_schedules_def find_due_grant_schedules_def
    by (rule run_moves_due[OF assms _ process_schedules_run[OF inv(1) d(1)]]) (use d(2) in \<open>auto simp: is_due_def\<close>)
qed

lemma reconcile_due_effect:
  assumes "sound_store x db"
  shows "\<exists>r db'. reconcile_due_for_user x env realm_id user_id now db = Some (r, db') \<and> sound_store x db' \<and>
    moves_due (\<lambda>s. is_due s now \<and> sch_user_id s = user_id) db db'"
proof -
  from assms have inv: "dist_inv db" "sched_inv x (gd_schedules db) (gd_records db)" by (simp_all add: sound_store_def)
  note e = due_slots[OF inv(2), of read_path_realization_limit sch_next_grant_time
      "\<lambda>s. sch_realm_id s = realm_id \<and> sch_user_id s = user_id \<and> sch_active s \<and> sch_subscription_id s = None \<and> sch_next_grant_time s \<le> now"]
  show ?thesis unfolding reconcile_due_for_user_def find_due_free_grant_schedules_for_user_def
    by (rule run_moves_due[OF assms _ realize_schedules_run[OF inv(1) e(1)]]) (use e(2) in \<open>auto simp: is_due_def\<close>)
qed

text \<open>
  C34: the scheduler and the read path return on every sound store and leave a sound store, in which
  the grant records of every schedule are its periods from one to the last granted.  They move no
  schedule except the due ones, and those by at most one period: no period is granted twice.
\<close>

theorem due_schedules_move_one_period:
  assumes "sound_store x db"
  shows "(\<exists>r db'. process_due_schedules x env db = Some (r, db') \<and> sound_store x db' \<and>
       moves_due (\<lambda>s. is_due s (env_now env)) db db') \<and>
    (\<exists>r db'. reconcile_due_for_user x env realm_id user_id now db = Some (r, db') \<and> sound_store x db' \<and>
       moves_due (\<lambda>s. is_due s now \<and> sch_user_id s = user_id) db db')"
  using process_due_effect[OF assms] reconcile_due_effect[OF assms] by (rule conjI)

text \<open>The store a registration leaves: its periodic rule has one schedule, due a day later.\<close>

lemma demo_scheduled:
  obtains rs db where "execute_distribution_event_atomic demo_ext demo_env demo_registration CurrentOwnerRules demo_dist = Some (Inr rs, db)"
    "sound_store demo_ext db" "map (\<lambda>s. is_due s (days 2)) (gd_schedules db) = [True]"
proof -
  let ?work = "execute_event_first_run demo_ext demo_env demo_registration CurrentOwnerRules"
  have "(case event_attempt demo_env demo_registration ?work demo_dist of
      Inl _ \<Rightarrow> False | Inr (r, db) \<Rightarrow> \<not> isl r \<and> map (\<lambda>s. is_due s (days 2)) (gd_schedules db) = [True])" by code_simp
  then obtain rs db where "event_attempt demo_env demo_registration ?work demo_dist = Inr (Inr rs, db)"
    and due: "map (\<lambda>s. is_due s (days 2)) (gd_schedules db) = [True]"
    by (auto simp: isl_def split: sum.splits prod.splits) (metis sum.exhaust)
  then have run: "execute_distribution_event_atomic demo_ext demo_env demo_registration CurrentOwnerRules demo_dist = Some (Inr rs, db)"
    by (simp add: execute_distribution_event_atomic_def event_loop_answer)
  have "sched_inv demo_ext (gd_schedules demo_dist) (gd_records demo_dist)" by (simp add: demo_dist_def sched_inv_def)
  with execute_event_timetable[OF run] have "sched_inv demo_ext (gd_schedules db) (gd_records db)" by (simp add: keeps_timetable_def)
  moreover have "dist_inv db"
    using execute_event.loop_returns[OF demo_dist_inv] run unfolding execute_distribution_event_atomic_def
    by (metis option.inject prod.inject)
  ultimately show thesis using that run due by (simp add: sound_store_def)
qed

theorem due_schedules_move_one_period_witness:
  "\<exists>db. sound_store demo_ext db \<and> map (\<lambda>s. is_due s (days 2)) (gd_schedules db) = [True] \<and>
     (\<exists>r db'. process_due_schedules demo_ext (demo_env\<lparr>env_now := days 2\<rparr>) db = Some (r, db') \<and> sound_store demo_ext db' \<and>
        moves_due (\<lambda>s. is_due s (days 2)) db db')"
proof -
  obtain db where db: "sound_store demo_ext db" "map (\<lambda>s. is_due s (days 2)) (gd_schedules db) = [True]"
    by (rule demo_scheduled)
  from due_schedules_move_one_period[OF db(1), of "demo_env\<lparr>env_now := days 2\<rparr>" "''r''" 1 0] db show ?thesis by auto
qed

section \<open>The sweep\<close>

definition expired_entitlement :: "instant \<Rightarrow> points_quota_entitlement \<Rightarrow> points_quota_entitlement" where
  "expired_entitlement t q = q\<lparr>ent_status := QuotaExpired, ent_updated_at := t\<rparr>"

abbreviation ended :: "instant \<Rightarrow> points_quota_entitlement list \<Rightarrow> nat" where
  "ended now qs \<equiv> length (filter (quota_ended now) qs)"

lemma expire_first_count: "ended now (expire_first t now n qs) = ended now qs - n"
  by (induction t now n qs rule: expire_first.induct) (auto simp: quota_ended_def)

lemma expire_first_all:
  "ended now qs \<le> n \<Longrightarrow> expire_first t now n qs = update_where (quota_ended now) (expired_entitlement t) qs"
  by (induction t now n qs rule: expire_first.induct) (auto simp: expired_entitlement_def)

lemma expire_first_again:
  "update_where (quota_ended now) (expired_entitlement t) (expire_first t now n qs) =
     update_where (quota_ended now) (expired_entitlement t) qs"
  by (induction t now n qs rule: expire_first.induct) (auto simp: expired_entitlement_def quota_ended_def)

lemma expire_quota_loop_run:
  assumes "0 < batch"
  shows "expire_quota_loop env now batch summary db =
    Some (summary\<lparr>gs_processed := gs_processed summary + ended now (db_entitlements db)\<rparr>,
      db\<lparr>db_entitlements := update_where (quota_ended now) (expired_entitlement (env_sql_now env)) (db_entitlements db)\<rparr>)"
proof (induction "ended now (db_entitlements db)" arbitrary: summary db rule: less_induct)
  case less
  let ?n = "ended now (db_entitlements db)"
  show ?case
  proof (cases "?n < batch")
    case True
    then show ?thesis
      by (subst expire_quota_loop.simps) (simp add: expire_quota_entitlements_batch_def expire_first_all Let_def)
  next
    case False
    let ?db = "db\<lparr>db_entitlements := expire_first (env_sql_now env) now batch (db_entitlements db)\<rparr>"
    have left: "ended now (db_entitlements ?db) = ?n - batch" by (simp add: expire_first_count)
    have "expire_quota_loop env now batch summary db =
        expire_quota_loop env now batch (summary\<lparr>gs_processed := gs_processed summary + batch\<rparr>) ?db"
      using False by (subst expire_quota_loop.simps) (simp add: expire_quota_entitlements_batch_def Let_def)
    also have "\<dots> = Some (summary\<lparr>gs_processed := gs_processed summary + batch + (?n - batch)\<rparr>,
        db\<lparr>db_entitlements := update_where (quota_ended now) (expired_entitlement (env_sql_now env)) (db_entitlements db)\<rparr>)"
    proof -
      have fewer: "ended now (db_entitlements ?db) < ?n" unfolding left using False assms by linarith
      show ?thesis unfolding less[OF fewer] left by (simp add: expire_first_again)
    qed
    finally show ?thesis using False by simp
  qed
qed

text \<open>
  C35: the sweep of quota entitlements returns for every positive batch size, whatever the number of
  rows: it marks every active entitlement past its end as expired, changes nothing else, and
  reports their number.
\<close>

theorem quota_sweep_expires_all:
  assumes "0 < batch_size"
  shows "expire_quota_entitlements env batch_size db =
    Some (empty_summary\<lparr>gs_processed := length (filter (quota_ended (env_now env)) (db_entitlements db))\<rparr>,
      db\<lparr>db_entitlements := map (\<lambda>q. if quota_ended (env_now env) q
           then q\<lparr>ent_status := QuotaExpired, ent_updated_at := env_sql_now env\<rparr> else q) (db_entitlements db)\<rparr>)"
  unfolding expire_quota_entitlements_def expire_quota_loop_run[OF assms]
  by (simp add: empty_summary_def update_where_def expired_entitlement_def)

theorem quota_sweep_expires_all_witness:
  "0 < (1 :: nat) \<and>
   map_option (\<lambda>(s, db). (gs_processed s, map ent_status (db_entitlements db)))
     (expire_quota_entitlements demo_env 1 (demo_db\<lparr>db_entitlements :=
        [demo_entitlement\<lparr>ent_effective_until := Some 0\<rparr>, demo_entitlement, demo_entitlement\<lparr>ent_effective_until := Some 1\<rparr>]\<rparr>)) =
   Some (2, [QuotaExpired, QuotaActive, QuotaExpired])"
  by (subst quota_sweep_expires_all) (simp, code_simp)

section \<open>Reachable stores\<close>

text \<open>The operations of the distribution component, each in its own transactions.\<close>

inductive dist_step :: "ext \<Rightarrow> grants_db \<Rightarrow> grants_db \<Rightarrow> bool" for x where
  executes: "execute_distribution_event_atomic x env event selection db = Some (r, db') \<Longrightarrow> dist_step x db db'"
| replaces: "replace_distribution_source_atomic x env source ty reason event selection db = Some (r, db') \<Longrightarrow> dist_step x db db'"
| upserts: "upsert_rules_in_tx env realm owner ups db = Inr db' \<Longrightarrow> dist_step x db db'"
| revokes: "on_points (revoke_distribution_source_atomic env realm user source ty reason key) db = Inr (out, db') \<Longrightarrow> dist_step x db db'"
| schedules: "process_due_schedules x env db = Some (r, db') \<Longrightarrow> dist_step x db db'"
| realizes: "reconcile_due_for_user x env realm user now db = Some (u, db') \<Longrightarrow> dist_step x db db'"

lemma db_seq_chain:
  fixes p p1 p2 :: points_db
  shows "p1 = p\<lparr>db_seq := a\<rparr> \<Longrightarrow> p2 = p1\<lparr>db_seq := b\<rparr> \<Longrightarrow> p2 = p\<lparr>db_seq := b\<rparr>"
  by simp

lemma upsert_rules_points:
  assumes "upsert_rules_in_tx env realm owner ups db = Inr db'"
  shows "gd_points db' = (gd_points db)\<lparr>db_seq := db_seq (gd_points db')\<rparr> \<and> gd_records db' = gd_records db \<and>
    map sch_key (gd_schedules db') = map sch_key (gd_schedules db)"
  using assms unfolding upsert_rules_in_tx_def
proof (induction ups arbitrary: db)
  case Nil
  then show ?case by simp
next
  case (Cons up ups)
  then obtain db1 where one: "upsert_rule_in_tx env realm owner db up = Inr db1"
    and rest: "try_fold (upsert_rule_in_tx env realm owner) db1 ups = Inr db'" by (auto simp: result_simps)
  have key: "map sch_key (deactivate_rule_schedules env r i ss) = map sch_key ss" for r i ss
    unfolding deactivate_rule_schedules_def by (rule map_sch_key_update) (simp add: sch_key_def)
  from one have step: "gd_points db1 = (gd_points db)\<lparr>db_seq := db_seq (gd_points db1)\<rparr> \<and> gd_records db1 = gd_records db \<and>
      map sch_key (gd_schedules db1) = map sch_key (gd_schedules db)"
    by (auto simp: upsert_rule_in_tx_def result_simps draw_uuid_def now_v7_def Let_def key split: option.splits if_splits)
  note IH = Cons.IH[OF rest]
  have "gd_points db' = (gd_points db)\<lparr>db_seq := db_seq (gd_points db')\<rparr>"
    by (rule db_seq_chain[OF conjunct1[OF step] conjunct1[OF IH]])
  with IH step show ?case by simp
qed

lemma revoke_source_atomic_rows:
  assumes "revoke_distribution_source_atomic env realm user source ty reason key p = Inr (out, p')"
    and "distinct (map led_id (db_ledgers p))"
  shows "map led_key (db_ledgers p') = map led_key (db_ledgers p) \<and>
    map ent_key (db_entitlements p') = map ent_key (db_entitlements p) \<and> db_events p' = db_events p"
proof (cases "check_completed_idempotency_in_tx env p realm key")
  case None
  with assms(1) obtain p1 where run: "revoke_distribution_source_in_tx env realm user source ty reason key p = Inr (out, p1)"
    and p': "p' = record_completed_idempotency_in_tx env p1 realm key (rpo_revocation_id out)"
    by (auto simp: revoke_distribution_source_atomic_def result_simps)
  from revoke_source_rows[OF run assms(2)] show ?thesis
    unfolding p' by (subst (1 2 3) record_idempotency_frame) (simp add: fixed_tables_def)
next
  case (Some i)
  with assms(1) show ?thesis by (auto simp: revoke_distribution_source_atomic_def empty_output_def now_v7_def)
qed

lemma dist_step_sound:
  assumes "dist_step x db db'" "sound_store x db"
  shows "sound_store x db'"
  using assms
proof cases
  case (executes env event selection r)
  with assms(2) execute_event.loop_returns[of db env event x env selection] show ?thesis
    using execute_event_timetable[OF executes]
    by (auto simp: sound_store_def keeps_timetable_def execute_distribution_event_atomic_def)
next
  case (replaces env source ty reason event selection r)
  with assms(2) replace_source.loop_returns[of db env event x env source ty reason selection] show ?thesis
    using replace_source_timetable[OF replaces]
    by (auto simp: sound_store_def keeps_timetable_def replace_distribution_source_atomic_def)
next
  case (upserts env realm owner ups)
  obtain n where "gd_points db' = (gd_points db)\<lparr>db_seq := n\<rparr>"
    "gd_records db' = gd_records db" "map sch_key (gd_schedules db') = map sch_key (gd_schedules db)"
    using upsert_rules_points[OF upserts] by blast
  then have "same_rows db db'" "db_events (gd_points db') = db_events (gd_points db)" by (simp_all add: same_rows_def)
  with dist_inv_same_rows upsert_rules_timetable[OF upserts, of x] assms(2) show ?thesis
    by (auto simp: sound_store_def keeps_timetable_def)
next
  case (revokes env realm user source ty reason key out)
  then obtain p where p: "revoke_distribution_source_atomic env realm user source ty reason key (gd_points db) = Inr (out, p)"
    and db': "db' = db\<lparr>gd_points := p\<rparr>" by (auto simp: result_simps)
  from assms(2) have "distinct (map led_id (db_ledgers (gd_points db)))" by (simp add: sound_store_def dist_inv_def)
  note rows = revoke_source_atomic_rows[OF p this]
  have "same_rows db db'" "db_events (gd_points db') = db_events (gd_points db)" using rows by (simp_all add: same_rows_def db')
  with dist_inv_same_rows assms(2) show ?thesis by (auto simp: sound_store_def db')
next
  case (schedules env r)
  with process_due_effect[OF assms(2), of env] show ?thesis by auto
next
  case (realizes env realm user now)
  with reconcile_due_effect[OF assms(2), of env realm user now] show ?thesis by auto
qed

text \<open>
  C36: every store that the distribution operations reach from a sound one, in whatever order they
  run, is sound: its events are completed with the number of their results, and the records of each
  schedule are its periods from one to the last granted, without a gap and without a duplicate.
\<close>

theorem reachable_stores_are_sound:
  assumes "(dist_step x)\<^sup>*\<^sup>* db db'" "sound_store x db"
  shows "sound_store x db'"
  using assms by (induction rule: rtranclp_induct) (blast intro: dist_step_sound)+

theorem reachable_stores_are_sound_witness:
  "\<exists>db. (dist_step demo_ext)\<^sup>*\<^sup>* demo_dist db \<and> gd_schedules db \<noteq> [] \<and> sound_store demo_ext db"
proof -
  obtain rs db where run: "execute_distribution_event_atomic demo_ext demo_env demo_registration CurrentOwnerRules demo_dist = Some (Inr rs, db)"
    and db: "map (\<lambda>s. is_due s (days 2)) (gd_schedules db) = [True]" by (rule demo_scheduled)
  have "sound_store demo_ext demo_dist" by (simp add: sound_store_def demo_dist_inv) (simp add: demo_dist_def sched_inv_def)
  moreover have "(dist_step demo_ext)\<^sup>*\<^sup>* demo_dist db" using executes[OF run] by blast
  ultimately show ?thesis using reachable_stores_are_sound[of demo_ext demo_dist db] db by auto
qed

end
