(* ===== verification/Shop.thy ===== *)
theory Shop
  imports DistributionExec
begin

text \<open>
  The tables a purchase touches beside the points tables, and their repositories: entitlement
  mappings and subscriptions (\<open>domain/src/billing/entities.rs\<close>,
  \<open>infra/src/billing/postgres_repository.rs\<close>) and the role assignments paid for
  (\<open>infra/src/user/admin_repositories.rs\<close>).

  A purchase runs in several transactions: each step commits on its own, so an error leaves what
  the steps before it have written.  A step therefore returns its result together with the
  database, and \<open>None\<close> stands for a step that never returns.
\<close>

section \<open>Subscription statuses\<close>

datatype subscription_status =
  SubActive | SubCanceled | SubExpired | SubIncomplete | SubPaused | SubTrialing | SubPastDue
| SubScheduledCancel | SubDispute | SubPending

definition subscription_status_as_str :: "subscription_status \<Rightarrow> string" where
  "subscription_status_as_str s = (case s of
       SubActive \<Rightarrow> ''active'' | SubCanceled \<Rightarrow> ''canceled'' | SubExpired \<Rightarrow> ''expired''
     | SubIncomplete \<Rightarrow> ''incomplete'' | SubPending \<Rightarrow> ''pending'' | SubTrialing \<Rightarrow> ''trialing''
     | SubPaused \<Rightarrow> ''paused'' | SubPastDue \<Rightarrow> ''past_due'' | SubScheduledCancel \<Rightarrow> ''scheduled_cancel''
     | SubDispute \<Rightarrow> ''dispute'')"

definition subscription_status_from_str :: "string \<Rightarrow> (core_error, subscription_status) result" where
  "subscription_status_from_str s =
     (let t = to_lowercase s in
      if t = ''active'' then Inr SubActive
      else if t = ''canceled'' then Inr SubCanceled
      else if t = ''expired'' then Inr SubExpired
      else if t = ''incomplete'' then Inr SubIncomplete
      else if t = ''pending'' then Inr SubPending
      else if t = ''trialing'' then Inr SubTrialing
      else if t = ''paused'' then Inr SubPaused
      else if t = ''past_due'' then Inr SubPastDue
      else if t = ''scheduled_cancel'' then Inr SubScheduledCancel
      else if t = ''dispute'' then Inr SubDispute
      else Inl (InvalidSubscriptionStatus s))"

definition has_access :: "subscription_status \<Rightarrow> bool" where
  "has_access s \<longleftrightarrow> s \<in> {SubActive, SubTrialing, SubScheduledCancel, SubDispute}"

definition subscription_can_transition_to :: "subscription_status \<Rightarrow> subscription_status \<Rightarrow> bool" where
  "subscription_can_transition_to s t \<longleftrightarrow> s = t \<or>
     (case s of
        SubPending \<Rightarrow> t \<in> {SubActive, SubTrialing, SubIncomplete, SubCanceled, SubExpired, SubPaused, SubPastDue}
      | SubIncomplete \<Rightarrow> t \<in> {SubActive, SubCanceled, SubExpired}
      | SubTrialing \<Rightarrow> t \<in> {SubActive, SubCanceled, SubExpired, SubPaused, SubPastDue, SubDispute}
      | SubActive \<Rightarrow> t \<in> {SubCanceled, SubExpired, SubPaused, SubPastDue, SubScheduledCancel, SubDispute}
      | SubPaused \<Rightarrow> t \<in> {SubActive, SubCanceled, SubExpired, SubPastDue, SubDispute}
      | SubPastDue \<Rightarrow> t \<in> {SubActive, SubCanceled, SubExpired, SubDispute, SubScheduledCancel}
      | SubDispute \<Rightarrow> t \<in> {SubActive, SubCanceled, SubExpired, SubPastDue}
      | SubScheduledCancel \<Rightarrow> t \<in> {SubActive, SubCanceled, SubExpired}
      | SubCanceled \<Rightarrow> t = SubExpired
      | SubExpired \<Rightarrow> False)"

lemma subscription_status_read_back: "subscription_status_from_str (subscription_status_as_str b) = Inr b"
  by (cases b; hypsubst; code_simp)

section \<open>Tables\<close>

text \<open>The JSON of a provider's product, as far as it is read: \<open>price\<close> as an integer,
  \<open>currency\<close> and \<open>name\<close> as text.\<close>

record product_info =
  pi_price :: "i64 option"
  pi_currency :: "string option"
  pi_name :: "string option"

record entitlement_mapping =
  mp_id :: uuid
  mp_realm_id :: string
  mp_payment_provider :: string
  mp_external_product_id :: string
  mp_external_price_id :: "string option"
  mp_entitlement_key :: string
  mp_billing_type :: "billing_type option"
  mp_billing_period :: "string option"
  mp_service_duration_days :: "i64 option"
  mp_enabled :: bool
  mp_provider_product_info :: "product_info option"
  mp_granted_role_ids :: "uuid list"

record subscription =
  sub_id :: uuid
  sub_realm_id :: string
  sub_user_id :: uuid
  sub_external_subscription_id :: string
  sub_external_product_id :: string
  sub_payment_provider :: string
  sub_status :: subscription_status
  sub_entitlement_key :: string
  sub_billing_type :: billing_type
  sub_external_price_id :: "string option"
  sub_synced_at :: "instant option"
  sub_current_period_start :: "instant option"
  sub_current_period_end :: "instant option"
  sub_cancel_at_period_end :: bool
  sub_client_app_id :: "uuid option"
  sub_cancel_at :: "instant option"
  sub_created_at :: instant
  sub_updated_at :: instant

record user_role =
  ur_id :: uuid
  ur_user_id :: "uuid option"
  ur_role_id :: uuid
  ur_realm_id :: string
  ur_client_id :: "string option"
  ur_principal_type :: string
  ur_principal_id :: string
  ur_source :: string
  ur_source_id :: "string option"
  ur_expires_at :: "instant option"

record shop_db =
  sh_attempts :: "payment_attempt list"
  sh_grants :: grants_db
  sh_mappings :: "entitlement_mapping list"
  sh_subscriptions :: "subscription list"
  sh_user_roles :: "user_role list"
  sh_role_ids :: "uuid list"
  sh_realms :: "string list"

text \<open>
  One database: the payment attempts' repository works on the attempts, on the rules' columns it
  reads and on the captured rules, which the distribution executor reads too.
\<close>

definition rule_view :: "distribution_rule_row \<Rightarrow> rule_row" where
  "rule_view r = \<lparr>rule_id = drr_id r, rule_realm_id = drr_realm_id r, rule_mapping_id = drr_mapping_id r,
     rule_bucket_id = drr_bucket_id r, rule_enabled = drr_enabled r, rule_trigger_sources = drr_trigger_sources r,
     rule_display_order = drr_display_order r\<rparr>"

definition pay_view :: "shop_db \<Rightarrow> pay_db" where
  "pay_view s = \<lparr>pay_attempts = sh_attempts s, pay_rules = map rule_view (gd_rules (sh_grants s)),
     pay_captured = gd_captured (sh_grants s), pay_seq = db_seq (gd_points (sh_grants s))\<rparr>"

definition with_pay :: "shop_db \<Rightarrow> pay_db \<Rightarrow> shop_db" where
  "with_pay s p = s\<lparr>sh_attempts := pay_attempts p,
     sh_grants := (sh_grants s)\<lparr>gd_captured := pay_captured p,
       gd_points := (gd_points (sh_grants s))\<lparr>db_seq := pay_seq p\<rparr>\<rparr>\<rparr>"

type_synonym 'a step = "(core_error, 'a) result \<times> shop_db"
type_synonym 'a run = "'a step option"

definition on_pay :: "(pay_db \<Rightarrow> 'a pay_result) \<Rightarrow> shop_db \<Rightarrow> 'a run" where
  "on_pay f s = (let (r, p) = f (pay_view s) in Some (r, with_pay s p))"

definition on_grants ::
  "(grants_db \<Rightarrow> ((core_error, 'a) result \<times> grants_db) option) \<Rightarrow> shop_db \<Rightarrow> 'a run" where
  "on_grants f s = map_option (\<lambda>(r, g). (r, s\<lparr>sh_grants := g\<rparr>)) (f (sh_grants s))"

text \<open>The next step of a handler: only after a success, on the database the step left.\<close>

definition next_step :: "'a run \<Rightarrow> ('a \<Rightarrow> shop_db \<Rightarrow> 'b run) \<Rightarrow> 'b run" where
  "next_step m k = (case m of
       None \<Rightarrow> None
     | Some (Inl e, s) \<Rightarrow> Some (Inl e, s)
     | Some (Inr x, s) \<Rightarrow> k x s)"

section \<open>Repositories\<close>

definition find_entitlement_mapping_by_id :: "shop_db \<Rightarrow> uuid \<Rightarrow> entitlement_mapping option" where
  "find_entitlement_mapping_by_id s i = find (\<lambda>m. mp_id m = i) (sh_mappings s)"

definition find_by_external_subscription_id :: "shop_db \<Rightarrow> string \<Rightarrow> string \<Rightarrow> subscription option" where
  "find_by_external_subscription_id s external provider =
     find (\<lambda>b. sub_external_subscription_id b = external \<and> sub_payment_provider b = provider) (sh_subscriptions s)"

text \<open>The constraints of the table: the primary key, the account, the billing type and the
  client application of at most one subscription.\<close>

definition subscription_check :: "shop_db \<Rightarrow> subscription \<Rightarrow> bool" where
  "subscription_check s b \<longleftrightarrow>
     (\<forall>y \<in> set (sh_subscriptions s). sub_id y \<noteq> sub_id b \<and>
        (sub_client_app_id b = None \<or> sub_client_app_id y \<noteq> sub_client_app_id b)) \<and>
     sub_user_id b \<in> fst ` set (db_accounts (gd_points (sh_grants s))) \<and> sub_billing_type b \<noteq> OneTime"

definition create_subscription :: "subscription \<Rightarrow> shop_db \<Rightarrow> subscription run" where
  "create_subscription b s =
     Some (if subscription_check s b then (Inr b, s\<lparr>sh_subscriptions := sh_subscriptions s @ [b]\<rparr>)
           else (Inl (DatabaseError ''subscription''), s))"

datatype grant_role_outcome = RoleGranted | RoleAlreadyExists
datatype revoke_role_outcome = RolesRevoked nat | RolesNotFound

definition paid_role :: "string \<Rightarrow> uuid \<Rightarrow> uuid \<Rightarrow> user_role \<Rightarrow> bool" where
  "paid_role source_id user_id role_id r \<longleftrightarrow> ur_source r = ''payment'' \<and> ur_source_id r = Some source_id \<and>
     ur_user_id r = Some user_id \<and> ur_role_id r = role_id"

definition payment_role_row ::
  "env \<Rightarrow> uuid \<Rightarrow> string \<Rightarrow> uuid \<Rightarrow> uuid \<Rightarrow> string option \<Rightarrow> string \<Rightarrow> instant option \<Rightarrow> user_role" where
  "payment_role_row env i realm_id user_id role_id client_id source_id expires_at =
     \<lparr>ur_id = i, ur_user_id = Some user_id, ur_role_id = role_id, ur_realm_id = realm_id, ur_client_id = client_id,
      ur_principal_type = ''user'', ur_principal_id = env_uuid_str env user_id, ur_source = ''payment'',
      ur_source_id = Some source_id, ur_expires_at = expires_at\<rparr>"

text \<open>The primary key and the partial unique index of payment grants.\<close>

definition role_row_taken :: "user_role list \<Rightarrow> user_role \<Rightarrow> bool" where
  "role_row_taken rows r \<longleftrightarrow> (\<exists>y \<in> set rows. ur_id y = ur_id r \<or>
     (ur_source y = ''payment'' \<and> ur_realm_id y = ur_realm_id r \<and> ur_principal_type y = ur_principal_type r \<and>
      ur_principal_id y = ur_principal_id r \<and> ur_role_id y = ur_role_id r \<and> ur_source_id y = ur_source_id r))"

definition grant_role_by_payment ::
  "env \<Rightarrow> string \<Rightarrow> uuid \<Rightarrow> string option \<Rightarrow> string \<Rightarrow> instant option \<Rightarrow> uuid \<Rightarrow> shop_db \<Rightarrow> grant_role_outcome step" where
  "grant_role_by_payment env realm_id user_id client_id source_id expires_at role_id s =
     (if \<exists>r \<in> set (sh_user_roles s). paid_role source_id user_id role_id r then (Inr RoleAlreadyExists, s)
      else
        (let (i, g) = draw_uuid env (sh_grants s);
             s1 = s\<lparr>sh_grants := g\<rparr>;
             row = payment_role_row env i realm_id user_id role_id client_id source_id expires_at
         in if role_row_taken (sh_user_roles s) row then (Inr RoleAlreadyExists, s1)
            else if role_id \<in> set (sh_role_ids s) \<and> realm_id \<in> set (sh_realms s)
            then (Inr RoleGranted, s1\<lparr>sh_user_roles := sh_user_roles s @ [row]\<rparr>)
            else (Inl (InternalServerError ''Failed to grant payment role''), s1)))"

definition revoke_roles_by_payment_source :: "string \<Rightarrow> uuid \<Rightarrow> string \<Rightarrow> shop_db \<Rightarrow> revoke_role_outcome run" where
  "revoke_roles_by_payment_source realm_id user_id source_id s =
     (let hit = (\<lambda>r. ur_source r = ''payment'' \<and> ur_source_id r = Some source_id \<and> ur_user_id r = Some user_id \<and>
                     ur_realm_id r = realm_id);
          n = length (filter hit (sh_user_roles s))
      in Some (Inr (if n = 0 then RolesNotFound else RolesRevoked n),
               s\<lparr>sh_user_roles := filter (\<lambda>r. \<not> hit r) (sh_user_roles s)\<rparr>))"

definition user_has_any_role :: "shop_db \<Rightarrow> string \<Rightarrow> uuid \<Rightarrow> uuid list \<Rightarrow> bool" where
  "user_has_any_role s realm_id user_id role_ids \<longleftrightarrow> role_ids \<noteq> [] \<and>
     (\<exists>r \<in> set (sh_user_roles s). ur_realm_id r = realm_id \<and> ur_user_id r = Some user_id \<and> ur_role_id r \<in> set role_ids)"

text \<open>
  The loop both services have: it stops at the first failing role; what was granted before stays.
  The cache invalidation after it is best effort and changes nothing stored.
\<close>

primrec grant_payment_roles ::
  "env \<Rightarrow> string \<Rightarrow> uuid \<Rightarrow> uuid list \<Rightarrow> string \<Rightarrow> instant option \<Rightarrow> shop_db \<Rightarrow> unit run" where
  "grant_payment_roles env realm_id user_id [] source_id expires_at s = Some (Inr (), s)"
| "grant_payment_roles env realm_id user_id (role_id # role_ids) source_id expires_at s =
     next_step (Some (grant_role_by_payment env realm_id user_id None source_id expires_at role_id s))
       (\<lambda>_. grant_payment_roles env realm_id user_id role_ids source_id expires_at)"

end
