(* ===== verification/Fulfillment.thy ===== *)
theory Fulfillment
  imports Shop
begin

text \<open>
  Fulfilling a paid attempt: the fulfilment service
  (\<open>infra/src/purchase/fulfillment_service.rs\<close>) and the purchase service around it
  (\<open>infra/src/purchase/purchase_service.rs\<close>).  The provider clients that build a checkout page
  are not part of the model: preparing an attempt ends with the attempt's row.
\<close>

section \<open>Fulfilment\<close>

definition is_ascii_space :: "char \<Rightarrow> bool" where
  "is_ascii_space c \<longleftrightarrow> of_char c \<in> {9, 10, 11, 12, 13, 32 :: nat}"

text \<open>\<open>str::trim\<close> on ASCII text.\<close>

definition trim :: "string \<Rightarrow> string" where
  "trim s = rev (dropWhile is_ascii_space (rev (dropWhile is_ascii_space s)))"

definition billing_period_to_days :: "string option \<Rightarrow> i64" where
  "billing_period_to_days period = (case map_option (to_lowercase \<circ> trim) period of
       None \<Rightarrow> 30
     | Some p \<Rightarrow>
         if p \<in> {''daily'', ''day''} then 1
         else if p \<in> {''weekly'', ''week''} then 7
         else if p \<in> {''monthly'', ''month''} then 30
         else if p \<in> {''quarterly'', ''quarter''} then 90
         else if p \<in> {''yearly'', ''annual'', ''annually'', ''year''} then 365
         else 30)"

datatype fulfillment_type = SubscriptionCreated | SubscriptionUpdated | PointsGranted

record points_grant =
  pg_rule_id :: uuid
  pg_bucket_id :: uuid
  pg_result_id :: uuid
  pg_points_type :: string
  pg_points :: "i64 option"
  pg_description :: string

record fulfillment_result =
  fr_fulfillment_type :: fulfillment_type
  fr_subscription_id :: "uuid option"
  fr_point_grants :: "points_grant list"
  fr_granted_at :: instant

definition grant_result_to_points_grant ::
  "distribution_trigger \<Rightarrow> string \<Rightarrow> distribution_grant_result \<Rightarrow> points_grant" where
  "grant_result_to_points_grant trigger payment_provider result =
     (let points_type = credit_type_as_str (fst (credit_pair_for_trigger trigger));
          description = (\<lambda>what. trigger_as_str trigger @ what @ '' ('' @ payment_provider @ '')'')
      in case result of
           ResultFixed rid bucket ledger amount \<Rightarrow>
             \<lparr>pg_rule_id = rid, pg_bucket_id = bucket, pg_result_id = ledger, pg_points_type = points_type,
              pg_points = Some amount, pg_description = description '' grant''\<rparr>
         | ResultQuota rid bucket entitlement \<Rightarrow>
             \<lparr>pg_rule_id = rid, pg_bucket_id = bucket, pg_result_id = entitlement, pg_points_type = points_type,
              pg_points = None, pg_description = description '' quota entitlement''\<rparr>
         | ResultSchedule rid bucket schedule _ \<Rightarrow>
             \<lparr>pg_rule_id = rid, pg_bucket_id = bucket, pg_result_id = schedule, pg_points_type = points_type,
              pg_points = None, pg_description = description '' scheduled grant''\<rparr>)"

definition grant_results_to_points_grants ::
  "distribution_grant_result list \<Rightarrow> distribution_trigger \<Rightarrow> string \<Rightarrow> points_grant list" where
  "grant_results_to_points_grants results trigger payment_provider =
     map (grant_result_to_points_grant trigger payment_provider) results"

definition captured_payment_event ::
  "env \<Rightarrow> payment_attempt \<Rightarrow> uuid \<Rightarrow> distribution_trigger \<Rightarrow> string \<Rightarrow> string \<Rightarrow> distribution_event" where
  "captured_payment_event env attempt mapping_id trigger event_key source_id =
     \<lparr>ev_realm_id = pa_realm_id attempt, ev_user_id = pa_user_id attempt, ev_owner = OwnerEntitlementMapping mapping_id,
      ev_trigger = trigger, ev_event_key = event_key, ev_source_id = source_id,
      ev_effective_from = env_now env, ev_effective_until = None\<rparr>"

definition execute_captured_payment_rules ::
  "ext \<Rightarrow> env \<Rightarrow> payment_attempt \<Rightarrow> uuid \<Rightarrow> distribution_trigger \<Rightarrow> string \<Rightarrow> string \<Rightarrow> shop_db \<Rightarrow> points_grant list run" where
  "execute_captured_payment_rules x env attempt mapping_id trigger event_key source_id s =
     (let refs = find_captured_rule_refs (pay_view s) (pa_realm_id attempt) (pa_id attempt)
      in next_step (on_grants (execute_distribution_event_atomic x env
             (captured_payment_event env attempt mapping_id trigger event_key source_id) (CapturedPaymentRules refs)) s)
           (\<lambda>results s'. Some (Inr (grant_results_to_points_grants results trigger (pa_payment_provider attempt)), s')))"

definition fulfill_one_time_purchase ::
  "ext \<Rightarrow> env \<Rightarrow> payment_attempt \<Rightarrow> string \<Rightarrow> shop_db \<Rightarrow> fulfillment_result run" where
  "fulfill_one_time_purchase x env attempt provider_transaction_id s =
     (case find_entitlement_mapping_by_id s (pa_target_id attempt) of
        None \<Rightarrow> Some (Inl NotFound, s)
      | Some mapping \<Rightarrow>
          if mp_realm_id mapping \<noteq> pa_realm_id attempt then Some (Inl NotFound, s)
          else if \<not> mp_enabled mapping then
            Some (Inr \<lparr>fr_fulfillment_type = PointsGranted, fr_subscription_id = None, fr_point_grants = [],
                       fr_granted_at = env_now env\<rparr>, s)
          else
            next_step (execute_captured_payment_rules x env attempt (mp_id mapping) TriggerTopup
                         (event_key_for_payment env (pa_id attempt)) (env_uuid_str env (pa_id attempt)) s) (\<lambda>point_grants s1.
            next_step (grant_payment_roles env (pa_realm_id attempt) (pa_user_id attempt) (mp_granted_role_ids mapping)
                         (env_uuid_str env (pa_id attempt)) None s1) (\<lambda>_ s2.
              Some (Inr \<lparr>fr_fulfillment_type = PointsGranted, fr_subscription_id = None,
                         fr_point_grants = point_grants, fr_granted_at = env_now env\<rparr>, s2))))"

text \<open>The text of the period an initial grant belongs to.\<close>

definition period_start_token :: "ext \<Rightarrow> subscription \<Rightarrow> string" where
  "period_start_token x b =
     ext_rfc3339 x (case sub_current_period_start b of Some t \<Rightarrow> t | None \<Rightarrow> sub_created_at b)"

definition service_period_days :: "env \<Rightarrow> billing_type \<Rightarrow> entitlement_mapping \<Rightarrow> uuid \<Rightarrow> (core_error, i64) result" where
  "service_period_days env billing_type mapping target_id = (case billing_type of
       Recurring \<Rightarrow> Inr (billing_period_to_days (mp_billing_period mapping))
     | NonRenewing \<Rightarrow>
         (case mp_service_duration_days mapping of
            Some d \<Rightarrow> if 1 \<le> d then Inr d
              else Inl (BadRequest (''Non-renewing mapping '' @ [CHR 0x27] @ env_uuid_str env target_id @ [CHR 0x27] @
                     '' is missing a valid service_duration_days (>= 1)''))
          | None \<Rightarrow> Inl (BadRequest (''Non-renewing mapping '' @ [CHR 0x27] @ env_uuid_str env target_id @ [CHR 0x27] @
                     '' is missing a valid service_duration_days (>= 1)'')))
     | OneTime \<Rightarrow> Inl (InternalServerError ''fulfill_subscription_shape is for subscription-shape billing types only''))"

definition new_subscription ::
  "env \<Rightarrow> uuid \<Rightarrow> payment_attempt \<Rightarrow> string \<Rightarrow> entitlement_mapping \<Rightarrow> billing_type \<Rightarrow> i64 \<Rightarrow> subscription" where
  "new_subscription env i attempt provider_transaction_id mapping billing_type period_days =
     (let now = env_now env; period_end = now + days period_days
      in \<lparr>sub_id = i, sub_realm_id = pa_realm_id attempt, sub_user_id = pa_user_id attempt,
          sub_external_subscription_id = provider_transaction_id,
          sub_external_product_id = mp_external_product_id mapping,
          sub_payment_provider = pa_payment_provider attempt, sub_status = SubActive,
          sub_entitlement_key = mp_entitlement_key mapping, sub_billing_type = billing_type,
          sub_external_price_id = mp_external_price_id mapping, sub_synced_at = Some now,
          sub_current_period_start = Some now, sub_current_period_end = Some period_end,
          sub_cancel_at_period_end = False, sub_client_app_id = None,
          sub_cancel_at = (if billing_type = NonRenewing then Some period_end else None),
          sub_created_at = now, sub_updated_at = now\<rparr>)"

definition fulfilled_subscription :: "subscription \<Rightarrow> points_grant list \<Rightarrow> fulfillment_result" where
  "fulfilled_subscription b point_grants =
     \<lparr>fr_fulfillment_type = SubscriptionCreated, fr_subscription_id = Some (sub_id b),
      fr_point_grants = point_grants, fr_granted_at = sub_created_at b\<rparr>"

definition fulfill_subscription_shape ::
  "ext \<Rightarrow> env \<Rightarrow> payment_attempt \<Rightarrow> string \<Rightarrow> billing_type \<Rightarrow> shop_db \<Rightarrow> fulfillment_result run" where
  "fulfill_subscription_shape x env attempt provider_transaction_id billing_type s =
     (case find_by_external_subscription_id s provider_transaction_id (pa_payment_provider attempt) of
        Some existing \<Rightarrow>
          next_step (execute_captured_payment_rules x env attempt (pa_target_id attempt) TriggerSubscriptionInitial
                       (event_key_for_subscription_period env (sub_id existing) (period_start_token x existing))
                       (env_uuid_str env (pa_id attempt)) s)
            (\<lambda>point_grants s1. Some (Inr (fulfilled_subscription existing point_grants), s1))
      | None \<Rightarrow>
     (case find_entitlement_mapping_by_id s (pa_target_id attempt) of
        None \<Rightarrow> Some (Inl NotFound, s)
      | Some mapping \<Rightarrow>
          if mp_realm_id mapping \<noteq> pa_realm_id attempt then Some (Inl NotFound, s)
          else
     (case service_period_days env billing_type mapping (pa_target_id attempt) of
        Inl e \<Rightarrow> Some (Inl e, s)
      | Inr period_days \<Rightarrow>
          (let (i, g) = draw_uuid env (sh_grants s) in
           next_step (create_subscription
                        (new_subscription env i attempt provider_transaction_id mapping billing_type period_days)
                        (s\<lparr>sh_grants := g\<rparr>)) (\<lambda>created s1.
           if \<not> mp_enabled mapping then Some (Inr (fulfilled_subscription created []), s1)
           else
             next_step (execute_captured_payment_rules x env attempt (mp_id mapping) TriggerSubscriptionInitial
                          (event_key_for_subscription_period env (sub_id created) (period_start_token x created))
                          (env_uuid_str env (pa_id attempt)) s1) (\<lambda>point_grants s2.
             next_step (grant_payment_roles env (pa_realm_id attempt) (pa_user_id attempt) (mp_granted_role_ids mapping)
                          (env_uuid_str env (sub_id created)) (sub_current_period_end created) s2) (\<lambda>_ s3.
               Some (Inr (fulfilled_subscription created point_grants), s3))))))))"

definition fulfill_subscription_purchase ::
  "ext \<Rightarrow> env \<Rightarrow> payment_attempt \<Rightarrow> string \<Rightarrow> shop_db \<Rightarrow> fulfillment_result run" where
  "fulfill_subscription_purchase x env attempt provider_transaction_id =
     fulfill_subscription_shape x env attempt provider_transaction_id Recurring"

definition fulfill_non_renewing_purchase ::
  "ext \<Rightarrow> env \<Rightarrow> payment_attempt \<Rightarrow> string \<Rightarrow> shop_db \<Rightarrow> fulfillment_result run" where
  "fulfill_non_renewing_purchase x env attempt provider_transaction_id =
     fulfill_subscription_shape x env attempt provider_transaction_id NonRenewing"

section \<open>The purchase service\<close>

definition missing_billing_type :: "env \<Rightarrow> uuid \<Rightarrow> core_error" where
  "missing_billing_type env target_id =
     BillingError (''Entitlement mapping '' @ [CHR 0x27] @ env_uuid_str env target_id @ [CHR 0x27] @ '' has no billing_type set'')"

definition resolve_billing_type ::
  "env \<Rightarrow> payment_attempt \<Rightarrow> billing_type option \<Rightarrow> shop_db \<Rightarrow> (core_error, billing_type) result" where
  "resolve_billing_type env attempt billing_type_override s = (case billing_type_override of
       Some bt \<Rightarrow> Inr bt
     | None \<Rightarrow>
         (let missing = BillingError (''Entitlement mapping '' @ [CHR 0x27] @ env_uuid_str env (pa_target_id attempt) @
                [CHR 0x27] @ '' not found for realm '' @ [CHR 0x27] @ pa_realm_id attempt @ [CHR 0x27])
          in and_then (ok_or (find_entitlement_mapping_by_id s (pa_target_id attempt)) missing) (\<lambda>m.
             and_then (ensure (mp_realm_id m = pa_realm_id attempt) missing) (\<lambda>_.
               ok_or (mp_billing_type m) (missing_billing_type env (pa_target_id attempt))))))"

definition fulfill_payment_attempt ::
  "ext \<Rightarrow> env \<Rightarrow> payment_attempt \<Rightarrow> string \<Rightarrow> billing_type option \<Rightarrow> shop_db \<Rightarrow> fulfillment_result run" where
  "fulfill_payment_attempt x env attempt provider_transaction_id billing_type_override s =
     (case resolve_billing_type env attempt billing_type_override s of
        Inl e \<Rightarrow> Some (Inl e, s)
      | Inr OneTime \<Rightarrow> fulfill_one_time_purchase x env attempt provider_transaction_id s
      | Inr Recurring \<Rightarrow> fulfill_subscription_purchase x env attempt provider_transaction_id s
      | Inr NonRenewing \<Rightarrow> fulfill_non_renewing_purchase x env attempt provider_transaction_id s)"

datatype payment_completion_source = InternalApi | ProviderWebhook string

definition validate_completion_source :: "payment_completion_source \<Rightarrow> (core_error, unit) result" where
  "validate_completion_source source = (case source of
       InternalApi \<Rightarrow> Inr ()
     | ProviderWebhook provider \<Rightarrow>
         ensure (provider \<in> {''stripe'', ''creem'', ''apple'', ''google'', ''wechat''})
           (BadRequest (''Unsupported payment completion source provider: '' @ provider)))"

record complete_attempt_input =
  ca_attempt_id :: uuid
  ca_provider_status :: string
  ca_provider_transaction_id :: string
  ca_completed_at :: instant
  ca_source :: payment_completion_source
  ca_billing_type_override :: "billing_type option"
  ca_expected_realm_id :: "string option"

definition complete_succeeded_payment_attempt ::
  "ext \<Rightarrow> env \<Rightarrow> complete_attempt_input \<Rightarrow> shop_db \<Rightarrow> fulfillment_result run" where
  "complete_succeeded_payment_attempt x env input s =
     (case and_then (validate_completion_source (ca_source input)) (\<lambda>_.
             and_then (ok_or (find_payment_attempt_by_id_only (pay_view s) (ca_attempt_id input)) attempt_not_found) (\<lambda>a.
             and_then (ensure (ca_expected_realm_id input \<in> {None, Some (pa_realm_id a)})
                        (Forbidden (''payment attempt '' @ env_uuid_str env (ca_attempt_id input) @
                           '' does not belong to realm '' @ the (ca_expected_realm_id input)))) (\<lambda>_. Inr a))) of
        Inl e \<Rightarrow> Some (Inl e, s)
      | Inr attempt_for_realm \<Rightarrow>
          next_step (on_pay (mark_payment_succeeded env (pa_realm_id attempt_for_realm) (ca_attempt_id input)
                       (ca_provider_status input) (ca_provider_transaction_id input) (ca_completed_at input)) s)
            (\<lambda>marked. fulfill_payment_attempt x env marked (ca_provider_transaction_id input) (ca_billing_type_override input)))"

record purchase_target =
  pt_target_type :: purchasable_target
  pt_target_id :: uuid
  pt_amount :: i64
  pt_currency :: string
  pt_title :: string
  pt_provider_external_product_id :: "string option"
  pt_provider_external_price_id :: "string option"
  pt_billing_period :: "string option"
  pt_billing_type :: "billing_type option"
  pt_is_one_time_role :: bool

definition already_owned :: "string \<Rightarrow> core_error" where
  "already_owned entitlement_key = Conflict (''already_owned:'' @ entitlement_key)"

definition one_time_role_mapping :: "entitlement_mapping \<Rightarrow> bool" where
  "one_time_role_mapping m \<longleftrightarrow> mp_billing_type m = Some OneTime \<and> mp_granted_role_ids m \<noteq> []"

definition resolve_price :: "entitlement_mapping \<Rightarrow> (core_error, i64 \<times> string \<times> string) result" where
  "resolve_price m =
     (case Option.bind (mp_provider_product_info m) (\<lambda>info.
             case (pi_price info, pi_currency info) of
               (Some price, Some currency) \<Rightarrow>
                 Some (price, currency, case pi_name info of Some n \<Rightarrow> n | None \<Rightarrow> mp_entitlement_key m)
             | _ \<Rightarrow> None) of
        Some triple \<Rightarrow> Inr triple
      | None \<Rightarrow> if mp_payment_provider m = ''stripe'' then Inl (PriceInfoMissing (mp_entitlement_key m))
               else Inr (0, ''usd'', mp_entitlement_key m))"

definition resolve_target ::
  "env \<Rightarrow> string \<Rightarrow> uuid \<Rightarrow> string \<Rightarrow> uuid \<Rightarrow> string \<Rightarrow> shop_db \<Rightarrow> (core_error, purchase_target) result" where
  "resolve_target env realm_id user_id target_type target_id payment_provider s =
     and_then (target_from_str target_type) (\<lambda>parsed_target_type.
     and_then (ok_or (find_entitlement_mapping_by_id s target_id) NotFound) (\<lambda>mapping.
     and_then (ensure (mp_realm_id mapping = realm_id \<and> mp_payment_provider mapping = payment_provider)
                (Conflict (''No entitlement mapping found for provider '' @ [CHR 0x27] @ payment_provider @ [CHR 0x27] @
                   '' target '' @ [CHR 0x27] @ env_uuid_str env target_id @ [CHR 0x27] @ '' in realm '' @
                   [CHR 0x27] @ realm_id @ [CHR 0x27]))) (\<lambda>_.
     and_then (ensure (mp_enabled mapping)
                (Conflict (''Entitlement mapping for provider '' @ [CHR 0x27] @ payment_provider @ [CHR 0x27] @
                   '' product '' @ [CHR 0x27] @ env_uuid_str env target_id @ [CHR 0x27] @ '' is disabled''))) (\<lambda>_.
     and_then (ensure (\<not> (one_time_role_mapping mapping \<and>
                          (user_has_any_role s realm_id user_id (mp_granted_role_ids mapping) \<or>
                           has_succeeded_attempt (pay_view s) user_id (mp_id mapping))))
                (already_owned (mp_entitlement_key mapping))) (\<lambda>_.
     and_then (resolve_price mapping) (\<lambda>(amount, currency, title).
       Inr \<lparr>pt_target_type = parsed_target_type, pt_target_id = target_id, pt_amount = amount, pt_currency = currency,
            pt_title = title, pt_provider_external_product_id = Some (mp_external_product_id mapping),
            pt_provider_external_price_id = mp_external_price_id mapping, pt_billing_period = mp_billing_period mapping,
            pt_billing_type = mp_billing_type mapping, pt_is_one_time_role = one_time_role_mapping mapping\<rparr>))))))"

definition attempt_input_for ::
  "env \<Rightarrow> string \<Rightarrow> uuid \<Rightarrow> string \<Rightarrow> purchase_target \<Rightarrow> string option \<Rightarrow> string option
     \<Rightarrow> (core_error, create_attempt_input) result" where
  "attempt_input_for env realm_id user_id payment_provider target provider_reference metadata =
     and_then (ok_or (pt_billing_type target) (missing_billing_type env (pt_target_id target))) (\<lambda>bt.
       Inr \<lparr>ci_realm_id = realm_id, ci_user_id = user_id, ci_payment_provider = payment_provider,
            ci_target_type = target_to_string (pt_target_type target), ci_target_id = pt_target_id target,
            ci_billing_type = bt, ci_amount = (if 0 < pt_amount target then pt_amount target else 1),
            ci_currency = pt_currency target, ci_provider_reference = provider_reference, ci_metadata = metadata,
            ci_is_one_time_role = pt_is_one_time_role target\<rparr>)"

definition create_attempt_for_target ::
  "env \<Rightarrow> string \<Rightarrow> uuid \<Rightarrow> string \<Rightarrow> string \<Rightarrow> uuid \<Rightarrow> string option \<Rightarrow> string option \<Rightarrow> shop_db
     \<Rightarrow> (payment_attempt \<times> purchase_target) run" where
  "create_attempt_for_target env realm_id user_id payment_provider target_type target_id provider_reference metadata s =
     (case and_then (resolve_target env realm_id user_id target_type target_id payment_provider s) (\<lambda>target.
             and_then (attempt_input_for env realm_id user_id payment_provider target provider_reference metadata)
               (\<lambda>input. Inr (target, input))) of
        Inl e \<Rightarrow> Some (Inl e, s)
      | Inr (target, input) \<Rightarrow>
          next_step (on_pay (create_payment_attempt env input) s) (\<lambda>attempt s'. Some (Inr (attempt, target), s')))"

definition prepare_payment_attempt ::
  "env \<Rightarrow> string \<Rightarrow> uuid \<Rightarrow> string option \<Rightarrow> string \<Rightarrow> string \<Rightarrow> uuid \<Rightarrow> string option \<Rightarrow> shop_db
     \<Rightarrow> (payment_attempt \<times> purchase_target) run" where
  "prepare_payment_attempt env realm_id user_id user_email payment_provider target_type target_id metadata s =
     (if user_email = None then Some (Inl (BadRequest ''A formal user email is required for payment providers''), s)
      else create_attempt_for_target env realm_id user_id payment_provider target_type target_id None metadata s)"

definition create_iap_payment_attempt ::
  "env \<Rightarrow> string \<Rightarrow> uuid \<Rightarrow> string \<Rightarrow> purchasable_target \<Rightarrow> uuid \<Rightarrow> string \<Rightarrow> string option \<Rightarrow> shop_db \<Rightarrow> payment_attempt run" where
  "create_iap_payment_attempt env realm_id user_id payment_provider target_type target_id provider_reference metadata s =
     next_step (create_attempt_for_target env realm_id user_id payment_provider (target_to_string target_type) target_id
                  (Some provider_reference) metadata s)
       (\<lambda>(attempt, _) s'. Some (Inr attempt, s'))"

end
