(* ===== verification/SubscriptionService.thy ===== *)
theory SubscriptionService
  imports Fulfillment GrantScheduler
begin

text \<open>
  The subscription service (\<open>domain/src/points/subscription_service.rs\<close>): what a renewal, an
  upgrade, a downgrade and a cancellation do to the points and the roles of the subscriber, and the
  direct quota commands.
\<close>

datatype cancel_mode = DefaultCancel | ImmediateCancel

definition on_tx :: "(points_db \<Rightarrow> 'a tx) \<Rightarrow> shop_db \<Rightarrow> 'a run" where
  "on_tx f s = (case on_points f (sh_grants s) of
       Inl e \<Rightarrow> Some (Inl e, s)
     | Inr (y, g) \<Rightarrow> Some (Inr y, s\<lparr>sh_grants := g\<rparr>))"

definition grant_quota_entitlement ::
  "env \<Rightarrow> string \<Rightarrow> uuid \<Rightarrow> uuid \<Rightarrow> credit_type \<Rightarrow> quota_source_type \<Rightarrow> string \<Rightarrow> quota_window list \<Rightarrow> instant
     \<Rightarrow> instant option \<Rightarrow> string \<Rightarrow> shop_db \<Rightarrow> points_quota_entitlement run" where
  "grant_quota_entitlement env realm_id user_id bucket_id credit_type source_type source_id quota_windows
      effective_from effective_until idempotency_key s =
     (let (i, g) = draw_uuid env (sh_grants s)
      in on_tx (grant_quota_entitlement_atomic
           \<lparr>ent_id = i, ent_user_id = user_id, ent_realm_id = realm_id, ent_bucket_id = bucket_id,
            ent_credit_type = credit_type, ent_source_type = source_type, ent_source_id = source_id,
            ent_quota_windows = quota_windows, ent_effective_from = effective_from,
            ent_effective_until = effective_until, ent_status = QuotaActive, ent_idempotency_key = idempotency_key,
            ent_distribution_event_id = None, ent_distribution_rule_id = None,
            ent_created_at = env_now env, ent_updated_at = env_now env\<rparr>) (s\<lparr>sh_grants := g\<rparr>))"

definition revoke_quota_entitlement ::
  "env \<Rightarrow> string \<Rightarrow> uuid \<Rightarrow> uuid \<Rightarrow> credit_type \<Rightarrow> string \<Rightarrow> instant \<Rightarrow> shop_db \<Rightarrow> unit run" where
  "revoke_quota_entitlement env realm_id user_id bucket_id credit_type source_id revoke_at s =
     on_tx (\<lambda>p. Inr ((), revoke_quota_entitlement_atomic env realm_id user_id bucket_id credit_type source_id revoke_at p)) s"

definition renewal_event ::
  "ext \<Rightarrow> env \<Rightarrow> uuid \<Rightarrow> uuid \<Rightarrow> string \<Rightarrow> entitlement_mapping \<Rightarrow> instant \<Rightarrow> instant \<Rightarrow> distribution_event" where
  "renewal_event x env user_id subscription_id realm_id mapping period_start period_end =
     \<lparr>ev_realm_id = realm_id, ev_user_id = user_id, ev_owner = OwnerEntitlementMapping (mp_id mapping),
      ev_trigger = TriggerSubscriptionRenewal,
      ev_event_key = event_key_for_subscription_period env subscription_id (ext_rfc3339 x period_start),
      ev_source_id = env_uuid_str env subscription_id,
      ev_effective_from = period_start, ev_effective_until = Some period_end\<rparr>"

definition handle_subscription_paid ::
  "ext \<Rightarrow> env \<Rightarrow> uuid \<Rightarrow> uuid \<Rightarrow> string \<Rightarrow> entitlement_mapping \<Rightarrow> bool \<Rightarrow> instant \<Rightarrow> instant \<Rightarrow> shop_db
     \<Rightarrow> distribution_grant_result list run" where
  "handle_subscription_paid x env user_id subscription_id realm_id mapping is_renewal period_start period_end s =
     (if \<not> mp_enabled mapping then Some (Inr [], s)
      else
        next_step (if is_renewal
                   then on_grants (execute_distribution_event_atomic x env
                          (renewal_event x env user_id subscription_id realm_id mapping period_start period_end)
                          CurrentOwnerRules) s
                   else Some (Inr [], s)) (\<lambda>results s1.
        next_step (grant_payment_roles env realm_id user_id (mp_granted_role_ids mapping)
                     (env_uuid_str env subscription_id) (Some period_end) s1) (\<lambda>_ s2. Some (Inr results, s2))))"

definition upgrade_event ::
  "env \<Rightarrow> uuid \<Rightarrow> string \<Rightarrow> uuid \<Rightarrow> entitlement_mapping \<Rightarrow> instant \<Rightarrow> string \<Rightarrow> distribution_event" where
  "upgrade_event env user_id realm_id subscription_id new_mapping period_end provider_event_id =
     \<lparr>ev_realm_id = realm_id, ev_user_id = user_id, ev_owner = OwnerEntitlementMapping (mp_id new_mapping),
      ev_trigger = TriggerSubscriptionUpgrade,
      ev_event_key = event_key_for_subscription_upgrade env subscription_id provider_event_id,
      ev_source_id = env_uuid_str env subscription_id,
      ev_effective_from = env_now env, ev_effective_until = Some period_end\<rparr>"

definition handle_subscription_upgrade ::
  "ext \<Rightarrow> env \<Rightarrow> uuid \<Rightarrow> string \<Rightarrow> uuid \<Rightarrow> entitlement_mapping \<Rightarrow> instant \<Rightarrow> string \<Rightarrow> shop_db
     \<Rightarrow> distribution_grant_result list run" where
  "handle_subscription_upgrade x env user_id realm_id subscription_id new_mapping period_end provider_event_id s =
     (if \<not> mp_enabled new_mapping then Some (Inr [], s)
      else on_grants (replace_distribution_source_atomic x env (env_uuid_str env subscription_id) RevUpgrade
             ''Subscription upgrade'' (upgrade_event env user_id realm_id subscription_id new_mapping period_end provider_event_id)
             CurrentOwnerRules) s)"

text \<open>A downgrade only logs.\<close>

definition handle_subscription_downgrade ::
  "uuid \<Rightarrow> uuid \<Rightarrow> string \<Rightarrow> entitlement_mapping \<Rightarrow> entitlement_mapping \<Rightarrow> shop_db \<Rightarrow> unit run" where
  "handle_subscription_downgrade user_id subscription_id realm_id old_mapping new_mapping s = Some (Inr (), s)"

definition cancel_key :: "env \<Rightarrow> uuid \<Rightarrow> string" where
  "cancel_key env subscription_id = ''subscription-cancel:'' @ env_uuid_str env subscription_id"

definition handle_subscription_cancel ::
  "env \<Rightarrow> uuid \<Rightarrow> string \<Rightarrow> uuid \<Rightarrow> cancel_mode \<Rightarrow> shop_db \<Rightarrow> revoke_points_output run" where
  "handle_subscription_cancel env user_id realm_id subscription_id mode s =
     (if mode = DefaultCancel then on_tx (\<lambda>p. Inr (empty_output env p)) s
      else
        next_step (on_tx (revoke_distribution_source_atomic env realm_id user_id (env_uuid_str env subscription_id)
                     RevCancel ''Subscription cancelled'' (cancel_key env subscription_id)) s) (\<lambda>output s1.
        next_step (revoke_roles_by_payment_source realm_id user_id (env_uuid_str env subscription_id) s1) (\<lambda>_ s2.
          Some (Inr output, s2))))"

end
