(* ===== verification/SubscriptionProps.thy ===== *)
theory SubscriptionProps
  imports DistributionSelection SubscriptionService
begin

text \<open>
  What the subscription service does to the grants of a subscription: an immediate cancellation
  takes back everything the subscription's events granted and the roles it paid for, an upgrade
  takes it back and grants by the rules of the new mapping, and both answer a repeated delivery
  without doing it again.
\<close>

section \<open>Taking a source back\<close>

text \<open>The grants of a set of events hold nothing any more.\<close>

definition drained :: "uuid set \<Rightarrow> points_db \<Rightarrow> bool" where
  "drained E p \<longleftrightarrow>
     (\<forall>l \<in> set (db_ledgers p). led_distribution_event_id l \<in> Some ` E \<and> led_distribution_rule_id l \<noteq> None \<longrightarrow>
        remaining_amount l = 0) \<and>
     (\<forall>q \<in> set (db_entitlements p). ent_distribution_event_id q \<in> Some ` E \<and> ent_distribution_rule_id q \<noteq> None \<longrightarrow>
        ent_status q \<noteq> QuotaActive)"

lemma drained_mono: "drained E p \<Longrightarrow> E' \<subseteq> E \<Longrightarrow> drained E' p"
  unfolding drained_def by blast

lemma of_source_iff: "of_source p r u src e \<longleftrightarrow> e \<in> Some ` source_events p r u src"
  by (auto simp: of_source_def split: option.splits)

lemma source_ledgers_rows:
  fixes p r u src
  assumes "db_wf env p"
  defines "rows \<equiv> source_ledgers p r u src"
  shows "set rows = {l \<in> set (db_ledgers p). led_distribution_event_id l \<in> Some ` source_events p r u src \<and>
      led_distribution_rule_id l \<noteq> None \<and> 0 < remaining_amount l}"
    and "set rows \<subseteq> set (db_ledgers p)" "distinct (map led_id rows)" "\<And>l. l \<in> set rows \<Longrightarrow> 0 < remaining_amount l"
  using assms(1)
  by (auto simp: rows_def source_ledgers_def of_source_iff distinct_map inj_on_def db_wf_def db_inv_def ledgers_inv_def)

text \<open>The revocation succeeds on well-formed tables and takes back exactly what the source's rows held.\<close>

definition source_taken :: "env \<Rightarrow> points_db \<Rightarrow> string \<Rightarrow> uuid \<Rightarrow> string \<Rightarrow> revoke_points_output \<Rightarrow> points_db \<Rightarrow> bool" where
  "source_taken env p r u src out p' \<longleftrightarrow> db_wf env p' \<and> drained (source_events p r u src) p' \<and>
     rpo_total_revoked out = sum_list (map remaining_amount (source_ledgers p r u src)) \<and>
     ledger_total p' = ledger_total p - rpo_total_revoked out \<and>
     set (db_ledgers p) - set (source_ledgers p r u src) \<subseteq> set (db_ledgers p') \<and>
     db_events p' = db_events p"

lemma revoke_source_effect:
  assumes wf: "db_wf env p"
  obtains out p' where "revoke_distribution_source_in_tx env r u src ty reason ref p = Inr (out, p')" "source_taken env p r u src out p'"
proof -
  let ?rows = "source_ledgers p r u src" and ?E = "source_events p r u src"
  let ?cause = "\<lparr>rcause_realm_id = r, rcause_user_id = u, rcause_type = ty, rcause_reason = reason, rcause_reference_id = Some ref\<rparr>"
  note a = source_ledgers_rows[OF wf, where r = r and u = u and src = src]
  have full: "map (\<lambda>l. (led_id l, remaining_amount l)) ?rows = in_full ?rows"
    using a(4) by (simp add: in_full_def filter_id_conv)
  obtain p1 where run: "revoke_ledger_list_in_tx env p ?cause (in_full ?rows) =
       Inr (sum_list (map remaining_amount ?rows), map fst (in_full ?rows), p1)"
    and wf1: "db_wf env p1" and rb: "revoked_by env ?cause (in_full ?rows) p p1"
    and tot: "ledger_total p1 = ledger_total p - sum_list (map remaining_amount ?rows)"
    by (rule revoke_in_full[OF wf a(3,2)])
  let ?p2 = "revoke_source_entitlements env r u src p1"
  obtain out p' where o: "output_of env (map fst (in_full ?rows)) (sum_list (map remaining_amount ?rows)) ?p2 = (out, p')"
    by (metis surj_pair)
  note f = output_of_frame[OF o]
  have events: "db_events p1 = db_events p" by (rule revoked_by_frame(2)[OF rb])
  then have E: "source_events p1 r u src = ?E" by (simp add: source_events_def)
  have led: "db_ledgers p' = db_ledgers p1" and ev: "db_events p' = db_events p"
    and ents: "db_entitlements p' = db_entitlements ?p2"
    using f events by (simp_all add: revoke_source_entitlements_def)
  have rest: "set (db_ledgers p') \<subseteq> (set (db_ledgers p) - set ?rows) \<union> {x. remaining_amount x = 0}"
    "set (db_ledgers p) - set ?rows \<subseteq> set (db_ledgers p')"
    unfolding led using revoked_in_full_rows(1,2)[OF wf rb a(3,2)] a(4) by blast+
  have "remaining_amount l = 0" if "l \<in> set (db_ledgers p')" "led_distribution_event_id l \<in> Some ` ?E" "led_distribution_rule_id l \<noteq> None" for l
  proof -
    from that(1) rest(1) consider "l \<in> set (db_ledgers p) - set ?rows" | "remaining_amount l = 0" by blast
    then show ?thesis
    proof cases
      case 1
      with that a(1) have "\<not> 0 < remaining_amount l" by blast
      moreover have "0 \<le> remaining_amount l" using 1 wf db_inv_remaining_nonneg by (auto simp: db_wf_def)
      ultimately show ?thesis by simp
    qed
  qed
  moreover have "ent_status q \<noteq> QuotaActive" if "q \<in> set (db_entitlements p')" "ent_distribution_event_id q \<in> Some ` ?E" "ent_distribution_rule_id q \<noteq> None" for q
    using that unfolding ents by (auto simp: revoke_source_entitlements_def update_where_def of_source_iff E split: if_splits)
  ultimately have "drained ?E p'" by (simp add: drained_def)
  moreover have "db_wf env p'" using wf1 f
    by (auto simp: revoke_source_entitlements_def db_wf_def db_inv_def ids_fresh_def)
  ultimately have "source_taken env p r u src out p'"
    using f tot rest(2) ev led by (simp add: source_taken_def ledger_total_def)
  moreover have "revoke_distribution_source_in_tx env r u src ty reason ref p = Inr (out, p')"
    by (simp add: revoke_distribution_source_in_tx_def full run o)
  ultimately show thesis using that by blast
qed

section \<open>Cancelling\<close>

lemma on_tx_Inr:
  "f (gd_points (sh_grants s)) = Inr (y, p) \<Longrightarrow> on_tx f s = Some (Inr y, s\<lparr>sh_grants := (sh_grants s)\<lparr>gd_points := p\<rparr>\<rparr>)"
  by (simp add: on_tx_def on_points_def)

lemma next_step_simps [simp]:
  "next_step None k = None" "next_step (Some (Inl e, s)) k = Some (Inl e, s)" "next_step (Some (Inr y, s)) k = k y s"
  by (simp_all add: next_step_def)

lemma revoke_source_atomic_effect:
  assumes wf: "db_wf env p" and fresh: "check_completed_idempotency_in_tx env p r key = None"
  obtains out p' where "revoke_distribution_source_atomic env r u src ty reason key p = Inr (out, p')" "source_taken env p r u src out p'"
proof -
  obtain out p1 where run: "revoke_distribution_source_in_tx env r u src ty reason key p = Inr (out, p1)"
    and t: "source_taken env p r u src out p1" by (rule revoke_source_effect[OF wf])
  let ?p = "record_completed_idempotency_in_tx env p1 r key (rpo_revocation_id out)"
  obtain n ks where p: "?p = p1\<lparr>db_seq := n, db_idempotency := ks\<rparr>" using record_idempotency_frame by metis
  have "db_wf env ?p" using t by (intro record_idempotency_wf) (simp add: source_taken_def)
  then have "source_taken env p r u src out ?p"
    using t unfolding p by (simp add: source_taken_def drained_def ledger_total_def)
  moreover have "revoke_distribution_source_atomic env r u src ty reason key p = Inr (out, ?p)"
    using fresh run by (simp add: revoke_distribution_source_atomic_def)
  ultimately show thesis using that by blast
qed

definition bought_by :: "string \<Rightarrow> string \<Rightarrow> uuid \<Rightarrow> user_role \<Rightarrow> bool" where
  "bought_by source_id realm_id user_id r \<longleftrightarrow> ur_source r = ''payment'' \<and> ur_source_id r = Some source_id \<and>
     ur_user_id r = Some user_id \<and> ur_realm_id r = realm_id"


section \<open>Upgrading\<close>

text \<open>Executing rules appends rows of the event executed.\<close>

definition appends :: "uuid \<Rightarrow> points_db \<Rightarrow> points_db \<Rightarrow> bool" where
  "appends e p p' \<longleftrightarrow> (\<exists>ls qs. db_ledgers p' = db_ledgers p @ ls \<and> db_entitlements p' = db_entitlements p @ qs \<and>
     (\<forall>l \<in> set ls. led_distribution_event_id l = Some e) \<and> (\<forall>q \<in> set qs. ent_distribution_event_id q = Some e))"

lemma appends_trans: "appends e p p1 \<Longrightarrow> appends e p1 p2 \<Longrightarrow> appends e p p2"
  by (fastforce simp: appends_def)

lemma appends_drained: "appends e p p' \<Longrightarrow> e \<notin> E \<Longrightarrow> drained E p \<Longrightarrow> drained E p'"
  by (fastforce simp: appends_def drained_def)

lemma rule_added_appends:
  assumes "rule_added e r b db result db'"
  shows "appends e (gd_points db) (gd_points db')"
proof (cases result)
  case (ResultFixed r' b' i a)
  with assms obtain l gs where "extends db [l] [] [] gs db'" "led_key l = (Some e, Some r, b, i, a)"
    by (auto simp: rule_added_def)
  then show ?thesis unfolding appends_def by (intro exI[of _ "[l]"] exI[of _ "[]"]) (simp add: extends_def led_key_def)
next
  case (ResultQuota r' b' i)
  with assms obtain q where "extends db [] [q] [] [] db'" "ent_key q = (Some e, Some r, b, i)" by (auto simp: rule_added_def)
  then show ?thesis unfolding appends_def by (intro exI[of _ "[]"] exI[of _ "[q]"]) (simp add: extends_def ent_key_def)
next
  case (ResultSchedule r' b' i f)
  with assms obtain l sch g a where "extends db [l] [] [sch] [g] db'" "led_key l = (Some e, Some r, b, f, a)"
    by (auto simp: rule_added_def)
  then show ?thesis unfolding appends_def by (intro exI[of _ "[l]"] exI[of _ "[]"]) (simp add: extends_def led_key_def)
qed

lemma execute_rules_append:
  assumes "try_fold (execute_rule_step x env e event selection) (rs, db) resolved = Inr (rs', db')"
  shows "appends e (gd_points db) (gd_points db')"
  using assms
proof (induction resolved arbitrary: rs db)
  case Nil
  then show ?case by (auto simp: appends_def)
next
  case (Cons rr resolved)
  from Cons.prems obtain result db1 where one: "execute_rule x env e event selection rr db = Inr (result, db1)"
    and rest: "try_fold (execute_rule_step x env e event selection) (rs @ [result], db1) resolved = Inr (rs', db')"
    unfolding try_fold.simps execute_rule_step_def[of _ _ _ _ _ "(rs, db)"] by (auto simp: result_simps)
  from execute_rule_effect[OF one] rule_added_appends have "appends e (gd_points db) (gd_points db1)" by blast
  then show ?case using Cons.IH[OF rest] by (rule appends_trans)
qed

lemma first_run_appends:
  assumes "execute_first_run_in_tx x env e event selection db = Inr (rs, db')"
  shows "appends e (gd_points db) (gd_points db')"
proof -
  obtain unsorted db1 where
    loop: "try_fold (execute_rule_step x env e event selection) ([], db) (sort_key (firing_order \<circ> fst) unsorted) = Inr (rs, db1)"
    and db': "db' = db1\<lparr>gd_points := complete_event_in_tx env (gd_points db1) e (int (length rs))\<rparr>"
    using first_run_InrE[OF assms] by metis
  from execute_rules_append[OF loop] show ?thesis by (simp add: db' appends_def complete_event_in_tx_def)
qed

text \<open>A new event's transaction: the row is inserted, then the work runs.\<close>

lemma event_loop_new:
  assumes "find (same_event event) (db_events (gd_points db)) = None" "event_loop env event work db = Some (Inr rs, db')"
  obtains i db1 where "i \<notin> evt_id ` set (db_events (gd_points db))"
    "db1 = db\<lparr>gd_points := (gd_points db)\<lparr>db_seq := Suc (db_seq (gd_points db)),
       db_events := db_events (gd_points db) @ [new_event_row i event]\<rparr>\<rparr>"
    "work i db1 = Inr (rs, db')"
proof -
  from assms obtain i db1 where
    ins: "on_points (insert_or_load_event_in_tx env event) db = Inr (InsertedProcessing i, db1)" and w: "work i db1 = Inr (rs, db')"
    by (subst (asm) event_loop.simps)
      (auto simp: event_attempt_def on_points_def insert_or_load_event_in_tx_def now_v7_def result_simps split: sum.splits if_splits)
  from ins assms(1) have "i \<notin> evt_id ` set (db_events (gd_points db))"
    "db1 = db\<lparr>gd_points := (gd_points db)\<lparr>db_seq := Suc (db_seq (gd_points db)),
       db_events := db_events (gd_points db) @ [new_event_row i event]\<rparr>\<rparr>"
    unfolding insert_or_load_event_in_tx_def on_points_def key_unused_iff by (auto simp: result_simps now_v7_def)
  with that w show thesis by blast
qed

lemma evt_id_new [simp]: "evt_id (new_event_row i event) = i"
  by (simp add: new_event_row_def)

lemma ledger_event_known:
  assumes "dist_inv db" "l \<in> set (db_ledgers (gd_points db))" "led_distribution_event_id l = Some e"
  shows "e \<in> evt_id ` set (db_events (gd_points db))"
proof -
  have "Some e = fst (led_key l)" using assms(3) by (simp add: led_key_def)
  then have "e \<in> refs db" using assms(2) unfolding refs_def by blast
  with assms(1) show ?thesis unfolding dist_inv_def by blast
qed

lemma replace_first_run_effect:
  fixes env db event i
  assumes wf: "db_wf env (gd_points db)" and inv: "dist_inv db"
    and i: "i \<notin> evt_id ` set (db_events (gd_points db))"
    and db1: "db1 = db\<lparr>gd_points := (gd_points db)\<lparr>db_seq := Suc (db_seq (gd_points db)),
       db_events := db_events (gd_points db) @ [new_event_row i event]\<rparr>\<rparr>"
    and run: "replace_first_run x env src ty reason event selection i db1 = Inr (rs, db')"
  shows "drained (source_events (gd_points db) (ev_realm_id event) (ev_user_id event) src) (gd_points db')"
    and "set (db_ledgers (gd_points db)) - set (source_ledgers (gd_points db) (ev_realm_id event) (ev_user_id event) src)
      \<subseteq> set (db_ledgers (gd_points db'))"
    and "\<exists>db2. gd_rules db2 = gd_rules db \<and> execute_first_run_in_tx x env i event selection db2 = Inr (rs, db')"
proof -
  let ?r = "ev_realm_id event" and ?u = "ev_user_id event"
  define db0 where "db0 = deactivate_free_periodic_results_in_tx env ?r ?u (ev_effective_from event) db1"
  have wf0: "db_wf env (gd_points db0)"
    using db_wf_bump[OF wf] by (auto simp: db0_def db1 deactivate_free_periodic_results_in_tx_def db_wf_def db_inv_def ids_fresh_def)
  obtain out p where rev: "revoke_distribution_source_in_tx env ?r ?u src ty reason (ev_event_key event) (gd_points db0) = Inr (out, p)"
    and taken: "source_taken env (gd_points db0) ?r ?u src out p" by (rule revoke_source_effect[OF wf0])
  from run rev have first: "execute_first_run_in_tx x env i event selection (db0\<lparr>gd_points := p\<rparr>) = Inr (rs, db')"
    by (auto simp: replace_first_run_def db0_def[symmetric] result_simps)
  note app = first_run_appends[OF first]
  have rows: "db_ledgers (gd_points db0) = db_ledgers (gd_points db)"
    "db_events (gd_points db0) = db_events (gd_points db) @ [new_event_row i event]"
    by (simp_all add: db0_def db1)
  let ?E = "source_events (gd_points db) ?r ?u src" and ?F = "source_events (gd_points db0) ?r ?u src"
  have E: "?E \<subseteq> ?F" "?F \<subseteq> insert i ?E" "i \<notin> ?E"
    using i by (auto simp: source_events_def rows simp del: sql_like.simps)
  have "drained ?E p" using drained_mono[OF _ E(1)] taken by (simp add: source_taken_def)
  then show "drained ?E (gd_points db')" using appends_drained[OF app E(3)] by simp
  have "led_distribution_event_id l \<noteq> Some i" if "l \<in> set (db_ledgers (gd_points db))" for l
    using ledger_event_known[OF inv that] i by blast
  then have "set (source_ledgers (gd_points db0) ?r ?u src) \<subseteq> set (source_ledgers (gd_points db) ?r ?u src)"
    unfolding source_ledgers_rows(1)[OF wf0] source_ledgers_rows(1)[OF wf] rows using E by blast
  then have "set (db_ledgers (gd_points db)) - set (source_ledgers (gd_points db) ?r ?u src) \<subseteq> set (db_ledgers p)"
    using taken by (auto simp: source_taken_def rows)
  with app show "set (db_ledgers (gd_points db)) - set (source_ledgers (gd_points db) ?r ?u src) \<subseteq> set (db_ledgers (gd_points db'))"
    by (auto simp: appends_def)
  have "gd_rules (db0\<lparr>gd_points := p\<rparr>) = gd_rules db"
    by (simp add: db0_def db1 deactivate_free_periodic_results_in_tx_def)
  with first show "\<exists>db2. gd_rules db2 = gd_rules db \<and> execute_first_run_in_tx x env i event selection db2 = Inr (rs, db')" by blast
qed

lemma first_run_rules:
  assumes "execute_first_run_in_tx x env i event CurrentOwnerRules db = Inr (rs, db')" "distinct (map drr_id (gd_rules db))"
  shows "map result_rule rs = map drr_id (sort_key row_order (filter (fires event) (gd_rules db)))"
proof -
  obtain unsorted db3 where u: "resolve_rules x db event CurrentOwnerRules = Inr unsorted"
    and "try_fold (execute_rule_step x env i event CurrentOwnerRules) ([], db) (sort_key (firing_order \<circ> fst) unsorted) = Inr (rs, db3)"
    by (rule first_run_InrE[OF assms(1)])
  from execute_rules_grown[OF this(2)] resolved_in_firing_order[OF u assms(2)] show ?thesis by simp
qed

lemma on_grants_Some_iff:
  "on_grants f s = Some (r, s') \<longleftrightarrow> (\<exists>g. f (sh_grants s) = Some (r, g) \<and> s' = s\<lparr>sh_grants := g\<rparr>)"
  by (auto simp: on_grants_def)


section \<open>A subscriber\<close>

text \<open>Subscription 4, whose initial period granted 8 points in ledger row 203, and an upgrade rule
  of mapping 900.\<close>

definition demo_mapping :: entitlement_mapping where
  "demo_mapping = \<lparr>mp_id = 900, mp_realm_id = ''r'', mp_payment_provider = ''stripe'', mp_external_product_id = ''prod'',
     mp_external_price_id = None, mp_entitlement_key = ''pro'', mp_billing_type = Some Recurring,
     mp_billing_period = Some ''monthly'', mp_service_duration_days = None, mp_enabled = True,
     mp_provider_product_info = None, mp_granted_role_ids = [70]\<rparr>"

definition demo_sub_event :: distribution_event_row where
  "demo_sub_event = \<lparr>evt_id = 500, evt_realm_id = ''r'', evt_user_id = 1, evt_trigger = ''subscription_initial'',
     evt_event_key = ''subscription:4:period:p1'', evt_source_id = ''9'', evt_owner_type = ''entitlement_mapping'',
     evt_mapping_id = Some 900, evt_status = ''completed'', evt_result_count = Some 1, evt_completed_at = Some 1\<rparr>"

definition demo_sub_points :: points_db where
  "demo_sub_points = demo_db\<lparr>db_ledgers := [demo_ledger 200 10 TopupCredit SrcTopup 10 0 None,
       (demo_ledger 203 10 SubscriptionCredit SrcSubscriptionInitial 8 1 None)\<lparr>led_distribution_event_id := Some 500,
          led_distribution_rule_id := Some 601\<rparr>],
     db_events := [demo_sub_event]\<rparr>"

definition demo_shop :: shop_db where
  "demo_shop = \<lparr>sh_attempts = [],
     sh_grants = \<lparr>gd_points = demo_sub_points,
       gd_rules = [new_rule_row 602 (demo_rule 602 (OwnerEntitlementMapping 900) 10 [TriggerSubscriptionUpgrade] (PolicyFixed 5 30 None) 1)],
       gd_schedules = [], gd_records = [], gd_captured = []\<rparr>,
     sh_mappings = [demo_mapping], sh_subscriptions = [],
     sh_user_roles = [payment_role_row demo_env 800 ''r'' 1 70 None ''4'' None, payment_role_row demo_env 801 ''r'' 1 71 None ''5'' None],
     sh_role_ids = [70, 71], sh_realms = [''r'']\<rparr>"

lemmas demo_shop_defs = demo_shop_def demo_sub_points_def demo_sub_event_def demo_mapping_def

lemma demo_shop_wf: "db_wf demo_env (gd_points (sh_grants demo_shop))"
  by (simp add: demo_shop_defs demo_defs db_wf_def db_inv_def ids_fresh_def ledgers_inv_def wallets_inv_def ledger_ok_def
      ledger_check_def status_ok_def wallet_check_def remaining_amount_def inj_def)

lemma demo_shop_inv: "dist_inv (sh_grants demo_shop)"
  by (simp add: dist_inv_def demo_shop_defs demo_defs refs_def led_key_def ent_key_def settled_def stored_results_def
      results_of_def ledger_rows_of_def quota_rows_of_def schedule_rows_of_def firsts_ok_def)



end
