(* ===== verification/PurchaseProps.thy ===== *)
theory PurchaseProps
  imports PaymentAttemptProps SubscriptionProps
begin

text \<open>
  A paid attempt is fulfilled once.  Completing an attempt runs several transactions; delivered
  again, each of them finds what the first delivery left: the attempt already succeeded, the
  subscription already created, the distribution event already completed, the roles already held.
\<close>

section \<open>Stores that differ in nothing granted\<close>

text \<open>Identifiers were drawn and attempt rows touched without a change of status; nothing else.\<close>

definition quiet :: "shop_db \<Rightarrow> shop_db \<Rightarrow> bool" where
  "quiet s s' \<longleftrightarrow> (\<exists>n as. s' = s\<lparr>sh_attempts := as,
       sh_grants := (sh_grants s)\<lparr>gd_points := (gd_points (sh_grants s))\<lparr>db_seq := n\<rparr>\<rparr>\<rparr> \<and>
     map (\<lambda>a. (pa_id a, pa_status a)) as = map (\<lambda>a. (pa_id a, pa_status a)) (sh_attempts s))"

lemma quietI:
  "s' = s\<lparr>sh_attempts := as, sh_grants := (sh_grants s)\<lparr>gd_points := (gd_points (sh_grants s))\<lparr>db_seq := n\<rparr>\<rparr>\<rparr> \<Longrightarrow>
     map (\<lambda>a. (pa_id a, pa_status a)) as = map (\<lambda>a. (pa_id a, pa_status a)) (sh_attempts s) \<Longrightarrow> quiet s s'"
  unfolding quiet_def by blast

lemma quiet_trans:
  assumes "quiet s s1" "quiet s1 s2"
  shows "quiet s s2"
proof -
  from assms obtain n as m bs where
    "s1 = s\<lparr>sh_attempts := as, sh_grants := (sh_grants s)\<lparr>gd_points := (gd_points (sh_grants s))\<lparr>db_seq := n\<rparr>\<rparr>\<rparr>"
    "map (\<lambda>a. (pa_id a, pa_status a)) as = map (\<lambda>a. (pa_id a, pa_status a)) (sh_attempts s)"
    "s2 = s1\<lparr>sh_attempts := bs, sh_grants := (sh_grants s1)\<lparr>gd_points := (gd_points (sh_grants s1))\<lparr>db_seq := m\<rparr>\<rparr>\<rparr>"
    "map (\<lambda>a. (pa_id a, pa_status a)) bs = map (\<lambda>a. (pa_id a, pa_status a)) (sh_attempts s1)"
    unfolding quiet_def by blast
  then show ?thesis by (intro quietI[where as = bs and n = m]) simp_all
qed

lemma quiet_draw: "quiet s (s\<lparr>sh_grants := snd (draw_uuid env (sh_grants s))\<rparr>)"
  by (rule quietI[where as = "sh_attempts s" and n = "Suc (db_seq (gd_points (sh_grants s)))"]) (simp_all add: draw_uuid_def now_v7_def)

lemma quiet_refl: "quiet s s"
  by (rule quietI[where as = "sh_attempts s" and n = "db_seq (gd_points (sh_grants s))"]) simp_all

lemma quiet_frame:
  assumes "quiet s s'"
  shows "sh_user_roles s' = sh_user_roles s" "sh_subscriptions s' = sh_subscriptions s" "sh_mappings s' = sh_mappings s"
    "db_events (gd_points (sh_grants s')) = db_events (gd_points (sh_grants s))" "same_rows (sh_grants s) (sh_grants s')"
  using assms by (auto simp: quiet_def same_rows_def)

section \<open>The captured rules of an attempt\<close>

text \<open>The event of a grant list is stored, with the results the list was made of.\<close>

definition granted_under ::
  "payment_attempt \<Rightarrow> distribution_trigger \<Rightarrow> string \<Rightarrow> points_grant list \<Rightarrow> shop_db \<Rightarrow> bool" where
  "granted_under a t key gs s \<longleftrightarrow> dist_inv (sh_grants s) \<and>
     (\<exists>rs ev. find (\<lambda>e. evt_realm_id e = pa_realm_id a \<and> evt_user_id e = pa_user_id a \<and> evt_trigger e = trigger_as_str t \<and>
          evt_event_key e = key) (db_events (gd_points (sh_grants s))) = Some ev \<and>
        stored_results (sh_grants s) (evt_id ev) = mset rs \<and>
        gs = grant_results_to_points_grants rs t (pa_payment_provider a))"

lemma same_event_captured:
  "same_event (captured_payment_event env a m t key src) =
     (\<lambda>e. evt_realm_id e = pa_realm_id a \<and> evt_user_id e = pa_user_id a \<and> evt_trigger e = trigger_as_str t \<and>
          evt_event_key e = key)"
  by (simp add: fun_eq_iff same_event_def captured_payment_event_def)

lemma granted_quiet:
  assumes "granted_under a t key gs s" "quiet s s'"
  shows "granted_under a t key gs s'"
proof -
  note q = quiet_frame[OF assms(2)]
  from assms(1) dist_inv_same_rows[OF _ q(5,4)] show ?thesis by (simp add: granted_under_def q(4) same_rows_stored[OF q(5)])
qed

lemma captured_first:
  assumes "dist_inv (sh_grants s)" "execute_captured_payment_rules x env a m t key src s = Some (Inr gs, s')"
  obtains g where "s' = s\<lparr>sh_grants := g\<rparr>" "granted_under a t key gs s'"
proof -
  let ?event = "captured_payment_event env a m t key src"
  let ?sel = "CapturedPaymentRules (find_captured_rule_refs (pay_view s) (pa_realm_id a) (pa_id a))"
  from assms(2) obtain rs g where run: "execute_distribution_event_atomic x env ?event ?sel (sh_grants s) = Some (Inr rs, g)"
    and s': "s' = s\<lparr>sh_grants := g\<rparr>" and gs: "gs = grant_results_to_points_grants rs t (pa_payment_provider a)"
    by (auto simp: execute_captured_payment_rules_def on_grants_def next_step_def Let_def split: option.splits sum.splits)
  from execute_event.loop_stored[OF assms(1) run[unfolded execute_distribution_event_atomic_def]] obtain ev where
    "find (same_event ?event) (db_events (gd_points g)) = Some ev" "stored_results g (evt_id ev) = mset rs" "dist_inv g" .
  with s' gs have "granted_under a t key gs s'" by (auto simp: granted_under_def same_event_captured)
  with that s' show thesis by blast
qed

lemma captured_again:
  assumes "granted_under a t key gs s" "pa_realm_id a' = pa_realm_id a" "pa_user_id a' = pa_user_id a"
    "pa_payment_provider a' = pa_payment_provider a"
  shows "\<exists>gs' s'. execute_captured_payment_rules x env a' m t key src s = Some (Inr gs', s') \<and> quiet s s' \<and> mset gs' = mset gs"
proof -
  let ?event = "captured_payment_event env a' m t key src"
  from assms obtain rs ev where inv: "dist_inv (sh_grants s)"
    and ev: "find (same_event ?event) (db_events (gd_points (sh_grants s))) = Some ev"
    and st: "stored_results (sh_grants s) (evt_id ev) = mset rs"
    and gs: "gs = grant_results_to_points_grants rs t (pa_payment_provider a)"
    unfolding granted_under_def same_event_captured by auto
  let ?refs = "find_captured_rule_refs (pay_view s) (pa_realm_id a') (pa_id a')"
  from event_loop_existing[OF inv ev, of env "execute_event_first_run x env ?event (CapturedPaymentRules ?refs)"] st
  obtain rs' where "execute_distribution_event_atomic x env ?event (CapturedPaymentRules ?refs) (sh_grants s) =
      Some (Inr rs', snd (draw_uuid env (sh_grants s)))" "mset rs' = mset rs"
    unfolding execute_distribution_event_atomic_def by auto
  then have "execute_captured_payment_rules x env a' m t key src s =
      Some (Inr (grant_results_to_points_grants rs' t (pa_payment_provider a')), s\<lparr>sh_grants := snd (draw_uuid env (sh_grants s))\<rparr>)"
    "mset (grant_results_to_points_grants rs' t (pa_payment_provider a')) = mset gs"
    using assms(4) by (simp_all add: execute_captured_payment_rules_def on_grants_def gs grant_results_to_points_grants_def)
  then show ?thesis using quiet_draw by blast
qed

section \<open>The roles of a purchase\<close>

text \<open>A row that makes another grant of the role from the source unnecessary: the one the check
  finds, or the one the unique index of payment grants holds.\<close>

definition role_held :: "env \<Rightarrow> string \<Rightarrow> uuid \<Rightarrow> string \<Rightarrow> uuid \<Rightarrow> user_role list \<Rightarrow> bool" where
  "role_held env realm user src role rows \<longleftrightarrow> (\<exists>r \<in> set rows. paid_role src user role r \<or>
     (ur_source r = ''payment'' \<and> ur_realm_id r = realm \<and> ur_principal_type r = ''user'' \<and>
      ur_principal_id r = env_uuid_str env user \<and> ur_role_id r = role \<and> ur_source_id r = Some src))"

definition role_ids_fresh :: "env \<Rightarrow> shop_db \<Rightarrow> bool" where
  "role_ids_fresh env s \<longleftrightarrow> inj (env_uuid env) \<and>
     (\<forall>n \<ge> db_seq (gd_points (sh_grants s)). env_uuid env n \<notin> ur_id ` set (sh_user_roles s))"

definition roles_grown :: "shop_db \<Rightarrow> shop_db \<Rightarrow> bool" where
  "roles_grown s s' \<longleftrightarrow> quiet s (s'\<lparr>sh_user_roles := sh_user_roles s\<rparr>) \<and> set (sh_user_roles s) \<subseteq> set (sh_user_roles s')"

lemma role_held_mono: "role_held env r u src role rows \<Longrightarrow> set rows \<subseteq> set rows' \<Longrightarrow> role_held env r u src role rows'"
  unfolding role_held_def by blast

lemma draw_shop:
  "draw_uuid env (sh_grants s) = (env_uuid env (db_seq (gd_points (sh_grants s))),
     (sh_grants s)\<lparr>gd_points := (gd_points (sh_grants s))\<lparr>db_seq := Suc (db_seq (gd_points (sh_grants s)))\<rparr>\<rparr>)"
  by (simp add: draw_uuid_def now_v7_def)

lemma roles_grown_bump:
  "set (sh_user_roles s) \<subseteq> set rows \<Longrightarrow>
     roles_grown s (s\<lparr>sh_grants := (sh_grants s)\<lparr>gd_points := (gd_points (sh_grants s))\<lparr>db_seq := n\<rparr>\<rparr>, sh_user_roles := rows\<rparr>)"
  unfolding roles_grown_def by (intro conjI quietI[where as = "sh_attempts s" and n = n]) simp_all

lemma quiet_roles:
  assumes "quiet s s'"
  shows "quiet (s\<lparr>sh_user_roles := rows\<rparr>) (s'\<lparr>sh_user_roles := rows\<rparr>)"
proof -
  from assms obtain n as where
    "s' = s\<lparr>sh_attempts := as, sh_grants := (sh_grants s)\<lparr>gd_points := (gd_points (sh_grants s))\<lparr>db_seq := n\<rparr>\<rparr>\<rparr>"
    "map (\<lambda>a. (pa_id a, pa_status a)) as = map (\<lambda>a. (pa_id a, pa_status a)) (sh_attempts s)"
    unfolding quiet_def by blast
  then show ?thesis by (intro quietI[where as = as and n = n]) simp_all
qed

lemma roles_grown_trans:
  assumes "roles_grown s s1" "roles_grown s1 s2"
  shows "roles_grown s s2"
proof -
  have "quiet (s1\<lparr>sh_user_roles := sh_user_roles s\<rparr>) (s2\<lparr>sh_user_roles := sh_user_roles s\<rparr>)"
    using quiet_roles[of s1 "s2\<lparr>sh_user_roles := sh_user_roles s1\<rparr>" "sh_user_roles s"] assms(2) by (simp add: roles_grown_def)
  with assms show ?thesis unfolding roles_grown_def using quiet_trans by blast
qed

lemma role_first:
  assumes "role_ids_fresh env s" "grant_role_by_payment env realm user client src exp role s = (Inr out, s')"
  shows "role_held env realm user src role (sh_user_roles s') \<and> role_ids_fresh env s' \<and> roles_grown s s'"
proof (cases "\<exists>r \<in> set (sh_user_roles s). paid_role src user role r")
  case True
  with assms show ?thesis
    using roles_grown_bump[of s "sh_user_roles s" "db_seq (gd_points (sh_grants s))"]
    by (auto simp: grant_role_by_payment_def role_held_def)
next
  case False
  define row where "row = payment_role_row env (env_uuid env (db_seq (gd_points (sh_grants s)))) realm user role client src exp"
  let ?bump = "(sh_grants s)\<lparr>gd_points := (gd_points (sh_grants s))\<lparr>db_seq := Suc (db_seq (gd_points (sh_grants s)))\<rparr>\<rparr>"
  have unused: "\<forall>y \<in> set (sh_user_roles s). ur_id y \<noteq> ur_id row"
    using assms(1) unfolding role_ids_fresh_def row_def payment_role_row_def by (metis imageI order_refl user_role.select_convs(1))
  have fresh: "role_ids_fresh env (s\<lparr>sh_grants := ?bump, sh_user_roles := rows\<rparr>)" if "set rows \<subseteq> insert row (set (sh_user_roles s))" for rows
    using assms(1) that by (fastforce simp: role_ids_fresh_def row_def payment_role_row_def inj_def image_iff)
  show ?thesis
  proof (cases "role_row_taken (sh_user_roles s) row")
    case True
    then have held: "role_held env realm user src role (sh_user_roles s)"
      using unused by (auto simp: role_row_taken_def role_held_def row_def payment_role_row_def)
    have "s' = s\<lparr>sh_grants := ?bump, sh_user_roles := sh_user_roles s\<rparr>"
      using assms(2) False True by (auto simp: grant_role_by_payment_def draw_shop row_def)
    with held fresh[of "sh_user_roles s"] roles_grown_bump[of s "sh_user_roles s"] show ?thesis by auto
  next
    case free: False
    have "s' = s\<lparr>sh_grants := ?bump, sh_user_roles := sh_user_roles s @ [row]\<rparr>"
      using assms(2) False free by (auto simp: grant_role_by_payment_def draw_shop row_def Let_def split: if_splits)
    moreover have "role_held env realm user src role (sh_user_roles s @ [row])"
      by (simp add: role_held_def row_def payment_role_row_def paid_role_def)
    ultimately show ?thesis using fresh[of "sh_user_roles s @ [row]"] roles_grown_bump[of s "sh_user_roles s @ [row]"] by auto
  qed
qed

lemma roles_first:
  assumes "role_ids_fresh env s" "grant_payment_roles env realm user roles src exp s = Some (Inr u, s')"
  shows "(\<forall>role \<in> set roles. role_held env realm user src role (sh_user_roles s')) \<and> roles_grown s s'"
  using assms
proof (induction roles arbitrary: s)
  case Nil
  then show ?case using roles_grown_bump[of s "sh_user_roles s" "db_seq (gd_points (sh_grants s))"] by simp
next
  case (Cons role roles)
  from Cons.prems(2) obtain out s1 where one: "grant_role_by_payment env realm user None src exp role s = (Inr out, s1)"
    and rest: "grant_payment_roles env realm user roles src exp s1 = Some (Inr u, s')"
    by (cases "grant_role_by_payment env realm user None src exp role s") (auto simp: next_step_def split: sum.splits)
  note r = role_first[OF Cons.prems(1) one]
  then have "role_ids_fresh env s1" by blast
  note IH = Cons.IH[OF this rest]
  from IH have "set (sh_user_roles s1) \<subseteq> set (sh_user_roles s')" by (simp add: roles_grown_def)
  with r IH roles_grown_trans[of s s1 s'] role_held_mono show ?case by auto
qed

lemma roles_again:
  assumes "\<forall>role \<in> set roles. role_held env realm user src role (sh_user_roles s)" "env_uuid_str env' = env_uuid_str env"
  shows "\<exists>s'. grant_payment_roles env' realm user roles src exp s = Some (Inr (), s') \<and> quiet s s'"
  using assms(1)
proof (induction roles arbitrary: s)
  case Nil
  then show ?case using quiet_refl by auto
next
  case (Cons role roles)
  have "\<exists>s1. grant_role_by_payment env' realm user None src exp role s = (Inr RoleAlreadyExists, s1) \<and> quiet s s1"
  proof (cases "\<exists>r \<in> set (sh_user_roles s). paid_role src user role r")
    case True
    then show ?thesis using quiet_refl by (simp add: grant_role_by_payment_def)
  next
    case False
    with Cons.prems have "role_row_taken (sh_user_roles s) (payment_role_row env' i realm user role None src exp)" for i
      using assms(2) by (auto simp: role_held_def role_row_taken_def payment_role_row_def)
    with False show ?thesis using quiet_draw[of s env'] by (auto simp: grant_role_by_payment_def Let_def split_beta)
  qed
  then obtain s1 where one: "grant_role_by_payment env' realm user None src exp role s = (Inr RoleAlreadyExists, s1)" "quiet s s1" by blast
  have "\<forall>role \<in> set roles. role_held env realm user src role (sh_user_roles s1)"
    using Cons.prems quiet_frame(1)[OF one(2)] by simp
  from Cons.IH[OF this] one quiet_trans show ?case by fastforce
qed

section \<open>Fulfilling twice\<close>

text \<open>The attempt as a second delivery reads it, and answers that stand for the same fulfilment.\<close>

definition same_buyer :: "payment_attempt \<Rightarrow> payment_attempt \<Rightarrow> bool" where
  "same_buyer a b \<longleftrightarrow> pa_id b = pa_id a \<and> pa_realm_id b = pa_realm_id a \<and> pa_user_id b = pa_user_id a \<and>
     pa_payment_provider b = pa_payment_provider a \<and> pa_target_id b = pa_target_id a"

definition same_answer :: "fulfillment_result \<Rightarrow> fulfillment_result \<Rightarrow> bool" where
  "same_answer f g \<longleftrightarrow> fr_fulfillment_type g = fr_fulfillment_type f \<and> fr_subscription_id g = fr_subscription_id f \<and>
     mset (fr_point_grants g) = mset (fr_point_grants f)"

text \<open>\<open>Uuid::now_v7\<close> repeats nothing and gives no identifier of the role table.\<close>

definition new_role_ids :: "env \<Rightarrow> shop_db \<Rightarrow> bool" where
  "new_role_ids env s \<longleftrightarrow> inj (env_uuid env) \<and> range (env_uuid env) \<inter> ur_id ` set (sh_user_roles s) = {}"

definition on_sale :: "payment_attempt \<Rightarrow> shop_db \<Rightarrow> bool" where
  "on_sale a s \<longleftrightarrow> (\<forall>m \<in> set (sh_mappings s). mp_id m = pa_target_id a \<longrightarrow> mp_enabled m)"

lemma new_role_ids_fresh: "new_role_ids env s \<Longrightarrow> sh_user_roles s' = sh_user_roles s \<Longrightarrow> role_ids_fresh env s'"
  by (auto simp: new_role_ids_def role_ids_fresh_def)

lemma next_step_InrE:
  assumes "next_step r k = Some (Inr y, s')"
  obtains z s1 where "r = Some (Inr z, s1)" "k z s1 = Some (Inr y, s')"
  using assms by (auto simp: next_step_def split: option.splits sum.splits prod.splits)

text \<open>What granting the captured rules and then the roles leaves.\<close>

lemma grant_both_first:
  assumes inv: "dist_inv (sh_grants s)" and ids: "new_role_ids env s"
    and rules: "execute_captured_payment_rules x env a m t key src s = Some (Inr gs, s1)"
    and roles: "grant_payment_roles env realm user role_ids rsrc exp s1 = Some (Inr u, s')"
  shows "granted_under a t key gs s' \<and> (\<forall>role \<in> set role_ids. role_held env realm user rsrc role (sh_user_roles s')) \<and>
    sh_mappings s' = sh_mappings s \<and> sh_subscriptions s' = sh_subscriptions s"
proof -
  obtain g where s1: "s1 = s\<lparr>sh_grants := g\<rparr>" and g: "granted_under a t key gs s1" by (rule captured_first[OF inv rules])
  have "role_ids_fresh env s1" using ids by (rule new_role_ids_fresh) (simp add: s1)
  from roles_first[OF this roles] have held: "\<forall>role \<in> set role_ids. role_held env realm user rsrc role (sh_user_roles s')"
    and q: "quiet s1 (s'\<lparr>sh_user_roles := sh_user_roles s1\<rparr>)" by (simp_all add: roles_grown_def)
  from granted_quiet[OF g q] have "granted_under a t key gs s'" by (simp add: granted_under_def)
  with held quiet_frame(2,3)[OF q] s1 show ?thesis by simp
qed

lemma one_time_twice:
  assumes inv: "dist_inv (sh_grants s)" and ids: "new_role_ids env s" and sale: "on_sale a s"
    and run: "fulfill_one_time_purchase x env a tx s = Some (Inr fr, s')"
    and "quiet s' s2" "same_buyer a b" "env_uuid_str env' = env_uuid_str env"
  shows "\<exists>fr' s''. fulfill_one_time_purchase x' env' b tx s2 = Some (Inr fr', s'') \<and> quiet s2 s'' \<and> same_answer fr fr'"
proof -
  note b = assms(6)[unfolded same_buyer_def]
  let ?key = "event_key_for_payment env (pa_id a)" and ?src = "env_uuid_str env (pa_id a)"
  from run obtain m where m: "find_entitlement_mapping_by_id s (pa_target_id a) = Some m" "mp_realm_id m = pa_realm_id a"
    by (auto simp: fulfill_one_time_purchase_def split: option.splits if_splits)
  then have "mp_enabled m" using sale find_SomeD by (fastforce simp: on_sale_def find_entitlement_mapping_by_id_def)
  with run m have steps: "next_step (execute_captured_payment_rules x env a (mp_id m) TriggerTopup ?key ?src s) (\<lambda>point_grants s1.
      next_step (grant_payment_roles env (pa_realm_id a) (pa_user_id a) (mp_granted_role_ids m) ?src None s1) (\<lambda>_ s2.
        Some (Inr \<lparr>fr_fulfillment_type = PointsGranted, fr_subscription_id = None, fr_point_grants = point_grants,
          fr_granted_at = env_now env\<rparr>, s2))) = Some (Inr fr, s')"
    by (simp add: fulfill_one_time_purchase_def)
  then obtain gs s1 u where rules: "execute_captured_payment_rules x env a (mp_id m) TriggerTopup ?key ?src s = Some (Inr gs, s1)"
    and roles: "grant_payment_roles env (pa_realm_id a) (pa_user_id a) (mp_granted_role_ids m) ?src None s1 = Some (Inr u, s')"
    and fr: "fr = \<lparr>fr_fulfillment_type = PointsGranted, fr_subscription_id = None, fr_point_grants = gs, fr_granted_at = env_now env\<rparr>"
    by (auto elim!: next_step_InrE)
  note f = grant_both_first[OF inv ids rules roles]
  have m2: "find_entitlement_mapping_by_id s2 (pa_target_id b) = Some m"
    using m(1) f quiet_frame(3)[OF assms(5)] b by (simp add: find_entitlement_mapping_by_id_def)
  from f granted_quiet assms(5) have "granted_under a TriggerTopup ?key gs s2" by blast
  from captured_again[OF this, of b x' env' "mp_id m" ?src] b obtain gs' s3 where
    again: "execute_captured_payment_rules x' env' b (mp_id m) TriggerTopup ?key ?src s2 = Some (Inr gs', s3)" "quiet s2 s3" "mset gs' = mset gs"
    by blast
  have "\<forall>role \<in> set (mp_granted_role_ids m). role_held env (pa_realm_id a) (pa_user_id a) ?src role (sh_user_roles s3)"
    using f quiet_frame(1)[OF assms(5)] quiet_frame(1)[OF again(2)] by simp
  from roles_again[OF this assms(7), of None] obtain s4 where
    "grant_payment_roles env' (pa_realm_id a) (pa_user_id a) (mp_granted_role_ids m) ?src None s3 = Some (Inr (), s4)" "quiet s3 s4"
    by blast
  with m2 m(2) \<open>mp_enabled m\<close> b again assms(7) quiet_trans[of s2 s3 s4] show ?thesis
    by (auto simp: fulfill_one_time_purchase_def event_key_for_payment_def same_answer_def fr)
qed

lemma period_key_str:
  "env_uuid_str env' = env_uuid_str env \<Longrightarrow>
     event_key_for_subscription_period env' i t = event_key_for_subscription_period env i t"
  by (simp add: event_key_for_subscription_period_def)

text \<open>A delivery that finds the subscription, whose initial event is stored.\<close>

lemma existing_again:
  assumes sub: "find_by_external_subscription_id s tx (pa_payment_provider b) = Some c"
    and g: "granted_under a TriggerSubscriptionInitial (event_key_for_subscription_period env (sub_id c) (period_start_token x c)) gs s"
    and b: "same_buyer a b" and str: "env_uuid_str env' = env_uuid_str env"
    and fr: "fr = fulfilled_subscription c gs"
  shows "\<exists>fr' s'. fulfill_subscription_shape x env' b tx bt s = Some (Inr fr', s') \<and> quiet s s' \<and> same_answer fr fr'"
proof -
  from captured_again[OF g, of b x env' "pa_target_id b" "env_uuid_str env' (pa_id b)"] b obtain gs' s' where
    "execute_captured_payment_rules x env' b (pa_target_id b) TriggerSubscriptionInitial
      (event_key_for_subscription_period env (sub_id c) (period_start_token x c)) (env_uuid_str env' (pa_id b)) s = Some (Inr gs', s')"
    "quiet s s'" "mset gs' = mset gs" by (auto simp: same_buyer_def)
  then show ?thesis
    by (simp add: fulfill_subscription_shape_def sub period_key_str[OF str] fr same_answer_def fulfilled_subscription_def)
qed

lemma find_snoc: "find P xs = None \<Longrightarrow> P y \<Longrightarrow> find P (xs @ [y]) = Some y"
  by (induction xs) (auto split: if_splits)

lemma subscription_twice:
  assumes inv: "dist_inv (sh_grants s)" and ids: "new_role_ids env s" and sale: "on_sale a s"
    and run: "fulfill_subscription_shape x env a tx bt s = Some (Inr fr, s')"
    and "quiet s' s2" "same_buyer a b" "env_uuid_str env' = env_uuid_str env"
  shows "\<exists>fr' s''. fulfill_subscription_shape x env' b tx bt s2 = Some (Inr fr', s'') \<and> quiet s2 s'' \<and> same_answer fr fr'"
proof (cases "find_by_external_subscription_id s tx (pa_payment_provider a)")
  case (Some c)
  let ?key = "event_key_for_subscription_period env (sub_id c) (period_start_token x c)"
  from run Some obtain gs where
    rules: "execute_captured_payment_rules x env a (pa_target_id a) TriggerSubscriptionInitial ?key (env_uuid_str env (pa_id a)) s = Some (Inr gs, s')"
    and fr: "fr = fulfilled_subscription c gs"
    by (auto simp: fulfill_subscription_shape_def elim!: next_step_InrE)
  obtain g where s': "s' = s\<lparr>sh_grants := g\<rparr>" and g: "granted_under a TriggerSubscriptionInitial ?key gs s'"
    by (rule captured_first[OF inv rules])
  have "find_by_external_subscription_id s2 tx (pa_payment_provider b) = Some c"
    using Some quiet_frame(2)[OF assms(5)] assms(6) by (simp add: s' find_by_external_subscription_id_def same_buyer_def)
  from existing_again[OF this granted_quiet[OF g assms(5)] assms(6,7) fr] show ?thesis .
next
  case None
  from run None obtain m where m: "find_entitlement_mapping_by_id s (pa_target_id a) = Some m" "mp_realm_id m = pa_realm_id a"
    by (auto simp: fulfill_subscription_shape_def split: option.splits if_splits)
  then have on: "mp_enabled m" using sale find_SomeD by (fastforce simp: on_sale_def find_entitlement_mapping_by_id_def)
  from run None m obtain period where period: "service_period_days env bt m (pa_target_id a) = Inr period"
    by (auto simp: fulfill_subscription_shape_def split: sum.splits)
  define c where "c = new_subscription env (env_uuid env (db_seq (gd_points (sh_grants s)))) a tx m bt period"
  define s0 where "s0 = s\<lparr>sh_grants := snd (draw_uuid env (sh_grants s)), sh_subscriptions := sh_subscriptions s @ [c]\<rparr>"
  let ?key = "event_key_for_subscription_period env (sub_id c) (period_start_token x c)"
  let ?roles = "grant_payment_roles env (pa_realm_id a) (pa_user_id a) (mp_granted_role_ids m) (env_uuid_str env (sub_id c)) (sub_current_period_end c)"
  from run None m on period obtain gs s1 u where
    rules: "execute_captured_payment_rules x env a (mp_id m) TriggerSubscriptionInitial ?key (env_uuid_str env (pa_id a)) s0 = Some (Inr gs, s1)"
    and roles: "?roles s1 = Some (Inr u, s')" and fr: "fr = fulfilled_subscription c gs"
    by (auto simp: fulfill_subscription_shape_def draw_shop create_subscription_def c_def s0_def elim!: next_step_InrE split: if_splits)
  have "dist_inv (sh_grants s0)" "new_role_ids env s0" using inv ids by (simp_all add: s0_def dist_inv_draw new_role_ids_def)
  note f = grant_both_first[OF this rules roles]
  have "sub_external_subscription_id c = tx \<and> sub_payment_provider c = pa_payment_provider a"
    by (simp add: c_def new_subscription_def Let_def)
  then have "find_by_external_subscription_id s2 tx (pa_payment_provider b) = Some c"
    using None find_snoc f quiet_frame(2)[OF assms(5)] assms(6)
    by (simp add: s0_def find_by_external_subscription_id_def same_buyer_def)
  from existing_again[OF this granted_quiet[OF conjunct1[OF f] assms(5)] assms(6,7) fr] show ?thesis .
qed

lemma fulfill_twice:
  assumes "dist_inv (sh_grants s)" "new_role_ids env s" "on_sale a s"
    and run: "fulfill_payment_attempt x env a tx kind s = Some (Inr fr, s')"
    and "quiet s' s2" "same_buyer a b" "env_uuid_str env' = env_uuid_str env"
    and maps: "sh_mappings s2 = sh_mappings s"
  shows "\<exists>fr' s''. fulfill_payment_attempt x env' b tx kind s2 = Some (Inr fr', s'') \<and> quiet s2 s'' \<and> same_answer fr fr'"
proof -
  from run obtain bt where bt: "resolve_billing_type env a kind s = Inr bt"
    by (auto simp: fulfill_payment_attempt_def split: sum.splits)
  then have "resolve_billing_type env' b kind s2 = Inr bt"
    using maps assms(6) by (auto simp: resolve_billing_type_def find_entitlement_mapping_by_id_def same_buyer_def Let_def result_simps split: option.splits)
  with bt run one_time_twice[OF assms(1-3) _ assms(5-7)] subscription_twice[OF assms(1-3) _ assms(5-7)] show ?thesis
    by (cases bt) (simp_all add: fulfill_payment_attempt_def fulfill_subscription_purchase_def fulfill_non_renewing_purchase_def)
qed

section \<open>Completing twice\<close>

text \<open>The success callback reads and writes the attempts only.\<close>

definition attempts_ok :: "payment_attempt list \<Rightarrow> bool" where
  "attempts_ok as \<longleftrightarrow> distinct (map pa_id as) \<and> role_unique as \<and> (\<forall>a \<in> set as. attempt_check a)"

definition attempts_db :: "payment_attempt list \<Rightarrow> pay_db" where
  "attempts_db as = \<lparr>pay_attempts = as, pay_rules = [], pay_captured = [], pay_seq = 0\<rparr>"

definition succeeded_row :: "env \<Rightarrow> string \<Rightarrow> string \<Rightarrow> instant \<Rightarrow> payment_attempt \<Rightarrow> payment_attempt" where
  "succeeded_row env ps tx t a = a\<lparr>pa_status := Succeeded, pa_provider_status := Some ps, pa_provider_reference := Some tx,
     pa_completed_at := Some t, pa_updated_at := env_sql_now env\<rparr>"

lemma attempts_db_wf: "pay_wf (attempts_db as) \<longleftrightarrow> attempts_ok as"
  by (simp add: pay_wf_def attempts_db_def attempts_ok_def)

lemma mark_attempts_only:
  "mark_payment_succeeded env r i ps tx t db =
     (let (res, d) = mark_payment_succeeded env r i ps tx t (attempts_db (pay_attempts db)) in (res, db\<lparr>pay_attempts := pay_attempts d\<rparr>))"
  by (simp add: mark_payment_succeeded_def then_write_def read_succeeded_def find_payment_attempt_by_id_def attempts_db_def
      update_payment_attempt_with_status_guard_def Let_def split: sum.splits option.splits)

lemma on_pay_mark:
  assumes "attempts_ok (sh_attempts s)" "find (\<lambda>a. pa_id a = i) (sh_attempts s) = Some a"
  shows "on_pay (mark_payment_succeeded env (pa_realm_id a) i ps tx t) s =
    Some (let b = succeeded_row env ps tx t a
          in if pa_status a \<in> {Failed, Cancelled, Expired}
             then (Inl (invalid_status_transition (status_to_string (pa_status a)) ''Succeeded''), s)
             else if role_conflict (sh_attempts s) b then (Inl (role_index_error ''guarded-update''), s)
             else (Inr b, s\<lparr>sh_attempts := map (\<lambda>x. if x = a then b else x) (sh_attempts s)\<rparr>))"
proof -
  have wf: "pay_wf (attempts_db (sh_attempts s))" using assms(1) by (simp add: attempts_db_wf)
  have att: "pay_attempts (attempts_db as) = as" "pay_attempts (pay_view s) = sh_attempts s" for as
    by (simp_all add: attempts_db_def pay_view_def)
  with find_SomeD[OF assms(2)] have "find_payment_attempt_by_id (attempts_db (sh_attempts s)) (pa_realm_id a) i = Some a"
    by (simp add: find_attempt_iff[OF wf])
  with mark_payment_succeeded_run[OF wf, of env "pa_realm_id a" i ps tx t]
  have "mark_payment_succeeded env (pa_realm_id a) i ps tx t (attempts_db (sh_attempts s)) =
      (let b = succeeded_row env ps tx t a
       in if pa_status a \<in> {Failed, Cancelled, Expired}
          then (Inl (invalid_status_transition (status_to_string (pa_status a)) ''Succeeded''), attempts_db (sh_attempts s))
          else if role_conflict (sh_attempts s) b then (Inl (role_index_error ''guarded-update''), attempts_db (sh_attempts s))
          else (Inr b, (attempts_db (sh_attempts s))\<lparr>pay_attempts := map (\<lambda>x. if x = a then b else x) (sh_attempts s)\<rparr>))"
    unfolding att succeeded_row_def by simp
  moreover have "with_pay s ((pay_view s)\<lparr>pay_attempts := as\<rparr>) = s\<lparr>sh_attempts := as\<rparr>" for as
    by (simp add: with_pay_def pay_view_def)
  ultimately show ?thesis
    unfolding on_pay_def mark_attempts_only[of env "pa_realm_id a" i ps tx t "pay_view s"] att by (simp add: Let_def att)
qed

lemma attempts_ok_write:
  assumes "attempts_ok as" "a \<in> set as" "\<not> role_conflict as (succeeded_row env ps tx t a)"
  shows "attempts_ok (map (\<lambda>x. if x = a then succeeded_row env ps tx t a else x) as)"
proof -
  let ?as = "map (\<lambda>x. if x = a then succeeded_row env ps tx t a else x) as"
  have "map pa_id ?as = map pa_id as" by (simp add: succeeded_row_def)
  moreover have "role_unique ?as" by (rule role_unique_subset[OF _ assms(3)]) (use assms(1) in \<open>auto simp: attempts_ok_def\<close>)
  moreover have "\<forall>x \<in> set ?as. attempt_check x"
    using assms(1,2) by (auto simp: attempts_ok_def succeeded_row_def attempt_check_def)
  ultimately show ?thesis using assms(1) by (simp only: attempts_ok_def)
qed

lemma succeeded_row_simps [simp]:
  "pa_id (succeeded_row env ps tx t a) = pa_id a" "pa_status (succeeded_row env ps tx t a) = Succeeded"
  "pa_realm_id (succeeded_row env ps tx t a) = pa_realm_id a" "same_buyer b (succeeded_row env ps tx t a) = same_buyer b a"
  by (simp_all add: succeeded_row_def same_buyer_def)

lemma mark_again:
  assumes ok: "attempts_ok (sh_attempts s)" and a: "find (\<lambda>a. pa_id a = i) (sh_attempts s) = Some a" "pa_status a = Succeeded"
  shows "\<exists>s'. on_pay (mark_payment_succeeded env (pa_realm_id a) i ps tx t) s = Some (Inr (succeeded_row env ps tx t a), s') \<and> quiet s s'"
proof -
  let ?b = "succeeded_row env ps tx t a"
  have in_as: "a \<in> set (sh_attempts s)" using find_SomeD[OF a(1)] by simp
  have "\<not> role_conflict (sh_attempts s) ?b"
  proof
    assume "role_conflict (sh_attempts s) ?b"
    then obtain y where "y \<in> set (sh_attempts s)" "pa_id y \<noteq> pa_id a" "guarded_role y" "guarded_role a"
      "pa_user_id y = pa_user_id a" "pa_target_id y = pa_target_id a"
      using a(2) by (auto simp: role_conflict_def guarded_role_def succeeded_row_def)
    with ok in_as show False unfolding attempts_ok_def role_unique_def by blast
  qed
  with on_pay_mark[OF ok a(1), of env ps tx t] a(2) have
    "on_pay (mark_payment_succeeded env (pa_realm_id a) i ps tx t) s =
       Some (Inr ?b, s\<lparr>sh_attempts := map (\<lambda>x. if x = a then ?b else x) (sh_attempts s)\<rparr>)" by (simp add: Let_def)
  moreover have "quiet s (s\<lparr>sh_attempts := map (\<lambda>x. if x = a then ?b else x) (sh_attempts s)\<rparr>)"
    using a(2) by (intro quietI[where n = "db_seq (gd_points (sh_grants s))" and
        as = "map (\<lambda>x. if x = a then ?b else x) (sh_attempts s)"]) simp_all
  ultimately show ?thesis by blast
qed

text \<open>Fulfilling leaves the attempts and the mappings alone.\<close>

lemma captured_frame:
  "execute_captured_payment_rules x env a m t key src s = Some (r, s') \<Longrightarrow> sh_attempts s' = sh_attempts s \<and> sh_mappings s' = sh_mappings s"
  by (auto simp: execute_captured_payment_rules_def on_grants_def next_step_def Let_def split: option.splits sum.splits)

lemma roles_frame:
  "grant_payment_roles env realm user roles src exp s = Some (r, s') \<Longrightarrow> sh_attempts s' = sh_attempts s \<and> sh_mappings s' = sh_mappings s"
proof (induction roles arbitrary: s)
  case (Cons role roles)
  obtain o1 s1 where one: "grant_role_by_payment env realm user None src exp role s = (o1, s1)" by (meson surj_pair)
  then have "sh_attempts s1 = sh_attempts s \<and> sh_mappings s1 = sh_mappings s"
    by (auto simp: grant_role_by_payment_def draw_shop Let_def split: if_splits)
  with Cons one show ?case by (cases o1) auto
qed simp

lemma fulfill_frame:
  assumes "fulfill_payment_attempt x env a tx kind s = Some (Inr fr, s')"
  shows "sh_attempts s' = sh_attempts s \<and> sh_mappings s' = sh_mappings s"
  using assms
  by (auto simp: fulfill_payment_attempt_def fulfill_one_time_purchase_def fulfill_subscription_purchase_def
      fulfill_non_renewing_purchase_def fulfill_subscription_shape_def create_subscription_def draw_shop
      split: sum.splits option.splits if_splits billing_type.splits elim!: next_step_InrE dest!: captured_frame roles_frame)

lemma find_after_write:
  assumes "distinct (map pa_id as)" "find (\<lambda>a. pa_id a = i) as = Some a" "pa_id b = pa_id a"
  shows "find (\<lambda>a. pa_id a = i) (map (\<lambda>x. if x = a then b else x) as) = Some b"
  using assms by (induction as) (auto split: if_splits)

text \<open>A first completion: the attempt it found, the row it wrote and the fulfilment it ran.\<close>

lemma complete_first:
  assumes ok: "attempts_ok (sh_attempts s)"
    and run: "complete_succeeded_payment_attempt x env input s = Some (Inr fr, s')"
  obtains a b s1 where "find (\<lambda>a. pa_id a = ca_attempt_id input) (sh_attempts s) = Some a"
    "b = succeeded_row env (ca_provider_status input) (ca_provider_transaction_id input) (ca_completed_at input) a"
    "s1 = s\<lparr>sh_attempts := map (\<lambda>x. if x = a then b else x) (sh_attempts s)\<rparr>" "attempts_ok (sh_attempts s1)"
    "fulfill_payment_attempt x env b (ca_provider_transaction_id input) (ca_billing_type_override input) s1 = Some (Inr fr, s')"
    "validate_completion_source (ca_source input) = Inr ()" "ca_expected_realm_id input \<in> {None, Some (pa_realm_id a)}"
proof -
  let ?mark = "\<lambda>a. on_pay (mark_payment_succeeded env (pa_realm_id a) (ca_attempt_id input) (ca_provider_status input)
      (ca_provider_transaction_id input) (ca_completed_at input)) s"
  from run obtain a where a: "find (\<lambda>a. pa_id a = ca_attempt_id input) (sh_attempts s) = Some a"
    and pre: "validate_completion_source (ca_source input) = Inr ()" "ca_expected_realm_id input \<in> {None, Some (pa_realm_id a)}"
    and steps: "next_step (?mark a) (\<lambda>marked. fulfill_payment_attempt x env marked (ca_provider_transaction_id input)
        (ca_billing_type_override input)) = Some (Inr fr, s')"
    by (auto simp: complete_succeeded_payment_attempt_def result_simps find_payment_attempt_by_id_only_def pay_view_def split: sum.splits)
  from next_step_InrE[OF steps] obtain b s1 where m: "?mark a = Some (Inr b, s1)"
    and f: "fulfill_payment_attempt x env b (ca_provider_transaction_id input) (ca_billing_type_override input) s1 = Some (Inr fr, s')" .
  let ?b = "succeeded_row env (ca_provider_status input) (ca_provider_transaction_id input) (ca_completed_at input) a"
  from m on_pay_mark[OF ok a] have b: "b = ?b" "\<not> role_conflict (sh_attempts s) ?b"
    "s1 = s\<lparr>sh_attempts := map (\<lambda>x. if x = a then ?b else x) (sh_attempts s)\<rparr>"
    by (auto simp: Let_def split: if_splits)
  have "a \<in> set (sh_attempts s)" using find_SomeD[OF a] by simp
  with attempts_ok_write[OF ok _ b(2)] b(3) have "attempts_ok (sh_attempts s1)" by simp
  with that a b f pre show thesis by blast
qed


section \<open>A paid attempt\<close>

text \<open>Attempt 9 of user 1 for mapping 900, pending, with a captured rule that grants 12 points.\<close>

definition demo_purchase :: payment_attempt where
  "demo_purchase = (demo_attempt 9 Pending 10)\<lparr>pa_user_id := 1, pa_target_id := 900, pa_is_one_time_role := False\<rparr>"

definition demo_paid_shop :: shop_db where
  "demo_paid_shop = demo_shop\<lparr>sh_attempts := [demo_purchase], sh_grants := (sh_grants demo_shop)\<lparr>
     gd_rules := [new_rule_row 604 (DistributionRulesProps.demo_rule 604 (OwnerEntitlementMapping 900) 10
       [TriggerTopup, TriggerSubscriptionInitial] (PolicyFixed 12 30 None) 1)],
     gd_captured := [\<lparr>cap_attempt_id = 9, cap_rule_id = 604, cap_bucket_id = 10\<rparr>]\<rparr>\<rparr>"

definition demo_completion :: complete_attempt_input where
  "demo_completion = \<lparr>ca_attempt_id = 9, ca_provider_status = ''paid'', ca_provider_transaction_id = ''pi_1'',
     ca_completed_at = secs 90, ca_source = ProviderWebhook ''stripe'', ca_billing_type_override = Some OneTime,
     ca_expected_realm_id = Some ''r''\<rparr>"

lemma demo_paid_inv: "dist_inv (sh_grants demo_paid_shop)"
  using demo_shop_inv by (simp add: demo_paid_shop_def dist_inv_def settled_def refs_def stored_results_def
      schedule_rows_of_def firsts_ok_def first_record_def first_ledger_of_def)

lemma demo_paid_ok: "attempts_ok (sh_attempts demo_paid_shop)"
  by (simp add: attempts_ok_def demo_paid_shop_def demo_purchase_def demo_attempt_def role_unique_def attempt_check_def)

lemma demo_role_ids: "new_role_ids demo_env demo_paid_shop"
  by (auto simp: new_role_ids_def demo_paid_shop_def demo_shop_def demo_env_def payment_role_row_def inj_def)

lemma roles_granted:
  assumes "set roles \<subseteq> set (sh_role_ids s)" "realm \<in> set (sh_realms s)"
  shows "\<exists>s'. grant_payment_roles env realm user roles src exp s = Some (Inr (), s')"
  using assms
proof (induction roles arbitrary: s)
  case (Cons role roles)
  obtain r s1 where one: "grant_role_by_payment env realm user None src exp role s = (r, s1)" by (meson surj_pair)
  then have "\<not> isl r" "sh_role_ids s1 = sh_role_ids s" "sh_realms s1 = sh_realms s"
    using Cons.prems by (auto simp: grant_role_by_payment_def draw_shop Let_def split: if_splits)
  with one Cons.IH[of s1] Cons.prems show ?case by (cases r) simp_all
qed simp

text \<open>Evaluating the grants of captured rules: one transaction of the event loop.\<close>

lemma captured_runs:
  assumes "(case event_attempt env (captured_payment_event env a m t key src)
      (execute_event_first_run x env (captured_payment_event env a m t key src)
        (CapturedPaymentRules (find_captured_rule_refs (pay_view s) (pa_realm_id a) (pa_id a)))) (sh_grants s) of
      Inl _ \<Rightarrow> False | Inr (r, _) \<Rightarrow> map_sum (\<lambda>_. ()) length r = Inr n)"
  obtains gs g where "execute_captured_payment_rules x env a m t key src s = Some (Inr gs, s\<lparr>sh_grants := g\<rparr>)" "length gs = n"
proof -
  from assms obtain rs g where "event_attempt env (captured_payment_event env a m t key src)
      (execute_event_first_run x env (captured_payment_event env a m t key src)
        (CapturedPaymentRules (find_captured_rule_refs (pay_view s) (pa_realm_id a) (pa_id a)))) (sh_grants s) = Inr (Inr rs, g)"
    "length rs = n"
    by (auto split: sum.splits prod.splits) (metis map_sum.simps sum.exhaust sum.inject(2) sum.simps(4))
  then show thesis
    by (intro that[of "grant_results_to_points_grants rs t (pa_payment_provider a)" g])
      (simp_all add: execute_captured_payment_rules_def execute_distribution_event_atomic_def event_loop_answer on_grants_def
        grant_results_to_points_grants_def)
qed


text \<open>
  The condition that the mapping is on sale matters.  For a disabled mapping the first delivery
  creates the subscription and grants nothing; the second one finds the subscription and grants the
  captured points after all, because that branch does not look at the mapping.
\<close>

definition demo_closed_shop :: shop_db where
  "demo_closed_shop = demo_paid_shop\<lparr>sh_mappings := [demo_mapping\<lparr>mp_enabled := False\<rparr>]\<rparr>"

definition day_ext :: ext where
  "day_ext = demo_ext\<lparr>ext_rfc3339 := (\<lambda>t. if t = secs 100 then ''d1'' else ''d2'')\<rparr>"

lemma redelivery_grants_for_disabled_mapping:
  "\<exists>fr s' fr' s''. fulfill_subscription_purchase day_ext demo_env demo_purchase ''sub_1'' demo_closed_shop = Some (Inr fr, s') \<and>
     fr_point_grants fr = [] \<and>
     fulfill_subscription_purchase day_ext demo_env demo_purchase ''sub_1'' s' = Some (Inr fr', s'') \<and>
     length (fr_point_grants fr') = 1"
proof -
  define c where "c = new_subscription demo_env 1000 demo_purchase ''sub_1'' (demo_mapping\<lparr>mp_enabled := False\<rparr>) Recurring 30"
  define s' where "s' = demo_closed_shop\<lparr>sh_grants := snd (draw_uuid demo_env (sh_grants demo_closed_shop)), sh_subscriptions := [c]\<rparr>"
  have first: "fulfill_subscription_purchase day_ext demo_env demo_purchase ''sub_1'' demo_closed_shop =
      Some (Inr (fulfilled_subscription c []), s')"
  proof -
    let ?m = "demo_mapping\<lparr>mp_enabled := False\<rparr>"
    have "find_by_external_subscription_id demo_closed_shop ''sub_1'' (pa_payment_provider demo_purchase) = None"
      "find_entitlement_mapping_by_id demo_closed_shop (pa_target_id demo_purchase) = Some ?m"
      "mp_realm_id ?m = pa_realm_id demo_purchase" "\<not> mp_enabled ?m"
      "service_period_days demo_env Recurring ?m (pa_target_id demo_purchase) = Inr 30"
      "fst (draw_uuid demo_env (sh_grants demo_closed_shop)) = 1000"
      by code_simp+
    moreover have "create_subscription c (demo_closed_shop\<lparr>sh_grants := snd (draw_uuid demo_env (sh_grants demo_closed_shop))\<rparr>) = Some (Inr c, s')"
      unfolding c_def s'_def by code_simp
    ultimately show ?thesis
      unfolding fulfill_subscription_purchase_def fulfill_subscription_shape_def c_def[symmetric] by (simp add: split_beta c_def[symmetric])
  qed
  have existing: "find_by_external_subscription_id s' ''sub_1'' (pa_payment_provider demo_purchase) = Some c"
    unfolding c_def s'_def by code_simp
  let ?key = "event_key_for_subscription_period demo_env (sub_id c) (period_start_token day_ext c)"
  let ?event = "captured_payment_event demo_env demo_purchase (pa_target_id demo_purchase) TriggerSubscriptionInitial ?key
      (env_uuid_str demo_env (pa_id demo_purchase))"
  have "(case event_attempt demo_env ?event (execute_event_first_run day_ext demo_env ?event
        (CapturedPaymentRules (find_captured_rule_refs (pay_view s') (pa_realm_id demo_purchase) (pa_id demo_purchase)))) (sh_grants s') of
      Inl _ \<Rightarrow> False | Inr (r, _) \<Rightarrow> map_sum (\<lambda>_. ()) length r = Inr 1)"
    unfolding c_def s'_def by code_simp
  from captured_runs[OF this] obtain gs g where
    "execute_captured_payment_rules day_ext demo_env demo_purchase (pa_target_id demo_purchase) TriggerSubscriptionInitial ?key
      (env_uuid_str demo_env (pa_id demo_purchase)) s' = Some (Inr gs, s'\<lparr>sh_grants := g\<rparr>)" "length gs = 1" by metis
  then have "fulfill_subscription_purchase day_ext demo_env demo_purchase ''sub_1'' s' =
      Some (Inr (fulfilled_subscription c gs), s'\<lparr>sh_grants := g\<rparr>)"
    by (simp add: fulfill_subscription_purchase_def fulfill_subscription_shape_def existing)
  with first \<open>length gs = 1\<close> show ?thesis by (auto simp: fulfilled_subscription_def)
qed

end
