(* ===== verification/Invoice.thy ===== *)
theory Invoice
  imports PointsTables
begin

text \<open>
  Invoices and credit notes: the entities and the status machine of
  \<open>domain/src/billing/invoice.rs\<close>, \<open>invoice_service.rs\<close> and \<open>credit_note.rs\<close>, the
  repositories \<open>infra/src/billing/invoice_postgres_repository.rs\<close> and
  \<open>credit_note_postgres_repository.rs\<close> over their tables (with the checks and unique indexes of
  \<open>0002_billing.sql\<close>), and the handlers of \<open>api-billing\<close> that change them: admin requests and the
  Stripe credit-note events.  A handler that reads, validates and then writes is a \<open>read_\<close>
  definition giving the write it asks for; the write is a transaction of the repository.

  What the code takes from outside is a parameter \<open>inv_ext\<close>: chrono's calendar and RFC 3339
  parser, PostgreSQL's conversion of text to \<open>NUMERIC(12,4)\<close> and \<open>NUMERIC(12,3)\<close> and back, and the
  operations on \<open>f64\<close>, a value of which is its bit pattern.  Sums of amounts wrap around, as
  \<open>i64\<close> does in a release build.  The foreign keys to the realm and subscription tables, the
  permission, policy and request-format checks of the handlers (which only refuse requests) and
  the list queries are not modelled.
\<close>

section \<open>Entities\<close>

type_synonym f64 = nat
type_synonym day = int

record inv_ext =
  ix_f64_parse :: "string \<Rightarrow> f64 option"
  ix_f64_is_finite :: "f64 \<Rightarrow> bool"
  ix_f64_le_zero :: "f64 \<Rightarrow> bool"
  ix_f64_mul_round :: "f64 \<Rightarrow> i64 \<Rightarrow> int"
  ix_f64_percent_round :: "i64 \<Rightarrow> f64 \<Rightarrow> int"
  ix_numeric4 :: "string \<Rightarrow> string option"
  ix_numeric3 :: "string \<Rightarrow> string option"
  ix_year :: "instant \<Rightarrow> int"
  ix_parse_rfc3339 :: "string \<Rightarrow> instant option"

datatype invoice_status = InvDraft | InvIssued | InvPaid | InvVoid | InvOverdue

definition invoice_status_as_str :: "invoice_status \<Rightarrow> string" where
  "invoice_status_as_str s = (case s of
       InvDraft \<Rightarrow> ''draft'' | InvIssued \<Rightarrow> ''issued'' | InvPaid \<Rightarrow> ''paid''
     | InvVoid \<Rightarrow> ''void'' | InvOverdue \<Rightarrow> ''overdue'')"

definition invoice_status_is_terminal :: "invoice_status \<Rightarrow> bool" where
  "invoice_status_is_terminal s \<longleftrightarrow> s \<in> {InvPaid, InvVoid}"

datatype invoice_source = AdminManual | UserApplication | ExternalSync

datatype invoice_provider = InvManual | InvStripe | InvCreem | InvWechat

definition invoice_provider_as_str :: "invoice_provider \<Rightarrow> string" where
  "invoice_provider_as_str p = (case p of
       InvManual \<Rightarrow> ''manual'' | InvStripe \<Rightarrow> ''stripe'' | InvCreem \<Rightarrow> ''creem'' | InvWechat \<Rightarrow> ''wechat'')"

datatype adjustment_mode = AdjFixed | AdjPercent

datatype actor_type = ActorUser | ActorSystem

datatype invoice_event_type =
  EvCreated | EvUpdated | EvIssued | EvPaid | EvVoided | EvOverdue | EvCreditNoteCreated | EvCreditNoteVoided

record invoice_amounts =
  am_subtotal :: i64
  am_discount_amount :: i64
  am_tax_amount :: i64
  am_shipping_amount :: i64
  am_total :: i64

text \<open>The groups of columns that the code moves together: buyer and seller, the inputs of the
  adjustments, and the provider's description of the invoice.\<close>

record party =
  pty_name :: "string option"
  pty_address :: "string option"
  pty_email :: "string option"
  pty_phone :: "string option"
  pty_tax_id :: "string option"

record adjustments =
  adj_discount_mode :: "adjustment_mode option"
  adj_discount_value :: "string option"
  adj_tax_mode :: "adjustment_mode option"
  adj_tax_value :: "string option"
  adj_shipping_mode :: "adjustment_mode option"
  adj_shipping_value :: "string option"

record external_info =
  xi_status :: "string option"
  xi_hosted_url :: "string option"
  xi_pdf_url :: "string option"
  xi_payload :: "string option"
  xi_tax_details :: "string option"

record invoice =
  inv_id :: uuid
  inv_realm_id :: string
  inv_number :: string
  inv_source :: invoice_source
  inv_account_id :: "uuid option"
  inv_applicant_user_id :: "uuid option"
  inv_subscription_id :: "uuid option"
  inv_payment_attempt_id :: "uuid option"
  inv_status :: invoice_status
  inv_currency :: string
  inv_provider :: invoice_provider
  inv_payment_provider :: "string option"
  inv_external_invoice_id :: "string option"
  inv_external_order_id :: "string option"
  inv_external :: external_info
  inv_issue_date :: "day option"
  inv_due_date :: "day option"
  inv_issued_at :: "instant option"
  inv_paid_at :: "instant option"
  inv_voided_at :: "instant option"
  inv_amounts :: invoice_amounts
  inv_amount_refunded :: i64
  inv_amount_remaining :: i64
  inv_adjustments :: adjustments
  inv_buyer :: party
  inv_seller :: party
  inv_notes :: "string option"
  inv_payment_terms :: "string option"
  inv_void_reason :: "string option"
  inv_created_at :: instant
  inv_updated_at :: instant

abbreviation inv_total :: "invoice \<Rightarrow> i64" where
  "inv_total x \<equiv> am_total (inv_amounts x)"

record invoice_line_item =
  li_id :: uuid
  li_invoice_id :: uuid
  li_sort_order :: int
  li_name :: string
  li_description :: "string option"
  li_quantity :: string
  li_unit_price :: i64
  li_subtotal :: i64

record invoice_history =
  ih_id :: uuid
  ih_invoice_id :: uuid
  ih_event_type :: invoice_event_type
  ih_actor_user_id :: "uuid option"
  ih_actor_type :: actor_type
  ih_changes :: "(string \<times> string) list"
  ih_created_at :: instant

record invoice_number_counter =
  ic_realm_id :: string
  ic_year :: int
  ic_next_seq :: i64
  ic_updated_at :: instant

record new_line_item =
  nli_name :: string
  nli_description :: "string option"
  nli_quantity :: string
  nli_unit_price :: i64

record new_invoice =
  ni_realm_id :: string
  ni_source :: invoice_source
  ni_account_id :: uuid
  ni_applicant_user_id :: "uuid option"
  ni_subscription_id :: "uuid option"
  ni_payment_attempt_id :: "uuid option"
  ni_currency :: string
  ni_line_items :: "new_line_item list"
  ni_actor_user_id :: "uuid option"
  ni_buyer :: party
  ni_seller :: party
  ni_adjustments :: adjustments
  ni_due_date :: day
  ni_payment_terms :: "string option"
  ni_notes :: "string option"

record update_invoice_draft =
  ud_realm_id :: string
  ud_invoice_id :: uuid
  ud_actor_user_id :: "uuid option"
  ud_buyer :: party
  ud_seller :: party
  ud_line_items :: "new_line_item list option"
  ud_adjustments :: adjustments
  ud_due_date :: "day option"
  ud_payment_terms :: "string option"
  ud_notes :: "string option"

record invoice_status_transition =
  tr_realm_id :: string
  tr_invoice_id :: uuid
  tr_target_status :: invoice_status
  tr_expected_current_status :: invoice_status
  tr_actor_user_id :: "uuid option"
  tr_actor_type :: actor_type
  tr_void_reason :: "string option"
  tr_issue_date :: "day option"
  tr_paid_at :: "instant option"

record external_invoice_data =
  xd_realm_id :: string
  xd_provider :: invoice_provider
  xd_payment_provider :: "string option"
  xd_external_invoice_id :: "string option"
  xd_external_order_id :: "string option"
  xd_info :: external_info
  xd_account_id :: "uuid option"
  xd_applicant_user_id :: "uuid option"
  xd_billing_name :: "string option"
  xd_billing_email :: "string option"
  xd_billing_phone :: "string option"
  xd_billing_address :: "string option"
  xd_currency :: string
  xd_total :: i64
  xd_status :: invoice_status
  xd_subscription_id :: "uuid option"
  xd_payment_attempt_id :: "uuid option"

datatype credit_note_source = NoteStripe | NoteManual

definition default_actor_type :: "credit_note_source \<Rightarrow> actor_type" where
  "default_actor_type s = (case s of NoteStripe \<Rightarrow> ActorSystem | NoteManual \<Rightarrow> ActorUser)"

definition credit_note_source_as_str :: "credit_note_source \<Rightarrow> string" where
  "credit_note_source_as_str s = (case s of NoteStripe \<Rightarrow> ''stripe'' | NoteManual \<Rightarrow> ''manual'')"

datatype credit_note_status = NoteActive | NoteVoided

record credit_note =
  cn_id :: uuid
  cn_invoice_id :: uuid
  cn_realm_id :: string
  cn_amount :: i64
  cn_currency :: string
  cn_source :: credit_note_source
  cn_status :: credit_note_status
  cn_external_id :: "string option"
  cn_memo :: "string option"
  cn_created_by_user_id :: "uuid option"
  cn_created_at :: instant

record new_credit_note =
  nn_invoice_id :: uuid
  nn_realm_id :: string
  nn_amount :: i64
  nn_currency :: string
  nn_source :: credit_note_source
  nn_external_id :: "string option"
  nn_memo :: "string option"
  nn_created_by_user_id :: "uuid option"

record inv_db =
  iv_invoices :: "invoice list"
  iv_items :: "invoice_line_item list"
  iv_history :: "invoice_history list"
  iv_notes :: "credit_note list"
  iv_counters :: "invoice_number_counter list"
  iv_seq :: nat

type_synonym 'a inv_tx = "(core_error, 'a \<times> inv_db) result"
type_synonym 'a inv_result = "(core_error, 'a) result \<times> inv_db"

text \<open>A transaction commits its changes when it succeeds and leaves the store alone otherwise.\<close>

definition inv_commit :: "'a inv_tx \<Rightarrow> inv_db \<Rightarrow> 'a inv_result" where
  "inv_commit tx db = (case tx of Inl e \<Rightarrow> (Inl e, db) | Inr (a, db') \<Rightarrow> (Inr a, db'))"

section \<open>Status machine\<close>

definition quoted :: "string \<Rightarrow> string" where
  "quoted s = CHR 0x27 # s @ [CHR 0x27]"

definition validate_status_transition ::
  "invoice_status \<Rightarrow> invoice_status \<Rightarrow> nat \<Rightarrow> i64 \<Rightarrow> actor_type \<Rightarrow> bool \<Rightarrow> string option
     \<Rightarrow> (core_error, unit) result" where
  "validate_status_transition current target line_item_count tot actor_type has_due_date_passed void_reason =
     (if invoice_status_is_terminal current
      then Inl (Conflict (''Invoice is in terminal state '' @ quoted (invoice_status_as_str current) @
                          '' and cannot be transitioned''))
      else case (current, target) of
        (InvDraft, InvIssued) \<Rightarrow>
          if line_item_count = 0 then Inl (BadRequest ''Cannot issue an invoice without line items'')
          else if tot \<le> 0 then Inl (BadRequest ''Cannot issue an invoice with total <= 0'')
          else Inr ()
      | (InvDraft, InvVoid) \<Rightarrow> Inr ()
      | (InvIssued, InvPaid) \<Rightarrow> Inr ()
      | (InvIssued, InvVoid) \<Rightarrow>
          if void_reason = None \<or> void_reason = Some ''''
          then Inl (BadRequest ''Void reason is required when voiding an issued invoice'')
          else Inr ()
      | (InvIssued, InvOverdue) \<Rightarrow>
          if actor_type \<noteq> ActorSystem then Inl (Forbidden ''Only the system can mark an invoice as overdue'')
          else if \<not> has_due_date_passed then Inl (BadRequest ''Invoice due date has not passed yet'')
          else Inr ()
      | (InvOverdue, InvPaid) \<Rightarrow> Inr ()
      | (InvOverdue, InvVoid) \<Rightarrow> Inr ()
      | _ \<Rightarrow> Inl (Conflict (''Invalid status transition from '' @ quoted (invoice_status_as_str current) @
                             '' to '' @ quoted (invoice_status_as_str target))))"

section \<open>Amounts\<close>

text \<open>\<open>str::parse::<i64>\<close>: an optional sign and at least one digit, in range.\<close>

definition is_digit :: "char \<Rightarrow> bool" where
  "is_digit c \<longleftrightarrow> 48 \<le> (of_char c :: nat) \<and> (of_char c :: nat) \<le> 57"

definition parse_i64 :: "string \<Rightarrow> i64 option" where
  "parse_i64 s =
     (let (negative, ds) = (case s of
            c # rest \<Rightarrow> if c = CHR ''-'' then (True, rest) else if c = CHR ''+'' then (False, rest) else (False, s)
          | [] \<Rightarrow> (False, []));
          n = (if negative then - int (read_digits ds) else int (read_digits ds))
      in if ds \<noteq> [] \<and> list_all is_digit ds \<and> in_i64 n then Some n else None)"

text \<open>\<open>as i64\<close> on a rounded \<open>f64\<close> saturates: the parameters give the integer (NaN as 0, an
  infinity as an integer beyond the range).\<close>

definition cast_i64 :: "int \<Rightarrow> i64" where
  "cast_i64 n = max i64_min (min i64_max n)"

definition calculate_line_item_subtotal :: "inv_ext \<Rightarrow> string \<Rightarrow> i64 \<Rightarrow> (core_error, i64) result" where
  "calculate_line_item_subtotal x quantity unit_price =
     and_then (ok_or (ix_f64_parse x quantity) (BadRequest (''Invalid quantity value: '' @ quantity))) (\<lambda>qty.
     and_then (ensure (ix_f64_is_finite x qty \<and> \<not> ix_f64_le_zero x qty)
                (BadRequest (''Quantity must be a positive number: '' @ quantity))) (\<lambda>_.
       Inr (cast_i64 (ix_f64_mul_round x qty unit_price))))"

definition calculate_adjustment ::
  "inv_ext \<Rightarrow> adjustment_mode option \<Rightarrow> string option \<Rightarrow> i64 \<Rightarrow> (core_error, i64) result" where
  "calculate_adjustment x mode val subtotal =
     (case (mode, val) of
        (Some AdjFixed, Some v) \<Rightarrow> ok_or (parse_i64 v) (BadRequest (''Invalid fixed value: '' @ v))
      | (Some AdjPercent, Some v) \<Rightarrow>
          and_then (ok_or (ix_f64_parse x v) (BadRequest (''Invalid percent value: '' @ v))) (\<lambda>pct.
            Inr (cast_i64 (ix_f64_percent_round x subtotal pct)))
      | _ \<Rightarrow> Inr 0)"

definition calculate_invoice_amounts ::
  "inv_ext \<Rightarrow> new_line_item list \<Rightarrow> adjustments \<Rightarrow> (core_error, invoice_amounts) result" where
  "calculate_invoice_amounts x line_items adj =
     and_then (try_fold (\<lambda>subtotal item.
         and_then (calculate_line_item_subtotal x (nli_quantity item) (nli_unit_price item)) (\<lambda>item_subtotal.
           Inr (wrap_i64 (subtotal + item_subtotal)))) 0 line_items) (\<lambda>subtotal.
     and_then (calculate_adjustment x (adj_discount_mode adj) (adj_discount_value adj) subtotal) (\<lambda>discount_amount.
     and_then (calculate_adjustment x (adj_tax_mode adj) (adj_tax_value adj) subtotal) (\<lambda>tax_amount.
     and_then (calculate_adjustment x (adj_shipping_mode adj) (adj_shipping_value adj) subtotal) (\<lambda>shipping_amount.
       Inr \<lparr>am_subtotal = subtotal, am_discount_amount = discount_amount, am_tax_amount = tax_amount,
            am_shipping_amount = shipping_amount,
            am_total = wrap_i64 (subtotal - discount_amount + tax_amount + shipping_amount)\<rparr>))))"

text \<open>\<open>{:04}\<close>: the sign counts towards the width.\<close>

definition pad_zeros :: "nat \<Rightarrow> string \<Rightarrow> string" where
  "pad_zeros w s = replicate (w - length s) (CHR ''0'') @ s"

definition format_invoice_number :: "int \<Rightarrow> i64 \<Rightarrow> string" where
  "format_invoice_number year seq =
     ''INV-'' @ show_int year @ ''-'' @
     (if seq < 0 then CHR ''-'' # pad_zeros 3 (show_nat (nat (- seq))) else pad_zeros 4 (show_nat (nat seq)))"

definition validate_external_invoice_readonly :: "invoice_provider \<Rightarrow> (core_error, unit) result" where
  "validate_external_invoice_readonly provider =
     ensure (provider = InvManual) (Forbidden ''This invoice is managed by the payment provider'')"

end
