(* ===== verification/InvoiceStore.thy ===== *)
theory InvoiceStore
  imports Invoice
begin

text \<open>
  The transactions of \<open>infra/src/billing/invoice_postgres_repository.rs\<close> and
  \<open>credit_note_postgres_repository.rs\<close>.  Each locks the rows it decides on (\<open>FOR UPDATE\<close>, or the
  advisory lock of the attribution), so it is one atomic step on the store.
\<close>

section \<open>Constraints\<close>

definition blank_address :: "string option \<Rightarrow> bool" where
  "blank_address a = (case a of None \<Rightarrow> False | Some s \<Rightarrow> list_all (\<lambda>c. c = CHR '' '') s)"

definition invoice_check :: "invoice \<Rightarrow> bool" where
  "invoice_check x \<longleftrightarrow> 0 \<le> am_subtotal (inv_amounts x) \<and> (0 \<le> inv_total x \<or> inv_provider x \<noteq> InvManual) \<and>
     0 \<le> inv_amount_refunded x \<and> 0 \<le> inv_amount_remaining x \<and>
     adj_shipping_mode (inv_adjustments x) \<noteq> Some AdjPercent \<and>
     (case inv_payment_provider x of None \<Rightarrow> True | Some s \<Rightarrow> length s \<le> 20) \<and>
     \<not> blank_address (pty_address (inv_buyer x)) \<and> \<not> blank_address (pty_address (inv_seller x))"

text \<open>SQL equality is never true of a null.\<close>

definition sql_eq :: "'a option \<Rightarrow> 'a option \<Rightarrow> bool" where
  "sql_eq a b \<longleftrightarrow> a \<noteq> None \<and> a = b"

definition invoice_key_conflict :: "invoice list \<Rightarrow> invoice \<Rightarrow> bool" where
  "invoice_key_conflict rows n \<longleftrightarrow> (\<exists>x \<in> set rows. inv_realm_id x = inv_realm_id n \<and> inv_id x \<noteq> inv_id n \<and>
     (inv_number x = inv_number n \<or> sql_eq (inv_external_invoice_id x) (inv_external_invoice_id n) \<or>
      sql_eq (inv_external_order_id x) (inv_external_order_id n)))"

definition insert_invoice_row :: "invoice \<Rightarrow> string \<Rightarrow> inv_db \<Rightarrow> (core_error, inv_db) result" where
  "insert_invoice_row n failed db =
     and_then (ensure (invoice_check n) (DatabaseError (failed @ ''invoice_check''))) (\<lambda>_.
     and_then (ensure (inv_id n \<notin> inv_id ` set (iv_invoices db)) (DatabaseError (failed @ ''invoice_pkey''))) (\<lambda>_.
     and_then (ensure (\<not> invoice_key_conflict (iv_invoices db) n) (DatabaseError (failed @ ''unique''))) (\<lambda>_.
       Inr (db\<lparr>iv_invoices := iv_invoices db @ [n]\<rparr>))))"

text \<open>An update of the row with this key: the new row has to satisfy the constraints.\<close>

definition update_invoice_row :: "uuid \<Rightarrow> (invoice \<Rightarrow> invoice) \<Rightarrow> string \<Rightarrow> inv_db \<Rightarrow> (core_error, inv_db) result" where
  "update_invoice_row i f failed db =
     and_then (ensure (\<forall>x \<in> set (iv_invoices db). inv_id x = i \<longrightarrow>
                 invoice_check (f x) \<and> \<not> invoice_key_conflict (iv_invoices db) (f x))
                (DatabaseError failed)) (\<lambda>_.
       Inr (db\<lparr>iv_invoices := update_where (\<lambda>x. inv_id x = i) f (iv_invoices db)\<rparr>))"

definition insert_invoice_history ::
  "env \<Rightarrow> uuid \<Rightarrow> invoice_event_type \<Rightarrow> uuid option \<Rightarrow> actor_type \<Rightarrow> (string \<times> string) list \<Rightarrow> inv_db
     \<Rightarrow> (core_error, inv_db) result" where
  "insert_invoice_history env invoice_id event_type actor_user_id actor_type changes db =
     (let i = env_uuid env (iv_seq db) in
      and_then (ensure (i \<notin> ih_id ` set (iv_history db)) (DatabaseError ''Failed to insert history: pkey'')) (\<lambda>_.
        Inr (db\<lparr>iv_history := iv_history db @
              [\<lparr>ih_id = i, ih_invoice_id = invoice_id, ih_event_type = event_type,
                ih_actor_user_id = actor_user_id, ih_actor_type = actor_type, ih_changes = changes,
                ih_created_at = env_now env\<rparr>],
              iv_seq := Suc (iv_seq db)\<rparr>)))"

definition find_invoice :: "inv_db \<Rightarrow> string \<Rightarrow> uuid \<Rightarrow> invoice option" where
  "find_invoice db realm_id invoice_id =
     find (\<lambda>x. inv_id x = invoice_id \<and> inv_realm_id x = realm_id) (iv_invoices db)"

definition invoice_items :: "inv_db \<Rightarrow> uuid \<Rightarrow> invoice_line_item list" where
  "invoice_items db invoice_id =
     sort_key li_sort_order (filter (\<lambda>l. li_invoice_id l = invoice_id) (iv_items db))"

definition find_with_items ::
  "inv_db \<Rightarrow> string \<Rightarrow> uuid \<Rightarrow> (invoice \<times> invoice_line_item list \<times> invoice_history list) option" where
  "find_with_items db realm_id invoice_id =
     (case find_invoice db realm_id invoice_id of
        None \<Rightarrow> None
      | Some x \<Rightarrow> Some (x, invoice_items db invoice_id,
          sort_key ih_created_at (filter (\<lambda>h. ih_invoice_id h = invoice_id) (iv_history db))))"

definition find_by_external_invoice_id :: "inv_db \<Rightarrow> string \<Rightarrow> string \<Rightarrow> invoice option" where
  "find_by_external_invoice_id db realm_id external_id =
     find (\<lambda>x. inv_realm_id x = realm_id \<and> inv_external_invoice_id x = Some external_id) (iv_invoices db)"

section \<open>Invoice numbers\<close>

definition reserve_invoice_number_tx :: "env \<Rightarrow> string \<Rightarrow> int \<Rightarrow> inv_db \<Rightarrow> string inv_tx" where
  "reserve_invoice_number_tx env realm_id year db =
     (case find (\<lambda>c. ic_realm_id c = realm_id \<and> ic_year c = year) (iv_counters db) of
        Some c \<Rightarrow>
          and_then (ensure (in_i64 (ic_next_seq c + 1)) (DatabaseError ''Failed to update counter: bigint out of range'')) (\<lambda>_.
            Inr (format_invoice_number year (ic_next_seq c),
                 db\<lparr>iv_counters := update_where (\<lambda>r. ic_realm_id r = realm_id \<and> ic_year r = year)
                       (\<lambda>r. r\<lparr>ic_next_seq := ic_next_seq r + 1, ic_updated_at := env_sql_now env\<rparr>) (iv_counters db)\<rparr>))
      | None \<Rightarrow>
          Inr (format_invoice_number year 1,
               db\<lparr>iv_counters := iv_counters db @
                   [\<lparr>ic_realm_id = realm_id, ic_year = year, ic_next_seq = 2, ic_updated_at = env_sql_now env\<rparr>]\<rparr>))"

definition next_invoice_number :: "env \<Rightarrow> string \<Rightarrow> int \<Rightarrow> inv_db \<Rightarrow> string inv_result" where
  "next_invoice_number env realm_id year db = inv_commit (reserve_invoice_number_tx env realm_id year db) db"

section \<open>Drafts\<close>

definition store_numeric :: "(string \<Rightarrow> string option) \<Rightarrow> string option \<Rightarrow> string \<Rightarrow> (core_error, string option) result" where
  "store_numeric numeric v failed =
     (case v of None \<Rightarrow> Inr None
      | Some s \<Rightarrow> and_then (ok_or (numeric s) (DatabaseError failed)) (\<lambda>t. Inr (Some t)))"

definition store_adjustments :: "inv_ext \<Rightarrow> adjustments \<Rightarrow> string \<Rightarrow> (core_error, adjustments) result" where
  "store_adjustments x adj failed =
     and_then (store_numeric (ix_numeric4 x) (adj_discount_value adj) failed) (\<lambda>discount_value.
     and_then (store_numeric (ix_numeric4 x) (adj_tax_value adj) failed) (\<lambda>tax_value.
     and_then (store_numeric (ix_numeric4 x) (adj_shipping_value adj) failed) (\<lambda>shipping_value.
       Inr (adj\<lparr>adj_discount_value := discount_value, adj_tax_value := tax_value,
                adj_shipping_value := shipping_value\<rparr>))))"

definition insert_line_item ::
  "env \<Rightarrow> inv_ext \<Rightarrow> uuid \<Rightarrow> inv_db \<Rightarrow> nat \<times> new_line_item \<Rightarrow> (core_error, inv_db) result" where
  "insert_line_item env x invoice_id db item =
     (let i = env_uuid env (iv_seq db) in
      and_then (calculate_line_item_subtotal x (nli_quantity (snd item)) (nli_unit_price (snd item))) (\<lambda>item_subtotal.
      and_then (ok_or (ix_numeric3 x (nli_quantity (snd item))) (DatabaseError ''Failed to insert line item: numeric'')) (\<lambda>quantity.
      and_then (ensure (i \<notin> li_id ` set (iv_items db)) (DatabaseError ''Failed to insert line item: pkey'')) (\<lambda>_.
        Inr (db\<lparr>iv_items := iv_items db @
              [\<lparr>li_id = i, li_invoice_id = invoice_id, li_sort_order = int (fst item), li_name = nli_name (snd item),
                li_description = nli_description (snd item), li_quantity = quantity,
                li_unit_price = nli_unit_price (snd item), li_subtotal = item_subtotal\<rparr>],
              iv_seq := Suc (iv_seq db)\<rparr>)))))"

definition insert_line_items ::
  "env \<Rightarrow> inv_ext \<Rightarrow> uuid \<Rightarrow> new_line_item list \<Rightarrow> inv_db \<Rightarrow> (core_error, inv_db) result" where
  "insert_line_items env x invoice_id items db =
     try_fold (insert_line_item env x invoice_id) db (List.enumerate 0 items)"

definition no_external_info :: external_info where
  "no_external_info = \<lparr>xi_status = None, xi_hosted_url = None, xi_pdf_url = None, xi_payload = None, xi_tax_details = None\<rparr>"

definition covers :: "uuid option \<Rightarrow> uuid option \<Rightarrow> invoice \<Rightarrow> bool" where
  "covers payment_attempt_id subscription_id x \<longleftrightarrow>
     sql_eq (inv_payment_attempt_id x) payment_attempt_id \<or> sql_eq (inv_subscription_id x) subscription_id"

definition draft_row :: "env \<Rightarrow> new_invoice \<Rightarrow> uuid \<Rightarrow> string \<Rightarrow> invoice_amounts \<Rightarrow> adjustments \<Rightarrow> invoice" where
  "draft_row env input i number amounts adj =
     \<lparr>inv_id = i, inv_realm_id = ni_realm_id input, inv_number = number, inv_source = ni_source input,
      inv_account_id = Some (ni_account_id input), inv_applicant_user_id = ni_applicant_user_id input,
      inv_subscription_id = ni_subscription_id input, inv_payment_attempt_id = ni_payment_attempt_id input,
      inv_status = InvDraft, inv_currency = ni_currency input, inv_provider = InvManual,
      inv_payment_provider = None, inv_external_invoice_id = None, inv_external_order_id = None,
      inv_external = no_external_info, inv_issue_date = None, inv_due_date = Some (ni_due_date input),
      inv_issued_at = None, inv_paid_at = None, inv_voided_at = None, inv_amounts = amounts,
      inv_amount_refunded = 0, inv_amount_remaining = am_total amounts, inv_adjustments = adj,
      inv_buyer = ni_buyer input, inv_seller = ni_seller input, inv_notes = ni_notes input,
      inv_payment_terms = ni_payment_terms input, inv_void_reason = None,
      inv_created_at = env_now env, inv_updated_at = env_now env\<rparr>"

definition create_invoice_tx :: "env \<Rightarrow> inv_ext \<Rightarrow> new_invoice \<Rightarrow> inv_db \<Rightarrow> invoice inv_tx" where
  "create_invoice_tx env x input db =
     (let i = env_uuid env (iv_seq db) in
      and_then (calculate_invoice_amounts x (ni_line_items input) (ni_adjustments input)) (\<lambda>amounts.
      and_then (ensure (\<not> (\<exists>y \<in> set (iv_invoices db). inv_realm_id y = ni_realm_id input \<and> inv_source y = ExternalSync \<and>
                            covers (ni_payment_attempt_id input) (ni_subscription_id input) y))
                 (Conflict ''An externally-synced invoice already exists for this resource'')) (\<lambda>_.
      and_then (reserve_invoice_number_tx env (ni_realm_id input) (ix_year x (env_now env)) db) (\<lambda>(number, db1).
      and_then (store_adjustments x (ni_adjustments input) ''Failed to insert invoice: numeric'') (\<lambda>adj.
      (let row = draft_row env input i number amounts adj in
      and_then (insert_invoice_row row ''Failed to insert invoice: '' (db1\<lparr>iv_seq := Suc (iv_seq db1)\<rparr>)) (\<lambda>db2.
      and_then (insert_line_items env x i (ni_line_items input) db2) (\<lambda>db3.
      and_then (insert_invoice_history env i EvCreated (ni_actor_user_id input) ActorUser
                 [(''status'', ''draft'')] db3) (\<lambda>db4.
        Inr (row, db4)))))))))) "

definition create_invoice :: "env \<Rightarrow> inv_ext \<Rightarrow> new_invoice \<Rightarrow> inv_db \<Rightarrow> invoice inv_result" where
  "create_invoice env x input db = inv_commit (create_invoice_tx env x input db) db"

text \<open>\<open>input.or(existing)\<close> on every optional column.\<close>

definition or_opt :: "'a option \<Rightarrow> 'a option \<Rightarrow> 'a option" where
  "or_opt a b = (case a of Some _ \<Rightarrow> a | None \<Rightarrow> b)"

definition merge_party :: "party \<Rightarrow> party \<Rightarrow> party" where
  "merge_party a b =
     \<lparr>pty_name = or_opt (pty_name a) (pty_name b), pty_address = or_opt (pty_address a) (pty_address b),
      pty_email = or_opt (pty_email a) (pty_email b), pty_phone = or_opt (pty_phone a) (pty_phone b),
      pty_tax_id = or_opt (pty_tax_id a) (pty_tax_id b)\<rparr>"

definition merge_adjustments :: "adjustments \<Rightarrow> adjustments \<Rightarrow> adjustments" where
  "merge_adjustments a b =
     \<lparr>adj_discount_mode = or_opt (adj_discount_mode a) (adj_discount_mode b),
      adj_discount_value = or_opt (adj_discount_value a) (adj_discount_value b),
      adj_tax_mode = or_opt (adj_tax_mode a) (adj_tax_mode b),
      adj_tax_value = or_opt (adj_tax_value a) (adj_tax_value b),
      adj_shipping_mode = or_opt (adj_shipping_mode a) (adj_shipping_mode b),
      adj_shipping_value = or_opt (adj_shipping_value a) (adj_shipping_value b)\<rparr>"

definition item_of_row :: "invoice_line_item \<Rightarrow> new_line_item" where
  "item_of_row l = \<lparr>nli_name = li_name l, nli_description = li_description l, nli_quantity = li_quantity l,
     nli_unit_price = li_unit_price l\<rparr>"

definition replace_items ::
  "env \<Rightarrow> inv_ext \<Rightarrow> uuid \<Rightarrow> new_line_item list option \<Rightarrow> adjustments \<Rightarrow> inv_db \<Rightarrow> invoice_amounts inv_tx" where
  "replace_items env x invoice_id line_items adj db =
     (case line_items of
        Some items \<Rightarrow>
          and_then (insert_line_items env x invoice_id items
                     (db\<lparr>iv_items := filter (\<lambda>l. li_invoice_id l \<noteq> invoice_id) (iv_items db)\<rparr>)) (\<lambda>db1.
          and_then (calculate_invoice_amounts x items adj) (\<lambda>amounts. Inr (amounts, db1)))
      | None \<Rightarrow>
          and_then (calculate_invoice_amounts x (map item_of_row (invoice_items db invoice_id)) adj) (\<lambda>amounts.
            Inr (amounts, db)))"

definition draft_update :: "env \<Rightarrow> update_invoice_draft \<Rightarrow> invoice_amounts \<Rightarrow> adjustments \<Rightarrow> invoice \<Rightarrow> invoice" where
  "draft_update env input amounts adj x =
     x\<lparr>inv_buyer := merge_party (ud_buyer input) (inv_buyer x), inv_seller := merge_party (ud_seller input) (inv_seller x),
       inv_due_date := or_opt (ud_due_date input) (inv_due_date x),
       inv_payment_terms := or_opt (ud_payment_terms input) (inv_payment_terms x),
       inv_notes := or_opt (ud_notes input) (inv_notes x), inv_adjustments := adj, inv_amounts := amounts,
       inv_amount_remaining := wrap_i64 (am_total amounts - inv_amount_refunded x), inv_updated_at := env_now env\<rparr>"

definition update_draft_tx :: "env \<Rightarrow> inv_ext \<Rightarrow> update_invoice_draft \<Rightarrow> inv_db \<Rightarrow> invoice inv_tx" where
  "update_draft_tx env x input db =
     and_then (ok_or (find_invoice db (ud_realm_id input) (ud_invoice_id input)) NotFound) (\<lambda>existing.
     and_then (ensure (inv_status existing = InvDraft)
                (Conflict (''Cannot update invoice in '' @ quoted (invoice_status_as_str (inv_status existing)) @ '' status''))) (\<lambda>_.
     (let adj = merge_adjustments (ud_adjustments input) (inv_adjustments existing) in
     and_then (replace_items env x (ud_invoice_id input) (ud_line_items input) adj db) (\<lambda>(amounts, db1).
     and_then (store_adjustments x adj ''Failed to update invoice: numeric'') (\<lambda>stored.
     and_then (update_invoice_row (ud_invoice_id input) (draft_update env input amounts stored)
                ''Failed to update invoice: invoice_check'' db1) (\<lambda>db2.
     and_then (insert_invoice_history env (ud_invoice_id input) EvUpdated (ud_actor_user_id input) ActorUser
                [(''action'', ''updated'')] db2) (\<lambda>db3.
       Inr (draft_update env input amounts stored existing, db3))))))))"

definition update_draft :: "env \<Rightarrow> inv_ext \<Rightarrow> update_invoice_draft \<Rightarrow> inv_db \<Rightarrow> invoice inv_result" where
  "update_draft env x input db = inv_commit (update_draft_tx env x input db) db"

section \<open>Status transitions\<close>

definition day_of :: "instant \<Rightarrow> day" where
  "day_of now = now div days 1"

definition transition_event :: "invoice_status \<Rightarrow> invoice_event_type" where
  "transition_event s = (case s of InvIssued \<Rightarrow> EvIssued | InvPaid \<Rightarrow> EvPaid | InvVoid \<Rightarrow> EvVoided
     | InvOverdue \<Rightarrow> EvOverdue | InvDraft \<Rightarrow> EvCreated)"

definition transition_columns :: "env \<Rightarrow> invoice_status_transition \<Rightarrow> invoice \<Rightarrow> invoice" where
  "transition_columns env input x =
     (let now = env_now env;
          target = tr_target_status input
      in x\<lparr>inv_status := target,
           inv_issued_at := or_opt (if target = InvIssued then Some now else None) (inv_issued_at x),
           inv_paid_at := or_opt (if target = InvPaid
                                  then Some (case tr_paid_at input of Some t \<Rightarrow> t | None \<Rightarrow> now) else None) (inv_paid_at x),
           inv_voided_at := or_opt (if target = InvVoid then Some now else None) (inv_voided_at x),
           inv_issue_date := or_opt (if target = InvIssued
                                     then Some (case tr_issue_date input of Some d \<Rightarrow> d | None \<Rightarrow> day_of now) else None)
                               (inv_issue_date x),
           inv_void_reason := or_opt (if target = InvVoid then tr_void_reason input else None) (inv_void_reason x),
           inv_updated_at := now\<rparr>)"

definition transition_status_tx :: "env \<Rightarrow> invoice_status_transition \<Rightarrow> inv_db \<Rightarrow> invoice inv_tx" where
  "transition_status_tx env input db =
     and_then (ok_or (find_invoice db (tr_realm_id input) (tr_invoice_id input)) NotFound) (\<lambda>current.
     and_then (ensure (inv_status current = tr_expected_current_status input)
                (Conflict (''Invoice no longer in status '' @
                   quoted (invoice_status_as_str (tr_expected_current_status input)) @ ''; refusing transition to '' @
                   quoted (invoice_status_as_str (tr_target_status input))))) (\<lambda>_.
     and_then (ensure (tr_target_status input \<noteq> InvDraft) (Conflict ''Cannot transition to draft'')) (\<lambda>_.
     and_then (update_invoice_row (tr_invoice_id input) (transition_columns env input)
                ''Failed to update status: invoice_check'' db) (\<lambda>db1.
     and_then (insert_invoice_history env (tr_invoice_id input) (transition_event (tr_target_status input))
                (tr_actor_user_id input) (tr_actor_type input)
                [(''field'', ''status''), (''from'', invoice_status_as_str (inv_status current)),
                 (''to'', invoice_status_as_str (tr_target_status input))] db1) (\<lambda>db2.
       Inr (transition_columns env input current, db2))))))"

definition transition_status :: "env \<Rightarrow> invoice_status_transition \<Rightarrow> inv_db \<Rightarrow> invoice inv_result" where
  "transition_status env input db = inv_commit (transition_status_tx env input db) db"

definition list_overdue_candidates :: "inv_db \<Rightarrow> instant \<Rightarrow> nat \<Rightarrow> invoice list" where
  "list_overdue_candidates db now limit =
     take limit (sort_key (\<lambda>x. the (inv_due_date x))
       (filter (\<lambda>x. inv_status x = InvIssued \<and> inv_provider x = InvManual \<and>
                    (case inv_due_date x of None \<Rightarrow> False | Some d \<Rightarrow> d < day_of now)) (iv_invoices db)))"

section \<open>Invoices synchronised from a provider\<close>

definition external_number :: "external_invoice_data \<Rightarrow> string" where
  "external_number d = ''EXT-'' @ to_uppercase (invoice_provider_as_str (xd_provider d)) @ ''-'' @
     (case xd_external_invoice_id d of Some i \<Rightarrow> i
      | None \<Rightarrow> (case xd_external_order_id d of Some i \<Rightarrow> i | None \<Rightarrow> ''unknown''))"

definition no_adjustments :: adjustments where
  "no_adjustments = \<lparr>adj_discount_mode = None, adj_discount_value = None, adj_tax_mode = None, adj_tax_value = None,
     adj_shipping_mode = None, adj_shipping_value = None\<rparr>"

definition no_party :: party where
  "no_party = \<lparr>pty_name = None, pty_address = None, pty_email = None, pty_phone = None, pty_tax_id = None\<rparr>"

definition external_row :: "env \<Rightarrow> uuid \<Rightarrow> external_invoice_data \<Rightarrow> invoice" where
  "external_row env i d =
     \<lparr>inv_id = i, inv_realm_id = xd_realm_id d, inv_number = external_number d, inv_source = ExternalSync,
      inv_account_id = xd_account_id d, inv_applicant_user_id = xd_applicant_user_id d,
      inv_subscription_id = xd_subscription_id d, inv_payment_attempt_id = xd_payment_attempt_id d,
      inv_status = xd_status d, inv_currency = xd_currency d, inv_provider = xd_provider d,
      inv_payment_provider = Some (case xd_payment_provider d of Some p \<Rightarrow> p
                                   | None \<Rightarrow> invoice_provider_as_str (xd_provider d)),
      inv_external_invoice_id = xd_external_invoice_id d, inv_external_order_id = xd_external_order_id d,
      inv_external = xd_info d, inv_issue_date = None, inv_due_date = None, inv_issued_at = None,
      inv_paid_at = None, inv_voided_at = None,
      inv_amounts = \<lparr>am_subtotal = 0, am_discount_amount = 0, am_tax_amount = 0, am_shipping_amount = 0,
                     am_total = xd_total d\<rparr>,
      inv_amount_refunded = 0, inv_amount_remaining = xd_total d, inv_adjustments = no_adjustments,
      inv_buyer = no_party\<lparr>pty_name := xd_billing_name d, pty_address := xd_billing_address d,
                           pty_email := xd_billing_email d, pty_phone := xd_billing_phone d\<rparr>,
      inv_seller = no_party, inv_notes = None, inv_payment_terms = None, inv_void_reason = None,
      inv_created_at = env_now env, inv_updated_at = env_now env\<rparr>"

text \<open>The row that stops the insert: the one with the same external invoice id, or with the same
  order id when the data has no invoice id.\<close>

definition external_match :: "external_invoice_data \<Rightarrow> invoice \<Rightarrow> bool" where
  "external_match d x \<longleftrightarrow> inv_realm_id x = xd_realm_id d \<and>
     (if xd_external_invoice_id d \<noteq> None then inv_external_invoice_id x = xd_external_invoice_id d
      else sql_eq (inv_external_order_id x) (xd_external_order_id d))"

definition external_update :: "env \<Rightarrow> external_invoice_data \<Rightarrow> invoice \<Rightarrow> invoice" where
  "external_update env d x =
     (let info = xd_info d; old = inv_external x; by_invoice = xd_external_invoice_id d \<noteq> None in
      x\<lparr>inv_external := (if by_invoice
           then info\<lparr>xi_hosted_url := or_opt (xi_hosted_url info) (xi_hosted_url old),
                      xi_pdf_url := or_opt (xi_pdf_url info) (xi_pdf_url old)\<rparr>
           else info\<lparr>xi_hosted_url := xi_hosted_url old, xi_pdf_url := xi_pdf_url old\<rparr>),
        inv_external_order_id := (if by_invoice then or_opt (xd_external_order_id d) (inv_external_order_id x)
                                  else inv_external_order_id x),
        inv_subscription_id := or_opt (xd_subscription_id d) (inv_subscription_id x),
        inv_payment_attempt_id := or_opt (xd_payment_attempt_id d) (inv_payment_attempt_id x),
        inv_account_id := or_opt (xd_account_id d) (inv_account_id x),
        inv_applicant_user_id := or_opt (xd_applicant_user_id d) (inv_applicant_user_id x),
        inv_buyer := (inv_buyer x)\<lparr>pty_name := or_opt (xd_billing_name d) (pty_name (inv_buyer x)),
                       pty_email := or_opt (xd_billing_email d) (pty_email (inv_buyer x)),
                       pty_phone := or_opt (xd_billing_phone d) (pty_phone (inv_buyer x)),
                       pty_address := or_opt (xd_billing_address d) (pty_address (inv_buyer x))\<rparr>,
        inv_status := xd_status d, inv_updated_at := env_sql_now env\<rparr>)"

definition upsert_external_invoice_tx :: "env \<Rightarrow> external_invoice_data \<Rightarrow> inv_db \<Rightarrow> invoice inv_tx" where
  "upsert_external_invoice_tx env d db =
     (let row = external_row env (env_uuid env (iv_seq db)) d;
          rows = iv_invoices db;
          covered = (if \<exists>x \<in> set rows. inv_realm_id x = xd_realm_id d \<and> inv_source x = ExternalSync \<and>
                          (sql_eq (inv_external_invoice_id x) (xd_external_invoice_id d) \<or>
                           sql_eq (inv_external_order_id x) (xd_external_order_id d)) then None
                     else find (\<lambda>x. inv_realm_id x = xd_realm_id d \<and> inv_source x \<in> {AdminManual, UserApplication} \<and>
                                    covers (xd_payment_attempt_id d) (xd_subscription_id d) x) rows)
      in case covered of
           Some manual \<Rightarrow> Inr (manual, db)
         | None \<Rightarrow>
             and_then (ensure (invoice_check row) (DatabaseError ''Failed to upsert external invoice: invoice_check'')) (\<lambda>_.
             (case find (external_match d) rows of
                None \<Rightarrow>
                  and_then (insert_invoice_row row ''Failed to upsert external invoice: ''
                             (db\<lparr>iv_seq := Suc (iv_seq db)\<rparr>)) (\<lambda>db1. Inr (row, db1))
              | Some x \<Rightarrow>
                  and_then (update_invoice_row (inv_id x) (external_update env d)
                             ''Failed to upsert external invoice: unique'' db) (\<lambda>db1.
                    Inr (external_update env d x, db1)))))"

definition upsert_external_invoice :: "env \<Rightarrow> external_invoice_data \<Rightarrow> inv_db \<Rightarrow> invoice inv_result" where
  "upsert_external_invoice env d db = inv_commit (upsert_external_invoice_tx env d db) db"

section \<open>Credit notes\<close>

definition find_by_external_id :: "inv_db \<Rightarrow> string \<Rightarrow> credit_note option" where
  "find_by_external_id db external_id = find (\<lambda>n. cn_external_id n = Some external_id) (iv_notes db)"

definition find_by_invoice_id :: "inv_db \<Rightarrow> string \<Rightarrow> uuid \<Rightarrow> credit_note list" where
  "find_by_invoice_id db realm_id invoice_id =
     sort_key cn_created_at (filter (\<lambda>n. cn_realm_id n = realm_id \<and> cn_invoice_id n = invoice_id) (iv_notes db))"

text \<open>Both columns are \<open>BIGINT\<close>: a value out of range is an error of the statement.\<close>

definition add_refund :: "env \<Rightarrow> i64 \<Rightarrow> invoice \<Rightarrow> invoice" where
  "add_refund env amount x =
     x\<lparr>inv_amount_refunded := inv_amount_refunded x + amount,
       inv_amount_remaining := inv_amount_remaining x - amount, inv_updated_at := env_sql_now env\<rparr>"

definition refund_invoice :: "env \<Rightarrow> uuid \<Rightarrow> i64 \<Rightarrow> string \<Rightarrow> inv_db \<Rightarrow> (core_error, inv_db) result" where
  "refund_invoice env invoice_id amount failed db =
     and_then (ensure (\<forall>x \<in> set (iv_invoices db). inv_id x = invoice_id \<longrightarrow>
                 in_i64 (inv_amount_refunded x + amount) \<and> in_i64 (inv_amount_remaining x - amount))
                (DatabaseError (failed @ ''bigint out of range''))) (\<lambda>_.
       update_invoice_row invoice_id (add_refund env amount) (failed @ ''invoice_check'') db)"

definition note_row :: "env \<Rightarrow> uuid \<Rightarrow> new_credit_note \<Rightarrow> credit_note" where
  "note_row env i input =
     \<lparr>cn_id = i, cn_invoice_id = nn_invoice_id input, cn_realm_id = nn_realm_id input,
      cn_amount = nn_amount input, cn_currency = nn_currency input, cn_source = nn_source input,
      cn_status = NoteActive, cn_external_id = nn_external_id input, cn_memo = nn_memo input,
      cn_created_by_user_id = nn_created_by_user_id input, cn_created_at = env_now env\<rparr>"

definition insert_note :: "credit_note \<Rightarrow> inv_db \<Rightarrow> (core_error, inv_db) result" where
  "insert_note n db =
     and_then (ensure (cn_id n \<notin> cn_id ` set (iv_notes db)) (DatabaseError ''Failed to insert credit note: pkey'')) (\<lambda>_.
     and_then (ensure (\<not> (\<exists>m \<in> set (iv_notes db). sql_eq (cn_external_id m) (cn_external_id n)))
                (DatabaseError ''Failed to insert credit note: uk_credit_note_external_id'')) (\<lambda>_.
       Inr (db\<lparr>iv_notes := iv_notes db @ [n], iv_seq := Suc (iv_seq db)\<rparr>)))"

definition create_credit_note_tx :: "env \<Rightarrow> new_credit_note \<Rightarrow> inv_db \<Rightarrow> credit_note inv_tx" where
  "create_credit_note_tx env input db =
     and_then (ensure (0 < nn_amount input) (BadRequest ''Credit note amount must be positive'')) (\<lambda>_.
     and_then (ok_or (find_invoice db (nn_realm_id input) (nn_invoice_id input)) NotFound) (\<lambda>x.
     and_then (ensure (to_uppercase (nn_currency input) = to_uppercase (inv_currency x))
                (BadRequest (''Credit note currency '' @ nn_currency input @
                             '' does not match invoice currency '' @ inv_currency x))) (\<lambda>_.
     (case (if nn_source input = NoteStripe then Option.bind (nn_external_id input) (find_by_external_id db) else None) of
        Some existing \<Rightarrow> Inr (existing, db)
      | None \<Rightarrow>
          and_then (ensure (nn_amount input \<le> inv_amount_remaining x)
                     (BadRequest (''Credit note amount '' @ show_int (nn_amount input) @
                                  '' exceeds invoice remaining amount '' @ show_int (inv_amount_remaining x)))) (\<lambda>_.
          (let n = note_row env (env_uuid env (iv_seq db)) input in
          and_then (insert_note n db) (\<lambda>db1.
          and_then (refund_invoice env (nn_invoice_id input) (nn_amount input)
                     ''Failed to update invoice refund totals: '' db1) (\<lambda>db2.
          and_then (insert_invoice_history env (nn_invoice_id input) EvCreditNoteCreated
                     (case nn_source input of NoteManual \<Rightarrow> nn_created_by_user_id input | NoteStripe \<Rightarrow> None)
                     (default_actor_type (nn_source input))
                     [(''action'', ''credit_note_created''), (''amount'', show_int (nn_amount input)),
                      (''source'', credit_note_source_as_str (nn_source input))] db2) (\<lambda>db3.
            Inr (n, db3))))))))))"

definition create_credit_note_and_update_invoice ::
  "env \<Rightarrow> new_credit_note \<Rightarrow> inv_db \<Rightarrow> credit_note inv_result" where
  "create_credit_note_and_update_invoice env input db = inv_commit (create_credit_note_tx env input db) db"

definition void_credit_note_tx :: "env \<Rightarrow> string \<Rightarrow> string \<Rightarrow> inv_db \<Rightarrow> credit_note inv_tx" where
  "void_credit_note_tx env realm_id external_id db =
     and_then (ok_or (find (\<lambda>n. cn_external_id n = Some external_id \<and> cn_realm_id n = realm_id) (iv_notes db))
                (DatabaseError (''Credit note with external id '' @ external_id @ '' not found in realm '' @ realm_id))) (\<lambda>n.
     if cn_status n = NoteVoided then Inr (n, db)
     else
       and_then (refund_invoice env (cn_invoice_id n) (- cn_amount n)
                  ''Failed to reverse invoice refund totals: '' db) (\<lambda>db1.
       and_then (insert_invoice_history env (cn_invoice_id n) EvCreditNoteVoided (cn_created_by_user_id n)
                  (default_actor_type (cn_source n))
                  [(''action'', ''credit_note_voided''), (''amount'', show_int (cn_amount n)),
                   (''source'', credit_note_source_as_str (cn_source n)), (''external_credit_note_id'', external_id)]
                  (db1\<lparr>iv_notes := update_where (\<lambda>m. cn_id m = cn_id n) (\<lambda>m. m\<lparr>cn_status := NoteVoided\<rparr>)
                                    (iv_notes db1)\<rparr>)) (\<lambda>db2.
         Inr (n\<lparr>cn_status := NoteVoided\<rparr>, db2))))"

definition void_credit_note_by_external_id :: "env \<Rightarrow> string \<Rightarrow> string \<Rightarrow> inv_db \<Rightarrow> credit_note inv_result" where
  "void_credit_note_by_external_id env realm_id external_id db =
     inv_commit (void_credit_note_tx env realm_id external_id db) db"

definition update_external_memo :: "string \<Rightarrow> string \<Rightarrow> string option \<Rightarrow> inv_db \<Rightarrow> unit inv_result" where
  "update_external_memo realm_id external_id memo db =
     (let p = (\<lambda>n. cn_realm_id n = realm_id \<and> cn_external_id n = Some external_id \<and> cn_source n = NoteStripe) in
      if \<exists>n \<in> set (iv_notes db). p n
      then (Inr (), db\<lparr>iv_notes := update_where p (\<lambda>n. n\<lparr>cn_memo := memo\<rparr>) (iv_notes db)\<rparr>)
      else (Inl NotFound, db))"

end
