(* ===== verification/InvoiceHandlers.thy ===== *)
theory InvoiceHandlers
  imports InvoiceStore
begin

text \<open>
  The callers of the invoice repositories: the invoice service
  (\<open>domain/src/billing/invoice_service.rs\<close>, whose overdue sweep the worker runs), the admin
  handlers of \<open>api-billing/src/invoice_handlers.rs\<close> and the Stripe credit-note events of
  \<open>stripe_webhook_handlers.rs\<close>.  The reading half of each (a \<open>read_\<close> definition) validates what
  it loaded and gives the write to make; a request is its reading half followed by that write.
  Two messages have a dash in the source that is a hyphen here.
\<close>

section \<open>Admin requests\<close>

definition load_detail ::
  "inv_db \<Rightarrow> string \<Rightarrow> uuid \<Rightarrow> (core_error, invoice \<times> invoice_line_item list \<times> invoice_history list) result" where
  "load_detail db realm_id invoice_id = ok_or (find_with_items db realm_id invoice_id) NotFound"

definition read_update_invoice :: "update_invoice_draft \<Rightarrow> inv_db \<Rightarrow> (core_error, update_invoice_draft) result" where
  "read_update_invoice update db =
     and_then (load_detail db (ud_realm_id update) (ud_invoice_id update)) (\<lambda>(x, items, history).
     and_then (validate_external_invoice_readonly (inv_provider x)) (\<lambda>_. Inr update))"

definition is_space :: "char \<Rightarrow> bool" where
  "is_space c \<longleftrightarrow> (of_char c :: nat) = 32 \<or> 9 \<le> (of_char c :: nat) \<and> (of_char c :: nat) \<le> 13"

definition has_text :: "string option \<Rightarrow> bool" where
  "has_text s = (case s of None \<Rightarrow> False | Some t \<Rightarrow> \<not> list_all is_space t)"

definition read_issue_invoice ::
  "env \<Rightarrow> string \<Rightarrow> uuid \<Rightarrow> uuid option \<Rightarrow> day option \<Rightarrow> inv_db \<Rightarrow> (core_error, invoice_status_transition) result" where
  "read_issue_invoice env realm_id invoice_id actor_user_id requested db =
     and_then (load_detail db realm_id invoice_id) (\<lambda>(x, items, history).
     and_then (validate_external_invoice_readonly (inv_provider x)) (\<lambda>_.
     and_then (validate_status_transition (inv_status x) InvIssued (length items) (inv_total x) ActorUser False None) (\<lambda>_.
     (let issue_date = (case requested of Some d \<Rightarrow> d | None \<Rightarrow> day_of (env_now env)) in
     and_then (ensure (case inv_due_date x of None \<Rightarrow> True | Some due \<Rightarrow> issue_date \<le> due)
                (BadRequest ''due_date must be on or after issue_date'')) (\<lambda>_.
     and_then (ensure (has_text (pty_email (inv_buyer x)) \<or> has_text (pty_phone (inv_buyer x)))
                (BadRequest ''At least one of billing_email or billing_phone must be provided'')) (\<lambda>_.
       Inr \<lparr>tr_realm_id = realm_id, tr_invoice_id = invoice_id, tr_target_status = InvIssued,
            tr_expected_current_status = inv_status x, tr_actor_user_id = actor_user_id, tr_actor_type = ActorUser,
            tr_void_reason = None, tr_issue_date = Some issue_date, tr_paid_at = None\<rparr>))))))"

definition read_void_invoice ::
  "string \<Rightarrow> uuid \<Rightarrow> uuid option \<Rightarrow> string option \<Rightarrow> inv_db \<Rightarrow> (core_error, invoice_status_transition) result" where
  "read_void_invoice realm_id invoice_id actor_user_id void_reason db =
     and_then (load_detail db realm_id invoice_id) (\<lambda>(x, items, history).
     and_then (validate_external_invoice_readonly (inv_provider x)) (\<lambda>_.
     (let notes = find_by_invoice_id db realm_id invoice_id in
     and_then (ensure (\<not> list_ex (\<lambda>n. cn_status n = NoteActive) notes)
                (Conflict ''Invoice cannot be voided while it has active refund credit notes'')) (\<lambda>_.
     and_then (if inv_status x = InvPaid \<and> list_ex (\<lambda>n. cn_status n = NoteVoided) notes then Inr ()
               else validate_status_transition (inv_status x) InvVoid (length items) (inv_total x) ActorUser False void_reason) (\<lambda>_.
       Inr \<lparr>tr_realm_id = realm_id, tr_invoice_id = invoice_id, tr_target_status = InvVoid,
            tr_expected_current_status = inv_status x, tr_actor_user_id = actor_user_id, tr_actor_type = ActorUser,
            tr_void_reason = void_reason, tr_issue_date = None, tr_paid_at = None\<rparr>)))))"

definition parse_optional_paid_at :: "inv_ext \<Rightarrow> string option \<Rightarrow> (core_error, instant option) result" where
  "parse_optional_paid_at x v =
     (case v of None \<Rightarrow> Inr None
      | Some s \<Rightarrow> and_then (ok_or (ix_parse_rfc3339 x s) (BadRequest ''paidAt must be a valid RFC3339 timestamp''))
                   (\<lambda>t. Inr (Some t)))"

definition read_mark_paid ::
  "inv_ext \<Rightarrow> string \<Rightarrow> uuid \<Rightarrow> uuid option \<Rightarrow> string option \<Rightarrow> inv_db \<Rightarrow> (core_error, invoice_status_transition) result" where
  "read_mark_paid ext realm_id invoice_id actor_user_id requested db =
     and_then (load_detail db realm_id invoice_id) (\<lambda>(x, items, history).
     and_then (validate_external_invoice_readonly (inv_provider x)) (\<lambda>_.
     and_then (validate_status_transition (inv_status x) InvPaid (length items) (inv_total x) ActorUser False None) (\<lambda>_.
     and_then (parse_optional_paid_at ext requested) (\<lambda>paid_at.
       Inr \<lparr>tr_realm_id = realm_id, tr_invoice_id = invoice_id, tr_target_status = InvPaid,
            tr_expected_current_status = inv_status x, tr_actor_user_id = actor_user_id, tr_actor_type = ActorUser,
            tr_void_reason = None, tr_issue_date = None, tr_paid_at = paid_at\<rparr>))))"

definition read_create_credit_note ::
  "string \<Rightarrow> uuid \<Rightarrow> uuid \<Rightarrow> i64 \<Rightarrow> string \<Rightarrow> inv_db \<Rightarrow> (core_error, new_credit_note) result" where
  "read_create_credit_note realm_id invoice_id actor_user_id amount memo db =
     and_then (ensure (1 \<le> amount \<and> 1 \<le> length memo \<and> length memo \<le> 500) (BadRequest ''Validation failed'')) (\<lambda>_.
     and_then (load_detail db realm_id invoice_id) (\<lambda>(x, items, history).
     and_then (ensure (inv_provider x = InvManual) (Forbidden ''Refunds for this provider are managed externally'')) (\<lambda>_.
     and_then (ensure (inv_status x = InvPaid) (BadRequest ''Only paid invoices support refund recording'')) (\<lambda>_.
     and_then (ensure (amount \<le> inv_amount_remaining x) (BadRequest ''Refund amount exceeds remaining payable'')) (\<lambda>_.
       Inr \<lparr>nn_invoice_id = invoice_id, nn_realm_id = realm_id, nn_amount = amount, nn_currency = inv_currency x,
            nn_source = NoteManual, nn_external_id = None, nn_memo = Some memo,
            nn_created_by_user_id = Some actor_user_id\<rparr>)))))"

text \<open>A request: read, then write.\<close>

definition read_then ::
  "(inv_db \<Rightarrow> (core_error, 'w) result) \<Rightarrow> ('w \<Rightarrow> inv_db \<Rightarrow> 'a inv_result) \<Rightarrow> inv_db \<Rightarrow> 'a inv_result" where
  "read_then rd wr db = (case rd db of Inl e \<Rightarrow> (Inl e, db) | Inr w \<Rightarrow> wr w db)"

definition update_invoice :: "env \<Rightarrow> inv_ext \<Rightarrow> update_invoice_draft \<Rightarrow> inv_db \<Rightarrow> invoice inv_result" where
  "update_invoice env x update = read_then (read_update_invoice update) (update_draft env x)"

definition issue_invoice :: "env \<Rightarrow> string \<Rightarrow> uuid \<Rightarrow> uuid option \<Rightarrow> day option \<Rightarrow> inv_db \<Rightarrow> invoice inv_result" where
  "issue_invoice env realm_id invoice_id actor issue_date =
     read_then (read_issue_invoice env realm_id invoice_id actor issue_date) (transition_status env)"

definition void_invoice :: "env \<Rightarrow> string \<Rightarrow> uuid \<Rightarrow> uuid option \<Rightarrow> string option \<Rightarrow> inv_db \<Rightarrow> invoice inv_result" where
  "void_invoice env realm_id invoice_id actor void_reason =
     read_then (read_void_invoice realm_id invoice_id actor void_reason) (transition_status env)"

definition mark_paid :: "env \<Rightarrow> inv_ext \<Rightarrow> string \<Rightarrow> uuid \<Rightarrow> uuid option \<Rightarrow> string option \<Rightarrow> inv_db \<Rightarrow> invoice inv_result" where
  "mark_paid env x realm_id invoice_id actor paid_at =
     read_then (read_mark_paid x realm_id invoice_id actor paid_at) (transition_status env)"

definition create_credit_note :: "env \<Rightarrow> string \<Rightarrow> uuid \<Rightarrow> uuid \<Rightarrow> i64 \<Rightarrow> string \<Rightarrow> inv_db \<Rightarrow> credit_note inv_result" where
  "create_credit_note env realm_id invoice_id actor amount memo =
     read_then (read_create_credit_note realm_id invoice_id actor amount memo) (create_credit_note_and_update_invoice env)"

section \<open>The invoice service\<close>

definition read_service ::
  "string \<Rightarrow> uuid \<Rightarrow> invoice_status \<Rightarrow> uuid option \<Rightarrow> actor_type \<Rightarrow> string option \<Rightarrow> inv_db
     \<Rightarrow> (core_error, invoice_status_transition) result" where
  "read_service realm_id invoice_id target actor_user_id actor_type void_reason db =
     and_then (ok_or (find_with_items db realm_id invoice_id) NotFound) (\<lambda>(x, items, history).
     and_then (validate_status_transition (inv_status x) target (length items) (inv_total x) actor_type False void_reason) (\<lambda>_.
       Inr \<lparr>tr_realm_id = realm_id, tr_invoice_id = invoice_id, tr_target_status = target,
            tr_expected_current_status = inv_status x, tr_actor_user_id = actor_user_id, tr_actor_type = actor_type,
            tr_void_reason = void_reason, tr_issue_date = None, tr_paid_at = None\<rparr>))"

definition service_issue :: "env \<Rightarrow> string \<Rightarrow> uuid \<Rightarrow> uuid option \<Rightarrow> actor_type \<Rightarrow> inv_db \<Rightarrow> invoice inv_result" where
  "service_issue env realm_id invoice_id actor ty =
     read_then (read_service realm_id invoice_id InvIssued actor ty None) (transition_status env)"

definition service_void ::
  "env \<Rightarrow> string \<Rightarrow> uuid \<Rightarrow> uuid option \<Rightarrow> actor_type \<Rightarrow> string option \<Rightarrow> inv_db \<Rightarrow> invoice inv_result" where
  "service_void env realm_id invoice_id actor ty void_reason =
     read_then (read_service realm_id invoice_id InvVoid actor ty void_reason) (transition_status env)"

definition service_mark_paid :: "env \<Rightarrow> string \<Rightarrow> uuid \<Rightarrow> uuid option \<Rightarrow> actor_type \<Rightarrow> inv_db \<Rightarrow> invoice inv_result" where
  "service_mark_paid env realm_id invoice_id actor ty =
     read_then (read_service realm_id invoice_id InvPaid actor ty None) (transition_status env)"

definition overdue_transition :: "invoice \<Rightarrow> invoice_status_transition" where
  "overdue_transition x =
     \<lparr>tr_realm_id = inv_realm_id x, tr_invoice_id = inv_id x, tr_target_status = InvOverdue,
      tr_expected_current_status = InvIssued, tr_actor_user_id = None, tr_actor_type = ActorSystem,
      tr_void_reason = None, tr_issue_date = None, tr_paid_at = None\<rparr>"

record overdue_mark_result =
  om_candidates :: nat
  om_marked :: nat
  om_errors :: nat

fun overdue_loop :: "env \<Rightarrow> invoice list \<Rightarrow> nat \<Rightarrow> nat \<Rightarrow> inv_db \<Rightarrow> (nat \<times> nat) \<times> inv_db" where
  "overdue_loop env [] marked errors db = ((marked, errors), db)"
| "overdue_loop env (x # xs) marked errors db =
     (case transition_status env (overdue_transition x) db of
        (Inr _, db') \<Rightarrow> overdue_loop env xs (Suc marked) errors db'
      | (Inl (Conflict _), db') \<Rightarrow> overdue_loop env xs marked errors db'
      | (Inl _, db') \<Rightarrow> overdue_loop env xs marked (Suc errors) db')"

definition mark_overdue_by_system :: "env \<Rightarrow> instant \<Rightarrow> nat \<Rightarrow> inv_db \<Rightarrow> overdue_mark_result inv_result" where
  "mark_overdue_by_system env now limit db =
     (let candidates = list_overdue_candidates db now limit;
          ((marked, errors), db') = overdue_loop env candidates 0 0 db
      in (Inr \<lparr>om_candidates = length candidates, om_marked = marked, om_errors = errors\<rparr>, db'))"

section \<open>Stripe credit-note events\<close>

record credit_note_payload =
  np_stripe_invoice_id :: string
  np_stripe_credit_note_id :: string
  np_amount :: i64
  np_currency :: string
  np_memo :: "string option"

text \<open>No write to make: another provider's invoice, or an event already processed.\<close>

definition read_credit_note_created ::
  "string \<Rightarrow> credit_note_payload \<Rightarrow> inv_db \<Rightarrow> (core_error, new_credit_note option) result" where
  "read_credit_note_created realm_id p db =
     (case find_by_external_invoice_id db realm_id (np_stripe_invoice_id p) of
        None \<Rightarrow> Inl (InternalServerError (''Invoice '' @ np_stripe_invoice_id p @ '' not yet synced for credit note '' @
                       np_stripe_credit_note_id p @ '' - request Stripe redelivery''))
      | Some x \<Rightarrow>
          if inv_provider x \<noteq> InvStripe then Inr None
          else if find_by_external_id db (np_stripe_credit_note_id p) \<noteq> None then Inr None
          else
            and_then (ensure (to_uppercase (np_currency p) = to_uppercase (inv_currency x))
                       (BadRequest (''Credit note currency '' @ np_currency p @
                                    '' does not match invoice currency '' @ inv_currency x))) (\<lambda>_.
              Inr (Some \<lparr>nn_invoice_id = inv_id x, nn_realm_id = realm_id, nn_amount = np_amount p,
                         nn_currency = np_currency p, nn_source = NoteStripe,
                         nn_external_id = Some (np_stripe_credit_note_id p), nn_memo = np_memo p,
                         nn_created_by_user_id = None\<rparr>)))"

definition handle_credit_note_created :: "env \<Rightarrow> string \<Rightarrow> credit_note_payload \<Rightarrow> inv_db \<Rightarrow> unit inv_result" where
  "handle_credit_note_created env realm_id p db =
     (case read_credit_note_created realm_id p db of
        Inl e \<Rightarrow> (Inl e, db)
      | Inr None \<Rightarrow> (Inr (), db)
      | Inr (Some n) \<Rightarrow>
          (case create_credit_note_and_update_invoice env n db of
             (Inl e, db') \<Rightarrow> (Inl e, db')
           | (Inr _, db') \<Rightarrow> (Inr (), db')))"

definition handle_credit_note_updated :: "env \<Rightarrow> string \<Rightarrow> credit_note_payload \<Rightarrow> inv_db \<Rightarrow> unit inv_result" where
  "handle_credit_note_updated env realm_id p db =
     (case handle_credit_note_created env realm_id p db of
        (Inl e, db') \<Rightarrow> (Inl e, db')
      | (Inr _, db') \<Rightarrow> update_external_memo realm_id (np_stripe_credit_note_id p) (np_memo p) db')"

definition read_credit_note_voided :: "credit_note_payload \<Rightarrow> inv_db \<Rightarrow> (core_error, string option) result" where
  "read_credit_note_voided p db =
     (case find_by_external_id db (np_stripe_credit_note_id p) of
        None \<Rightarrow> Inl (InternalServerError (''Credit note '' @ np_stripe_credit_note_id p @
                       '' not yet created - request Stripe redelivery''))
      | Some n \<Rightarrow> Inr (if cn_status n = NoteVoided then None else Some (np_stripe_credit_note_id p)))"

definition handle_credit_note_voided :: "env \<Rightarrow> string \<Rightarrow> credit_note_payload \<Rightarrow> inv_db \<Rightarrow> unit inv_result" where
  "handle_credit_note_voided env realm_id p db =
     (case read_credit_note_voided p db of
        Inl e \<Rightarrow> (Inl e, db)
      | Inr None \<Rightarrow> (Inr (), db)
      | Inr (Some i) \<Rightarrow>
          (case void_credit_note_by_external_id env realm_id i db of
             (Inl e, db') \<Rightarrow> (Inl e, db')
           | (Inr _, db') \<Rightarrow> (Inr (), db')))"

end
