(* ===== verification/InvoiceProps.thy ===== *)
theory InvoiceProps
  imports InvoiceHandlers
begin

text \<open>
  Correctness of invoices and credit notes.  Requests of different clients interleave: a reading
  half leaves the write it asks for behind, and that write may happen at any later time, after any
  other steps.  The step relation below has the reading halves, the writes, and the transactions
  that run without one (creation, synchronisation from a provider, voiding and memo changes of
  Stripe credit notes, number reservation).  An invariant by rule induction shows that the cached
  refund columns are exact, and that no interleaving moves a self-managed invoice off its status
  machine or voids it under a refund.
\<close>

section \<open>Concurrent requests\<close>

datatype inv_write =
  WTransition invoice_status_transition | WUpdate update_invoice_draft | WNote new_credit_note

definition run_write :: "env \<Rightarrow> inv_ext \<Rightarrow> inv_write \<Rightarrow> inv_db \<Rightarrow> inv_db" where
  "run_write env x w db = (case w of
       WTransition t \<Rightarrow> snd (transition_status env t db)
     | WUpdate u \<Rightarrow> snd (update_draft env x u db)
     | WNote n \<Rightarrow> snd (create_credit_note_and_update_invoice env n db))"

inductive asks :: "inv_db \<Rightarrow> inv_write \<Rightarrow> bool" where
  ask_update: "read_update_invoice u db = Inr w \<Longrightarrow> asks db (WUpdate w)"
| ask_issue: "read_issue_invoice env r i actor date db = Inr t \<Longrightarrow> asks db (WTransition t)"
| ask_void: "read_void_invoice r i actor reason db = Inr t \<Longrightarrow> asks db (WTransition t)"
| ask_paid: "read_mark_paid x r i actor paid_at db = Inr t \<Longrightarrow> asks db (WTransition t)"
| ask_service: "read_service r i target actor ty reason db = Inr t \<Longrightarrow> asks db (WTransition t)"
| ask_overdue: "c \<in> set (list_overdue_candidates db now limit) \<Longrightarrow> asks db (WTransition (overdue_transition c))"
| ask_note: "read_create_credit_note r i actor amount memo db = Inr n \<Longrightarrow> asks db (WNote n)"
| ask_stripe_note: "read_credit_note_created r p db = Inr (Some n) \<Longrightarrow> asks db (WNote n)"

inductive inv_step :: "inv_db \<times> inv_write list \<Rightarrow> inv_db \<times> inv_write list \<Rightarrow> bool" where
  step_ask: "asks db w \<Longrightarrow> inv_step (db, ws) (db, w # ws)"
| step_write: "w \<in> set ws \<Longrightarrow> inv_step (db, ws) (run_write env x w db, ws)"
| step_create: "inv_step (db, ws) (snd (create_invoice env x input db), ws)"
| step_sync: "xd_provider d \<noteq> InvManual \<Longrightarrow> in_i64 (xd_total d) \<Longrightarrow>
    inv_step (db, ws) (snd (upsert_external_invoice env d db), ws)"
| step_void_note: "inv_step (db, ws) (snd (void_credit_note_by_external_id env r e db), ws)"
| step_memo: "inv_step (db, ws) (snd (update_external_memo r e memo db), ws)"
| step_number: "inv_step (db, ws) (snd (next_invoice_number env r year db), ws)"

definition empty_inv_db :: inv_db where
  "empty_inv_db = \<lparr>iv_invoices = [], iv_items = [], iv_history = [], iv_notes = [], iv_counters = [], iv_seq = 0\<rparr>"

abbreviation inv_steps :: "inv_db \<times> inv_write list \<Rightarrow> inv_db \<times> inv_write list \<Rightarrow> bool" where
  "inv_steps \<equiv> inv_step\<^sup>*\<^sup>*"

section \<open>Invariant\<close>

definition status_edge :: "invoice_status \<Rightarrow> invoice_status \<Rightarrow> bool" where
  "status_edge a b \<longleftrightarrow> (a, b) \<in> {(InvDraft, InvIssued), (InvDraft, InvVoid), (InvIssued, InvPaid),
     (InvIssued, InvVoid), (InvIssued, InvOverdue), (InvOverdue, InvPaid), (InvOverdue, InvVoid)}"

definition active_refunds :: "credit_note list \<Rightarrow> uuid \<Rightarrow> int" where
  "active_refunds notes i =
     sum_list (map (\<lambda>n. if cn_invoice_id n = i \<and> cn_status n = NoteActive then cn_amount n else 0) notes)"

definition books :: "credit_note list \<Rightarrow> invoice \<Rightarrow> bool" where
  "books notes x \<longleftrightarrow> inv_amount_refunded x = active_refunds notes (inv_id x) \<and>
     inv_amount_remaining x = inv_total x - inv_amount_refunded x \<and>
     0 \<le> inv_amount_refunded x \<and> 0 \<le> inv_amount_remaining x \<and> in_i64 (inv_total x)"

text \<open>A self-managed invoice knows no provider ids, and only refunds recorded by hand, all active,
  on a paid invoice.\<close>

definition self_managed :: "invoice \<Rightarrow> bool" where
  "self_managed x \<longleftrightarrow> inv_provider x = InvManual"

definition note_ok :: "invoice list \<Rightarrow> credit_note \<Rightarrow> bool" where
  "note_ok xs n \<longleftrightarrow> 0 < cn_amount n \<and> (\<exists>x \<in> set xs. inv_id x = cn_invoice_id n \<and>
     (self_managed x \<longrightarrow> cn_external_id n = None \<and> cn_status n = NoteActive \<and> inv_status x = InvPaid))"

definition row_ok :: "credit_note list \<Rightarrow> invoice \<Rightarrow> bool" where
  "row_ok notes x \<longleftrightarrow> books notes x \<and>
     (self_managed x \<longrightarrow> inv_external_invoice_id x = None \<and> inv_external_order_id x = None)"

definition inv_ok :: "inv_db \<Rightarrow> bool" where
  "inv_ok db \<longleftrightarrow> distinct (map inv_id (iv_invoices db)) \<and> distinct (map cn_id (iv_notes db)) \<and>
     (\<forall>x \<in> set (iv_invoices db). row_ok (iv_notes db) x) \<and> (\<forall>n \<in> set (iv_notes db). note_ok (iv_invoices db) n)"

definition follows :: "invoice \<Rightarrow> invoice \<Rightarrow> bool" where
  "follows x y \<longleftrightarrow> inv_id y = inv_id x \<and> inv_provider y = inv_provider x \<and>
     (self_managed x \<longrightarrow> inv_status y = inv_status x \<or> status_edge (inv_status x) (inv_status y))"

definition evolves :: "inv_db \<Rightarrow> inv_db \<Rightarrow> bool" where
  "evolves db db' \<longleftrightarrow> (\<forall>x \<in> set (iv_invoices db). \<exists>y \<in> set (iv_invoices db'). follows x y)"

definition write_ok :: "inv_db \<Rightarrow> inv_write \<Rightarrow> bool" where
  "write_ok db w \<longleftrightarrow> (case w of
       WTransition t \<Rightarrow> status_edge (tr_expected_current_status t) (tr_target_status t)
     | WUpdate u \<Rightarrow> \<exists>x \<in> set (iv_invoices db). inv_id x = ud_invoice_id u \<and> self_managed x
     | WNote n \<Rightarrow> \<exists>x \<in> set (iv_invoices db). inv_id x = nn_invoice_id n \<and>
         (self_managed x \<longrightarrow> nn_external_id n = None \<and> inv_status x = InvPaid))"

lemma status_edge_simps [simp]: "\<not> status_edge InvPaid s" "\<not> status_edge InvVoid s"
  by (simp_all add: status_edge_def)

lemma follows_refl [simp]: "follows x x"
  by (simp add: follows_def)

lemma follows_self_managed: "follows x y \<Longrightarrow> self_managed y \<longleftrightarrow> self_managed x"
  by (simp add: follows_def self_managed_def)

lemma follows_paid: "follows x y \<Longrightarrow> self_managed x \<Longrightarrow> inv_status x = InvPaid \<Longrightarrow> inv_status y = InvPaid"
  by (auto simp: follows_def)

lemma evolves_refl [simp]: "evolves db db"
  unfolding evolves_def using follows_refl by metis

lemma write_ok_evolves:
  assumes "write_ok db w" "evolves db db'"
  shows "write_ok db' w"
proof (cases w)
  case (WTransition t)
  with assms(1) show ?thesis by (simp add: write_ok_def)
next
  case (WUpdate u)
  with assms(1) obtain x where x: "x \<in> set (iv_invoices db)" "inv_id x = ud_invoice_id u" "self_managed x"
    by (auto simp: write_ok_def)
  with assms(2) obtain y where "y \<in> set (iv_invoices db')" "follows x y" by (auto simp: evolves_def)
  with WUpdate x show ?thesis by (auto simp: write_ok_def follows_def self_managed_def)
next
  case (WNote n)
  with assms(1) obtain x where x: "x \<in> set (iv_invoices db)" "inv_id x = nn_invoice_id n"
      "self_managed x \<longrightarrow> nn_external_id n = None \<and> inv_status x = InvPaid"
    by (auto simp: write_ok_def)
  with assms(2) obtain y where y: "y \<in> set (iv_invoices db')" "follows x y" by (auto simp: evolves_def)
  have "self_managed y \<longrightarrow> nn_external_id n = None \<and> inv_status y = InvPaid"
    using x(3) follows_self_managed[OF y(2)] follows_paid[OF y(2)] by simp
  moreover have "inv_id y = nn_invoice_id n" using x(2) y(2) by (simp add: follows_def)
  ultimately show ?thesis using WNote y(1) by (auto simp: write_ok_def)
qed

section \<open>Changes of the tables\<close>

lemma find_invoice_SomeD:
  "find_invoice db r i = Some x \<Longrightarrow> x \<in> set (iv_invoices db) \<and> inv_id x = i \<and> inv_realm_id x = r"
  by (auto simp: find_invoice_def dest: find_SomeD)

lemma inv_id_unique:
  "inv_ok db \<Longrightarrow> x \<in> set (iv_invoices db) \<Longrightarrow> y \<in> set (iv_invoices db) \<Longrightarrow> inv_id x = inv_id y \<Longrightarrow> x = y"
  by (auto simp: inv_ok_def dest: distinct_key_unique)

text \<open>One row changes, and the notes with it.\<close>

lemma row_change:
  assumes ok: "inv_ok db" and rows: "iv_invoices db' = update_where (\<lambda>x. inv_id x = i) f (iv_invoices db)"
    and nts: "distinct (map cn_id (iv_notes db'))"
    and row: "\<And>x. x \<in> set (iv_invoices db) \<Longrightarrow> inv_id x = i \<Longrightarrow> follows x (f x) \<and> row_ok (iv_notes db') (f x)"
    and other: "\<And>j. j \<noteq> i \<Longrightarrow> active_refunds (iv_notes db') j = active_refunds (iv_notes db) j"
    and each: "\<And>n. n \<in> set (iv_notes db') \<Longrightarrow> note_ok (iv_invoices db) n"
  shows "inv_ok db' \<and> evolves db db'"
proof
  let ?g = "\<lambda>x. if inv_id x = i then f x else x"
  have set': "set (iv_invoices db') = ?g ` set (iv_invoices db)"
    by (simp add: rows set_update_where)
  have fol: "follows x (?g x)" if "x \<in> set (iv_invoices db)" for x
    using row[OF that] by simp
  have ids: "map inv_id (iv_invoices db') = map inv_id (iv_invoices db)"
    unfolding rows update_where_def using fol by (auto simp: follows_def)
  have rok: "row_ok (iv_notes db') (?g x)" if "x \<in> set (iv_invoices db)" for x
  proof (cases "inv_id x = i")
    case True
    with row[OF that] show ?thesis by simp
  next
    case False
    from ok that have "row_ok (iv_notes db) x" by (simp add: inv_ok_def)
    with False other[OF False] show ?thesis by (simp add: row_ok_def books_def)
  qed
  have nok: "note_ok (iv_invoices db') n" if "n \<in> set (iv_notes db')" for n
  proof -
    from each[OF that] obtain x where x: "0 < cn_amount n" "x \<in> set (iv_invoices db)" "inv_id x = cn_invoice_id n"
        "self_managed x \<longrightarrow> cn_external_id n = None \<and> cn_status n = NoteActive \<and> inv_status x = InvPaid"
      by (auto simp: note_ok_def)
    have y: "?g x \<in> set (iv_invoices db')" using x(2) by (simp only: set' image_eqI)
    have "inv_id (?g x) = cn_invoice_id n" using fol[OF x(2)] x(3) by (simp only: follows_def)
    moreover have "self_managed (?g x) \<longrightarrow> cn_external_id n = None \<and> cn_status n = NoteActive \<and> inv_status (?g x) = InvPaid"
      using x(4) follows_self_managed[OF fol[OF x(2)]] follows_paid[OF fol[OF x(2)]] by blast
    ultimately show ?thesis using x(1) y unfolding note_ok_def by blast
  qed
  have "\<forall>y \<in> set (iv_invoices db'). row_ok (iv_notes db') y"
    unfolding set' using rok by blast
  with ok nts nok show "inv_ok db'" by (simp add: inv_ok_def ids)
  show "evolves db db'"
    unfolding evolves_def set' using fol by blast
qed

text \<open>A new invoice without refunds.\<close>

lemma row_added:
  assumes ok: "inv_ok db" and rows: "iv_invoices db' = iv_invoices db @ [x]" and nts: "iv_notes db' = iv_notes db"
    and fresh: "inv_id x \<notin> inv_id ` set (iv_invoices db)" and check: "invoice_check x"
    and new: "inv_amount_refunded x = 0" "inv_amount_remaining x = inv_total x" "in_i64 (inv_total x)"
    and ids: "self_managed x \<longrightarrow> inv_external_invoice_id x = None \<and> inv_external_order_id x = None"
  shows "inv_ok db' \<and> evolves db db'"
proof
  have "active_refunds (iv_notes db) (inv_id x) = 0"
  proof -
    have "cn_invoice_id n \<noteq> inv_id x" if "n \<in> set (iv_notes db)" for n
      using ok that fresh unfolding inv_ok_def note_ok_def by (metis image_eqI)
    then have "map (\<lambda>n. if cn_invoice_id n = inv_id x \<and> cn_status n = NoteActive then cn_amount n else 0) (iv_notes db)
        = map (\<lambda>n. 0) (iv_notes db)" by simp
    then show ?thesis unfolding active_refunds_def by (simp only: sum_list_0)
  qed
  with check new ids have "row_ok (iv_notes db') x"
    by (simp add: row_ok_def books_def nts invoice_check_def)
  moreover have "note_ok (iv_invoices db') n" if "n \<in> set (iv_notes db)" for n
    using ok that by (auto simp: inv_ok_def note_ok_def rows)
  ultimately show "inv_ok db'"
    using ok fresh by (simp add: inv_ok_def rows nts)
  show "evolves db db'"
    unfolding evolves_def rows by (metis UnCI follows_refl set_append)
qed

text \<open>Nothing the invariant speaks of changes.\<close>

lemma books_same:
  "iv_invoices db' = iv_invoices db \<Longrightarrow> iv_notes db' = iv_notes db \<Longrightarrow> inv_ok db' = inv_ok db"
  by (simp add: inv_ok_def)

lemma evolves_same: "iv_invoices db' = iv_invoices db \<Longrightarrow> evolves db db'"
  unfolding evolves_def using follows_refl by metis


lemmas tx_simps = and_then_Inr_iff ensure_def ok_or_def Let_def

lemma history_keeps:
  "insert_invoice_history env i e a t c db = Inr db' \<Longrightarrow>
     iv_invoices db' = iv_invoices db \<and> iv_notes db' = iv_notes db"
  by (auto simp: insert_invoice_history_def tx_simps split: if_splits)

lemma line_items_keep:
  assumes "insert_line_items env x i items db = Inr db'"
  shows "iv_invoices db' = iv_invoices db \<and> iv_notes db' = iv_notes db"
proof -
  let ?P = "\<lambda>d. iv_invoices d = iv_invoices db \<and> iv_notes d = iv_notes db"
  show ?thesis
    by (rule try_fold_invariant[where P = ?P, OF assms[unfolded insert_line_items_def]])
       (auto simp: insert_line_item_def tx_simps split: if_splits option.splits)
qed

lemma number_keeps:
  "reserve_invoice_number_tx env r y db = Inr (s, db') \<Longrightarrow>
     iv_invoices db' = iv_invoices db \<and> iv_notes db' = iv_notes db"
  by (auto simp: reserve_invoice_number_tx_def tx_simps split: if_splits option.splits)

lemma insert_invoice_rowD:
  "insert_invoice_row n failed db = Inr db' \<Longrightarrow>
     iv_invoices db' = iv_invoices db @ [n] \<and> iv_notes db' = iv_notes db \<and>
     inv_id n \<notin> inv_id ` set (iv_invoices db) \<and> invoice_check n"
  by (auto simp: insert_invoice_row_def tx_simps split: if_splits)

lemma update_invoice_rowD:
  assumes "update_invoice_row i f failed db = Inr db'"
  shows "iv_invoices db' = update_where (\<lambda>x. inv_id x = i) f (iv_invoices db)" "iv_notes db' = iv_notes db"
    and "x \<in> set (iv_invoices db) \<Longrightarrow> inv_id x = i \<Longrightarrow> invoice_check (f x)"
  using assms by (auto simp: update_invoice_row_def tx_simps split: if_splits)

lemma amounts_in_i64: "calculate_invoice_amounts x items adj = Inr a \<Longrightarrow> in_i64 (am_total a)"
  by (auto simp: calculate_invoice_amounts_def and_then_Inr_iff wrap_i64_in_range)

section \<open>Every transaction keeps the invariant\<close>

definition keeps :: "inv_db \<Rightarrow> inv_db \<Rightarrow> bool" where
  "keeps db db' \<longleftrightarrow> inv_ok db' \<and> evolves db db'"

lemma keeps_refl: "inv_ok db \<Longrightarrow> keeps db db"
  by (simp add: keeps_def)

lemma keeps_same:
  "inv_ok db \<Longrightarrow> iv_invoices db' = iv_invoices db \<Longrightarrow> iv_notes db' = iv_notes db \<Longrightarrow> keeps db db'"
  unfolding keeps_def by (rule conjI[OF iffD2[OF books_same] evolves_same])

lemma commit_keeps:
  assumes "inv_ok db" "\<And>a db'. tx = Inr (a, db') \<Longrightarrow> keeps db db'"
  shows "keeps db (snd (inv_commit tx db))"
  using assms by (auto simp: inv_commit_def keeps_refl split: sum.splits)

text \<open>The successful run of a transaction, step by step.\<close>

lemma create_invoice_txE:
  assumes "create_invoice_tx env x input db = Inr (a, db')"
  obtains amounts p adj db2 db3 where
      "calculate_invoice_amounts x (ni_line_items input) (ni_adjustments input) = Inr amounts"
      "reserve_invoice_number_tx env (ni_realm_id input) (ix_year x (env_now env)) db = Inr p"
      "insert_invoice_row (draft_row env input (env_uuid env (iv_seq db)) (fst p) amounts adj)
         ''Failed to insert invoice: '' ((snd p)\<lparr>iv_seq := Suc (iv_seq (snd p))\<rparr>) = Inr db2"
      "insert_line_items env x (env_uuid env (iv_seq db)) (ni_line_items input) db2 = Inr db3"
      "insert_invoice_history env (env_uuid env (iv_seq db)) EvCreated (ni_actor_user_id input) ActorUser
         [(''status'', ''draft'')] db3 = Inr db'"
proof -
  from assms show thesis
    unfolding create_invoice_tx_def Let_def case_prod_beta
    apply (elim and_then_InrE)
    apply (rule that)
        apply assumption
       apply assumption
      apply assumption
     apply assumption
    apply (simp only: sum.inject prod.inject)
    done
qed

lemma create_keeps:
  assumes "inv_ok db"
  shows "keeps db (snd (create_invoice env x input db))"
  unfolding create_invoice_def
proof (rule commit_keeps[OF assms])
  fix a db'
  assume "create_invoice_tx env x input db = Inr (a, db')"
  then show "keeps db db'"
  proof (rule create_invoice_txE)
    fix amounts adj and p :: "string \<times> inv_db" and db2 db3 :: inv_db
    let ?row = "draft_row env input (env_uuid env (iv_seq db)) (fst p) amounts adj"
    assume am: "calculate_invoice_amounts x (ni_line_items input) (ni_adjustments input) = Inr amounts"
      and num: "reserve_invoice_number_tx env (ni_realm_id input) (ix_year x (env_now env)) db = Inr p"
      and ins: "insert_invoice_row ?row ''Failed to insert invoice: '' ((snd p)\<lparr>iv_seq := Suc (iv_seq (snd p))\<rparr>) = Inr db2"
      and items: "insert_line_items env x (env_uuid env (iv_seq db)) (ni_line_items input) db2 = Inr db3"
      and hist: "insert_invoice_history env (env_uuid env (iv_seq db)) EvCreated (ni_actor_user_id input) ActorUser
         [(''status'', ''draft'')] db3 = Inr db'"
    have rows: "iv_invoices db' = iv_invoices db @ [?row]" "iv_notes db' = iv_notes db"
      and new: "inv_id ?row \<notin> inv_id ` set (iv_invoices db)" "invoice_check ?row"
      using insert_invoice_rowD[OF ins] number_keeps[of _ _ _ _ "fst p" "snd p"] num
        line_items_keep[OF items] history_keeps[OF hist] by simp_all
    show ?thesis
      unfolding keeps_def
      by (rule row_added[OF assms rows new]) (simp_all add: draft_row_def amounts_in_i64[OF am])
  qed
qed

text \<open>An update of one invoice that leaves the notes alone.\<close>

lemma row_update:
  assumes ok: "inv_ok db" and upd: "update_invoice_row i f failed db1 = Inr db2"
    and before: "iv_invoices db1 = iv_invoices db" "iv_notes db1 = iv_notes db"
    and after: "iv_invoices db' = iv_invoices db2" "iv_notes db' = iv_notes db2"
    and row: "\<And>x. x \<in> set (iv_invoices db) \<Longrightarrow> inv_id x = i \<Longrightarrow> row_ok (iv_notes db) x \<Longrightarrow> invoice_check (f x) \<Longrightarrow>
      follows x (f x) \<and> row_ok (iv_notes db) (f x)"
  shows "keeps db db'"
  unfolding keeps_def
proof (rule row_change[OF ok, where i = i and f = f])
  note u = update_invoice_rowD[OF upd]
  have same: "iv_notes db' = iv_notes db" by (simp add: after before u(2))
  show "iv_invoices db' = update_where (\<lambda>x. inv_id x = i) f (iv_invoices db)" by (simp add: after before u(1))
  show "distinct (map cn_id (iv_notes db'))" using ok by (simp add: same inv_ok_def)
  show "active_refunds (iv_notes db') j = active_refunds (iv_notes db) j" for j by (simp add: same)
  show "note_ok (iv_invoices db) n" if "n \<in> set (iv_notes db')" for n
    using ok that by (simp add: same inv_ok_def)
  fix x assume x: "x \<in> set (iv_invoices db)" "inv_id x = i"
  have "row_ok (iv_notes db) x" using ok x(1) by (simp add: inv_ok_def)
  with x u(3)[of x] show "follows x (f x) \<and> row_ok (iv_notes db') (f x)"
    by (simp add: before same row)
qed

lemma transition_status_txE:
  assumes "transition_status_tx env t db = Inr (a, db')"
  obtains cur db1 c where "find_invoice db (tr_realm_id t) (tr_invoice_id t) = Some cur"
      "inv_status cur = tr_expected_current_status t"
      "update_invoice_row (tr_invoice_id t) (transition_columns env t) ''Failed to update status: invoice_check'' db = Inr db1"
      "insert_invoice_history env (tr_invoice_id t) (transition_event (tr_target_status t)) (tr_actor_user_id t)
         (tr_actor_type t) c db1 = Inr db'"
proof -
  from assms show thesis
    unfolding transition_status_tx_def
    apply (elim and_then_InrE)
    apply (rule that)
       apply (simp only: ok_or_Inr_iff)
      apply (simp only: ensure_Inr_iff)
     apply assumption
    apply (simp only: sum.inject prod.inject)
    done
qed


lemma transition_keeps:
  assumes "inv_ok db" "status_edge (tr_expected_current_status t) (tr_target_status t)"
  shows "keeps db (snd (transition_status env t db))"
  unfolding transition_status_def
proof (rule commit_keeps[OF assms(1)])
  fix a db'
  assume "transition_status_tx env t db = Inr (a, db')"
  then obtain cur db1 c where t: "find_invoice db (tr_realm_id t) (tr_invoice_id t) = Some cur"
      "inv_status cur = tr_expected_current_status t"
      "update_invoice_row (tr_invoice_id t) (transition_columns env t) ''Failed to update status: invoice_check'' db = Inr db1"
      and h: "insert_invoice_history env (tr_invoice_id t) (transition_event (tr_target_status t)) (tr_actor_user_id t)
         (tr_actor_type t) c db1 = Inr db'"
    by (rule transition_status_txE)
  note hk = history_keeps[OF h]
  show "keeps db db'"
  proof (rule row_update[OF assms(1) t(3) refl refl conjunct1[OF hk] conjunct2[OF hk]])
    fix x assume x: "x \<in> set (iv_invoices db)" "inv_id x = tr_invoice_id t" "row_ok (iv_notes db) x"
    have "x = cur"
      using inv_id_unique[OF assms(1) x(1)] find_invoice_SomeD[OF t(1)] x(2) by simp
    then have "follows x (transition_columns env t x)"
      using t(2) assms(2) by (simp add: follows_def transition_columns_def Let_def)
    with x(3) show "follows x (transition_columns env t x) \<and> row_ok (iv_notes db) (transition_columns env t x)"
      by (simp add: row_ok_def books_def self_managed_def transition_columns_def Let_def)
  qed
qed

lemma replace_items_keep:
  assumes "replace_items env x i items adj db = Inr p"
  shows "iv_invoices (snd p) = iv_invoices db" "iv_notes (snd p) = iv_notes db" "in_i64 (am_total (fst p))"
proof -
  have "iv_invoices (snd p) = iv_invoices db \<and> iv_notes (snd p) = iv_notes db \<and> in_i64 (am_total (fst p))"
  proof (cases items)
    case None
    with assms show ?thesis by (auto simp: replace_items_def and_then_Inr_iff dest: amounts_in_i64)
  next
    case (Some l)
    with assms show ?thesis
      by (auto simp: replace_items_def and_then_Inr_iff dest!: amounts_in_i64 line_items_keep)
  qed
  then show "iv_invoices (snd p) = iv_invoices db" "iv_notes (snd p) = iv_notes db" "in_i64 (am_total (fst p))"
    by simp_all
qed

lemma update_draft_txE:
  assumes "update_draft_tx env x u db = Inr (a, db')"
  obtains cur adj p stored db2 where "find_invoice db (ud_realm_id u) (ud_invoice_id u) = Some cur"
      "inv_status cur = InvDraft" "replace_items env x (ud_invoice_id u) (ud_line_items u) adj db = Inr p"
      "update_invoice_row (ud_invoice_id u) (draft_update env u (fst p) stored)
         ''Failed to update invoice: invoice_check'' (snd p) = Inr db2"
      "insert_invoice_history env (ud_invoice_id u) EvUpdated (ud_actor_user_id u) ActorUser
         [(''action'', ''updated'')] db2 = Inr db'"
proof -
  from assms show thesis
    unfolding update_draft_tx_def Let_def case_prod_beta
    apply (elim and_then_InrE)
    apply (rule that)
        apply (simp only: ok_or_Inr_iff)
       apply (simp only: ensure_Inr_iff)
      apply assumption
     apply assumption
    apply (simp only: sum.inject prod.inject)
    done
qed

text \<open>A draft has no refunds, so its new total is all that remains.\<close>

lemma no_notes_no_refunds:
  assumes "\<And>n. n \<in> set ns \<Longrightarrow> cn_invoice_id n \<noteq> i"
  shows "active_refunds ns i = 0"
  unfolding active_refunds_def using assms by (induction ns) auto

lemma unpaid_has_no_notes:
  assumes "inv_ok db" "x \<in> set (iv_invoices db)" "self_managed x" "inv_status x \<noteq> InvPaid" "n \<in> set (iv_notes db)"
  shows "cn_invoice_id n \<noteq> inv_id x"
proof
  assume i: "cn_invoice_id n = inv_id x"
  from assms(1,5) obtain y where y: "y \<in> set (iv_invoices db)" "inv_id y = cn_invoice_id n"
      "self_managed y \<longrightarrow> inv_status y = InvPaid"
    by (auto simp: inv_ok_def note_ok_def)
  with i have "y = x" using inv_id_unique[OF assms(1) y(1) assms(2)] by simp
  with y(3) assms(3,4) show False by simp
qed

lemma update_keeps:
  assumes ok: "inv_ok db" and man: "\<exists>x \<in> set (iv_invoices db). inv_id x = ud_invoice_id u \<and> self_managed x"
  shows "keeps db (snd (update_draft env x u db))"
  unfolding update_draft_def
proof (rule commit_keeps[OF ok])
  fix a db'
  assume "update_draft_tx env x u db = Inr (a, db')"
  then obtain cur adj p stored db2 where t: "find_invoice db (ud_realm_id u) (ud_invoice_id u) = Some cur"
      "inv_status cur = InvDraft" "replace_items env x (ud_invoice_id u) (ud_line_items u) adj db = Inr p"
      "update_invoice_row (ud_invoice_id u) (draft_update env u (fst p) stored)
         ''Failed to update invoice: invoice_check'' (snd p) = Inr db2"
      and h: "insert_invoice_history env (ud_invoice_id u) EvUpdated (ud_actor_user_id u) ActorUser
         [(''action'', ''updated'')] db2 = Inr db'"
    by (rule update_draft_txE)
  note hk = history_keeps[OF h] and r = replace_items_keep[OF t(3)]
  show "keeps db db'"
  proof (rule row_update[OF ok t(4) r(1,2) conjunct1[OF hk] conjunct2[OF hk]])
    fix y assume y: "y \<in> set (iv_invoices db)" "inv_id y = ud_invoice_id u" "row_ok (iv_notes db) y"
      and check: "invoice_check (draft_update env u (fst p) stored y)"
    have "y = cur" using inv_id_unique[OF ok y(1)] find_invoice_SomeD[OF t(1)] y(2) by simp
    moreover from man obtain z where z: "z \<in> set (iv_invoices db)" "inv_id z = ud_invoice_id u" "self_managed z" by blast
    then have "z = y" using inv_id_unique[OF ok z(1) y(1)] y(2) by simp
    ultimately have man_y: "self_managed y" and draft: "inv_status y = InvDraft" using z(3) t(2) by simp_all
    have "active_refunds (iv_notes db) (inv_id y) = 0"
      by (rule no_notes_no_refunds, rule unpaid_has_no_notes[OF ok y(1) man_y]) (simp_all add: draft)
    then have refunded: "inv_amount_refunded y = 0" using y(3) by (simp add: row_ok_def books_def)
    have "0 \<le> am_total (fst p)"
      using check man_y by (simp add: invoice_check_def draft_update_def self_managed_def)
    with refunded y(3) r(3) show "follows y (draft_update env u (fst p) stored y) \<and>
        row_ok (iv_notes db) (draft_update env u (fst p) stored y)"
      by (simp add: follows_def row_ok_def books_def self_managed_def draft_update_def wrap_i64_id)
  qed
qed


lemma upsert_txE:
  assumes "upsert_external_invoice_tx env d db = Inr (a, db')"
  obtains (covered) "db' = db"
  | (insert) "insert_invoice_row (external_row env (env_uuid env (iv_seq db)) d) ''Failed to upsert external invoice: ''
       (db\<lparr>iv_seq := Suc (iv_seq db)\<rparr>) = Inr db'"
  | (update) y where "find (external_match d) (iv_invoices db) = Some y"
      "update_invoice_row (inv_id y) (external_update env d) ''Failed to upsert external invoice: unique'' db = Inr db'"
proof -
  define covered where "covered = (if \<exists>x \<in> set (iv_invoices db). inv_realm_id x = xd_realm_id d \<and> inv_source x = ExternalSync \<and>
      (sql_eq (inv_external_invoice_id x) (xd_external_invoice_id d) \<or>
       sql_eq (inv_external_order_id x) (xd_external_order_id d)) then None
    else find (\<lambda>x. inv_realm_id x = xd_realm_id d \<and> inv_source x \<in> {AdminManual, UserApplication} \<and>
                   covers (xd_payment_attempt_id d) (xd_subscription_id d) x) (iv_invoices db))"
  note t = assms[unfolded upsert_external_invoice_tx_def Let_def covered_def[symmetric]]
  show thesis
  proof (cases covered)
    case (Some m)
    with t that(1) show thesis by simp
  next
    case None
    show thesis
    proof (cases "find (external_match d) (iv_invoices db)")
      case no: None
      from t None no that(2) show thesis by (auto simp: and_then_Inr_iff)
    next
      case (Some y)
      from t None Some that(3)[OF Some] show thesis by (auto simp: and_then_Inr_iff)
    qed
  qed
qed

lemma upsert_keeps:
  assumes ok: "inv_ok db" and ext: "xd_provider d \<noteq> InvManual" and range: "in_i64 (xd_total d)"
  shows "keeps db (snd (upsert_external_invoice env d db))"
  unfolding upsert_external_invoice_def
proof (rule commit_keeps[OF ok])
  fix a db'
  assume "upsert_external_invoice_tx env d db = Inr (a, db')"
  then show "keeps db db'"
  proof (cases rule: upsert_txE)
    case covered
    with ok show ?thesis by (simp add: keeps_refl)
  next
    case insert
    let ?row = "external_row env (env_uuid env (iv_seq db)) d"
    from insert_invoice_rowD[OF insert] have rows: "iv_invoices db' = iv_invoices db @ [?row]" "iv_notes db' = iv_notes db"
      and new: "inv_id ?row \<notin> inv_id ` set (iv_invoices db)" "invoice_check ?row" by simp_all
    show ?thesis
      unfolding keeps_def
      by (rule row_added[OF ok rows new]) (use ext range in \<open>simp_all add: external_row_def self_managed_def\<close>)
  next
    case (update y)
    from find_SomeD[OF update(1)] have y: "external_match d y" "y \<in> set (iv_invoices db)" by simp_all
    show ?thesis
    proof (rule row_update[OF ok update(2) refl refl refl refl])
      fix x assume x: "x \<in> set (iv_invoices db)" "inv_id x = inv_id y" "row_ok (iv_notes db) x"
      have "x = y" by (rule inv_id_unique[OF ok x(1) y(2) x(2)])
      with y(1) x(3) have "\<not> self_managed x"
        by (auto simp: external_match_def row_ok_def sql_eq_def split: if_splits)
      with x(3) show "follows x (external_update env d x) \<and> row_ok (iv_notes db) (external_update env d x)"
        by (simp add: follows_def row_ok_def books_def self_managed_def external_update_def Let_def)
    qed
  qed
qed

lemma active_refunds_append: "active_refunds (ns @ [n]) i =
    active_refunds ns i + (if cn_invoice_id n = i \<and> cn_status n = NoteActive then cn_amount n else 0)"
  by (simp add: active_refunds_def)

lemma create_note_txE:
  assumes "create_credit_note_tx env n db = Inr (a, db')"
  obtains (existing) "db' = db"
  | (created) db1 db2 c u ty f where "0 < nn_amount n"
      "insert_note (note_row env (env_uuid env (iv_seq db)) n) db = Inr db1"
      "refund_invoice env (nn_invoice_id n) (nn_amount n) f db1 = Inr db2"
      "insert_invoice_history env (nn_invoice_id n) EvCreditNoteCreated u ty c db2 = Inr db'"
proof -
  from assms obtain x where t: "0 < nn_amount n" "find_invoice db (nn_realm_id n) (nn_invoice_id n) = Some x"
    unfolding create_credit_note_tx_def by (auto simp: and_then_Inr_iff ok_or_Inr_iff ensure_Inr_iff)
  show thesis
  proof (cases "if nn_source n = NoteStripe then Option.bind (nn_external_id n) (find_by_external_id db) else None")
    case (Some m)
    with assms that(1) show thesis
      unfolding create_credit_note_tx_def by (auto simp only: and_then_Inr_iff option.case sum.inject prod.inject)
  next
    case None
    from assms show thesis
      unfolding create_credit_note_tx_def Let_def None option.case
      apply (elim and_then_InrE)
      apply (rule that(2))
         apply (rule t(1))
        apply assumption
       apply assumption
      apply (simp only: sum.inject prod.inject)
      done
  qed
qed

lemma refund_invoiceD:
  "refund_invoice env i amt failed db = Inr db' \<Longrightarrow>
     update_invoice_row i (add_refund env amt) (failed @ ''invoice_check'') db = Inr db'"
  by (auto simp: refund_invoice_def and_then_Inr_iff)

lemma insert_noteD:
  "insert_note n db = Inr db' \<Longrightarrow> iv_notes db' = iv_notes db @ [n] \<and> iv_invoices db' = iv_invoices db \<and>
     cn_id n \<notin> cn_id ` set (iv_notes db)"
  by (auto simp: insert_note_def and_then_Inr_iff ensure_Inr_iff)

text \<open>Refund totals move with the notes they summarise.\<close>

lemma refund_row:
  assumes "row_ok ns x" "invoice_check (add_refund env amt x)"
    and "active_refunds ns' (inv_id x) = active_refunds ns (inv_id x) + amt"
  shows "follows x (add_refund env amt x) \<and> row_ok ns' (add_refund env amt x)"
  using assms by (simp add: follows_def row_ok_def books_def self_managed_def add_refund_def invoice_check_def)

lemma create_note_keeps:
  assumes ok: "inv_ok db" and target: "write_ok db (WNote n)"
  shows "keeps db (snd (create_credit_note_and_update_invoice env n db))"
  unfolding create_credit_note_and_update_invoice_def
proof (rule commit_keeps[OF ok])
  fix a db'
  assume "create_credit_note_tx env n db = Inr (a, db')"
  then show "keeps db db'"
  proof (cases rule: create_note_txE)
    case existing
    with ok show ?thesis by (simp add: keeps_refl)
  next
    case (created db1 db2 c u ty f)
    let ?n = "note_row env (env_uuid env (iv_seq db)) n"
    note i = insert_noteD[OF created(2)] and u = update_invoice_rowD[OF refund_invoiceD[OF created(3)]]
      and h = history_keeps[OF created(4)]
    have ns: "iv_notes db' = iv_notes db @ [?n]" by (simp add: h u(2) i)
    show ?thesis
      unfolding keeps_def
    proof (rule row_change[OF ok, where i = "nn_invoice_id n" and f = "add_refund env (nn_amount n)"])
      show "iv_invoices db' = update_where (\<lambda>x. inv_id x = nn_invoice_id n) (add_refund env (nn_amount n)) (iv_invoices db)"
        by (simp add: h u(1) i)
      show "distinct (map cn_id (iv_notes db'))" using ok i by (simp add: ns inv_ok_def)
      show "active_refunds (iv_notes db') j = active_refunds (iv_notes db) j" if "j \<noteq> nn_invoice_id n" for j
        using that by (simp add: ns active_refunds_append note_row_def)
      show "note_ok (iv_invoices db) m" if "m \<in> set (iv_notes db')" for m
      proof (cases "m = ?n")
        case True
        from target obtain x where "x \<in> set (iv_invoices db)" "inv_id x = nn_invoice_id n"
            "self_managed x \<longrightarrow> nn_external_id n = None \<and> inv_status x = InvPaid"
          by (auto simp: write_ok_def)
        with True created(1) show ?thesis by (auto simp: note_ok_def note_row_def)
      next
        case False
        with that ok show ?thesis by (auto simp: ns inv_ok_def)
      qed
      fix x assume x: "x \<in> set (iv_invoices db)" "inv_id x = nn_invoice_id n"
      show "follows x (add_refund env (nn_amount n) x) \<and> row_ok (iv_notes db') (add_refund env (nn_amount n) x)"
      proof (rule refund_row)
        show "row_ok (iv_notes db) x" using ok x(1) by (simp add: inv_ok_def)
        show "invoice_check (add_refund env (nn_amount n) x)" by (rule u(3)) (use x i in simp_all)
        show "active_refunds (iv_notes db') (inv_id x) = active_refunds (iv_notes db) (inv_id x) + nn_amount n"
          by (simp add: ns active_refunds_append note_row_def x(2))
      qed
    qed
  qed
qed


lemma void_note_txE:
  assumes "void_credit_note_tx env r e db = Inr (a, db')"
  obtains (voided) "db' = db"
  | (active) n db1 c u ty f where "n \<in> set (iv_notes db)" "cn_external_id n = Some e" "cn_status n = NoteActive"
      "refund_invoice env (cn_invoice_id n) (- cn_amount n) f db = Inr db1"
      "insert_invoice_history env (cn_invoice_id n) EvCreditNoteVoided u ty c
         (db1\<lparr>iv_notes := update_where (\<lambda>m. cn_id m = cn_id n) (\<lambda>m. m\<lparr>cn_status := NoteVoided\<rparr>) (iv_notes db1)\<rparr>) = Inr db'"
proof (cases "find (\<lambda>n. cn_external_id n = Some e \<and> cn_realm_id n = r) (iv_notes db)")
  case None
  with assms show thesis by (simp add: void_credit_note_tx_def)
next
  case (Some n)
  from find_SomeD[OF Some] have n: "n \<in> set (iv_notes db)" "cn_external_id n = Some e" by simp_all
  show thesis
  proof (cases "cn_status n")
    case NoteVoided
    with assms Some that(1) show thesis by (simp add: void_credit_note_tx_def)
  next
    case NoteActive
    then have act: "(cn_status n = NoteVoided) = False" by simp
    from assms show thesis
      unfolding void_credit_note_tx_def Some ok_or_simps and_then.simps act if_False
      apply (elim and_then_InrE)
      apply (rule that(2)[OF n NoteActive])
       apply assumption
      apply (simp only: sum.inject prod.inject)
      done
  qed
qed

lemma active_refunds_voided:
  assumes "distinct (map cn_id ns)" "n \<in> set ns" "cn_status n = NoteActive"
  shows "active_refunds (update_where (\<lambda>m. cn_id m = cn_id n) (\<lambda>m. m\<lparr>cn_status := NoteVoided\<rparr>) ns) i =
    active_refunds ns i - (if cn_invoice_id n = i then cn_amount n else 0)"
  unfolding active_refunds_def by (subst sum_list_update_where[OF assms(1,2)]) (simp add: assms(3))

lemma void_note_keeps:
  assumes ok: "inv_ok db"
  shows "keeps db (snd (void_credit_note_by_external_id env r e db))"
  unfolding void_credit_note_by_external_id_def
proof (rule commit_keeps[OF ok])
  fix a db'
  assume "void_credit_note_tx env r e db = Inr (a, db')"
  then show "keeps db db'"
  proof (cases rule: void_note_txE)
    case voided
    with ok show ?thesis by (simp add: keeps_refl)
  next
    case (active n db1 c u ty f)
    let ?v = "\<lambda>m. m\<lparr>cn_status := NoteVoided\<rparr>"
    note u = update_invoice_rowD[OF refund_invoiceD[OF active(4)]] and h = history_keeps[OF active(5)]
    have ns: "iv_notes db' = update_where (\<lambda>m. cn_id m = cn_id n) ?v (iv_notes db)" by (simp add: h u(2))
    have dist: "distinct (map cn_id (iv_notes db))" using ok by (simp add: inv_ok_def)
    have refunds: "active_refunds (iv_notes db') j = active_refunds (iv_notes db) j - (if cn_invoice_id n = j then cn_amount n else 0)" for j
      unfolding ns by (rule active_refunds_voided[OF dist active(1,3)])
    show ?thesis
      unfolding keeps_def
    proof (rule row_change[OF ok, where i = "cn_invoice_id n" and f = "add_refund env (- cn_amount n)"])
      show "iv_invoices db' = update_where (\<lambda>x. inv_id x = cn_invoice_id n) (add_refund env (- cn_amount n)) (iv_invoices db)"
        by (simp add: h u(1))
      show "distinct (map cn_id (iv_notes db'))" using dist by (simp add: ns map_update_where_same)
      show "active_refunds (iv_notes db') j = active_refunds (iv_notes db) j" if "j \<noteq> cn_invoice_id n" for j
        using that by (simp add: refunds)
      show "note_ok (iv_invoices db) m" if m: "m \<in> set (iv_notes db')" for m
      proof -
        have n: "note_ok (iv_invoices db) n" using ok active(1) by (simp add: inv_ok_def)
        from m[unfolded ns] obtain k where k: "k \<in> set (iv_notes db)" "m = (if cn_id k = cn_id n then ?v k else k)"
          by (auto simp: set_update_where)
        show ?thesis
        proof (cases "cn_id k = cn_id n")
          case True
          then have "m = ?v n" using k distinct_key_unique[OF dist k(1) active(1)] by simp
          with n active(2) show ?thesis by (auto simp: note_ok_def)
        next
          case False
          with k ok show ?thesis by (simp add: inv_ok_def)
        qed
      qed
      fix x assume x: "x \<in> set (iv_invoices db)" "inv_id x = cn_invoice_id n"
      show "follows x (add_refund env (- cn_amount n) x) \<and> row_ok (iv_notes db') (add_refund env (- cn_amount n) x)"
      proof (rule refund_row)
        show "row_ok (iv_notes db) x" using ok x(1) by (simp add: inv_ok_def)
        show "invoice_check (add_refund env (- cn_amount n) x)" by (rule u(3)[OF x])
        show "active_refunds (iv_notes db') (inv_id x) = active_refunds (iv_notes db) (inv_id x) + - cn_amount n"
          by (simp add: refunds x(2))
      qed
    qed
  qed
qed

lemma memo_keeps:
  assumes ok: "inv_ok db"
  shows "keeps db (snd (update_external_memo r e memo db))"
proof -
  define p :: "credit_note \<Rightarrow> bool" where "p = (\<lambda>n. cn_realm_id n = r \<and> cn_external_id n = Some e \<and> cn_source n = NoteStripe)"
  define db' where "db' = db\<lparr>iv_notes := update_where p (\<lambda>n. n\<lparr>cn_memo := memo\<rparr>) (iv_notes db)\<rparr>"
  have "inv_ok db'"
  proof -
    have ids: "map cn_id (iv_notes db') = map cn_id (iv_notes db)"
      by (simp add: db'_def map_update_where_same)
    have "active_refunds (iv_notes db') = active_refunds (iv_notes db)"
      by (rule ext) (simp add: active_refunds_def db'_def map_update_where_same)
    then have "row_ok (iv_notes db') x = row_ok (iv_notes db) x" for x by (simp add: row_ok_def books_def)
    moreover have "note_ok (iv_invoices db) m" if "m \<in> set (iv_notes db')" for m
    proof -
      from that obtain k where "k \<in> set (iv_notes db)" "m = (if p k then k\<lparr>cn_memo := memo\<rparr> else k)"
        by (auto simp: db'_def set_update_where)
      with ok show ?thesis by (auto simp: inv_ok_def note_ok_def)
    qed
    moreover have "iv_invoices db' = iv_invoices db" by (simp add: db'_def)
    ultimately show ?thesis using ok by (simp add: inv_ok_def ids)
  qed
  then have "keeps db db'" by (simp add: keeps_def evolves_same db'_def)
  then show ?thesis
    using keeps_refl[OF ok] by (simp add: update_external_memo_def Let_def p_def db'_def)
qed

lemma number_step_keeps:
  assumes "inv_ok db"
  shows "keeps db (snd (next_invoice_number env r y db))"
  unfolding next_invoice_number_def
  by (rule commit_keeps[OF assms]) (metis assms keeps_same number_keeps)

section \<open>Every reading half asks for an admissible write\<close>

lemma validate_edge:
  "validate_status_transition a b n tot ty late reason = Inr u \<Longrightarrow> status_edge a b"
  by (cases a; cases b)
     (simp_all add: validate_status_transition_def invoice_status_is_terminal_def status_edge_def split: if_splits)

lemma load_detailD:
  "load_detail db r i = Inr (x, items, hist) \<Longrightarrow> x \<in> set (iv_invoices db) \<and> inv_id x = i"
  by (auto simp: load_detail_def ok_or_Inr_iff find_with_items_def split: option.splits dest: find_invoice_SomeD)

lemma no_voided_notes:
  assumes "inv_ok db" "x \<in> set (iv_invoices db)" "self_managed x" "n \<in> set (iv_notes db)" "cn_invoice_id n = inv_id x"
  shows "cn_status n = NoteActive"
proof -
  from assms(1,4) obtain y where y: "y \<in> set (iv_invoices db)" "inv_id y = cn_invoice_id n"
      "self_managed y \<longrightarrow> cn_status n = NoteActive"
    by (auto simp: inv_ok_def note_ok_def)
  with assms(5) have "y = x" using inv_id_unique[OF assms(1) y(1) assms(2)] by simp
  with y(3) assms(3) show ?thesis by simp
qed

lemma read_void_edge:
  assumes ok: "inv_ok db" and rd: "read_void_invoice r i actor reason db = Inr t"
  shows "status_edge (tr_expected_current_status t) (tr_target_status t)"
proof -
  let ?ns = "find_by_invoice_id db r i"
  from rd obtain x items hist where d: "load_detail db r i = Inr (x, items, hist)"
    by (auto simp: read_void_invoice_def and_then_Inr_iff)
  from rd d have man: "self_managed x"
    and v: "(if inv_status x = InvPaid \<and> list_ex (\<lambda>n. cn_status n = NoteVoided) ?ns then Inr ()
             else validate_status_transition (inv_status x) InvVoid (length items) (inv_total x) ActorUser False reason) = Inr ()"
    and t: "tr_expected_current_status t = inv_status x" "tr_target_status t = InvVoid"
    by (auto simp: read_void_invoice_def and_then_Inr_iff validate_external_invoice_readonly_def self_managed_def
        ensure_Inr_iff Let_def)
  have "\<not> list_ex (\<lambda>n. cn_status n = NoteVoided) ?ns"
  proof -
    have "cn_status n = NoteActive" if "n \<in> set ?ns" for n
      using no_voided_notes[OF ok _ man] load_detailD[OF d] that by (auto simp: find_by_invoice_id_def)
    then show ?thesis by (auto simp: list_ex_iff)
  qed
  with v have "validate_status_transition (inv_status x) InvVoid (length items) (inv_total x) ActorUser False reason = Inr ()"
    by simp
  from validate_edge[OF this] show ?thesis by (simp add: t)
qed

lemma asks_ok:
  assumes "asks db w" "inv_ok db"
  shows "write_ok db w"
  using assms
proof (induction rule: asks.induct)
  case (ask_update u db w)
  then show ?case
    by (auto simp: read_update_invoice_def and_then_Inr_iff validate_external_invoice_readonly_def ensure_Inr_iff
        write_ok_def self_managed_def dest!: load_detailD)
next
  case (ask_issue env r i actor date db t)
  then show ?case
    by (auto simp: read_issue_invoice_def and_then_Inr_iff Let_def write_ok_def dest!: validate_edge)
next
  case (ask_void r i actor reason db t)
  then show ?case using read_void_edge by (simp add: write_ok_def)
next
  case (ask_paid x r i actor paid_at db t)
  then show ?case
    by (auto simp: read_mark_paid_def and_then_Inr_iff write_ok_def dest!: validate_edge)
next
  case (ask_service r i target actor ty reason db t)
  then show ?case
    by (auto simp: read_service_def and_then_Inr_iff write_ok_def dest!: validate_edge)
next
  case (ask_overdue c db now limit)
  then show ?case by (simp add: write_ok_def overdue_transition_def status_edge_def)
next
  case (ask_note r i actor amount memo db n)
  then show ?case
    by (auto simp: read_create_credit_note_def and_then_Inr_iff ensure_Inr_iff write_ok_def dest!: load_detailD)
next
  case (ask_stripe_note r p db n)
  then show ?case
    by (auto simp: read_credit_note_created_def find_by_external_invoice_id_def and_then_Inr_iff ensure_Inr_iff
        write_ok_def self_managed_def split: option.splits if_splits dest!: find_SomeD)
qed

lemma write_keeps:
  assumes "inv_ok db" "write_ok db w"
  shows "keeps db (run_write env x w db)"
proof (cases w)
  case (WTransition t)
  with assms transition_keeps[of db t env] show ?thesis by (simp add: run_write_def write_ok_def)
next
  case (WUpdate u)
  with assms update_keeps[of db u env x] show ?thesis by (simp add: run_write_def write_ok_def)
next
  case (WNote n)
  with assms create_note_keeps[of db n env] show ?thesis by (simp add: run_write_def)
qed


section \<open>Whole requests\<close>

text \<open>A request that nothing interrupts is a run of the step relation, so what holds of every run
  holds of it.\<close>

definition runs_to :: "inv_db \<Rightarrow> inv_db \<Rightarrow> bool" where
  "runs_to db db' \<longleftrightarrow> (\<forall>ws. \<exists>ws'. inv_steps (db, ws) (db', ws'))"

lemma runs_to_refl: "runs_to db db"
  unfolding runs_to_def by blast

lemma runs_to_trans: "runs_to a b \<Longrightarrow> runs_to b c \<Longrightarrow> runs_to a c"
  unfolding runs_to_def by (meson rtranclp_trans)

lemma ask_then_write: "asks db w \<Longrightarrow> runs_to db (run_write env x w db)"
  unfolding runs_to_def
  by (metis converse_rtranclp_into_rtranclp list.set_intros(1) r_into_rtranclp step_ask step_write)

lemma read_then_runs:
  assumes "\<And>w. rd db = Inr w \<Longrightarrow> asks db (W w) \<and> snd (wr w db) = run_write env x (W w) db"
  shows "runs_to db (snd (read_then rd wr db))"
proof (cases "rd db")
  case (Inl e)
  then show ?thesis by (simp add: read_then_def runs_to_refl)
next
  case (Inr w)
  with assms ask_then_write[of db "W w" env x] show ?thesis by (simp add: read_then_def)
qed

lemma requests_run:
  "runs_to db (snd (create_invoice env x input db))"
  "runs_to db (snd (update_invoice env x u db))"
  "runs_to db (snd (issue_invoice env r i actor date db))"
  "runs_to db (snd (void_invoice env r i actor reason db))"
  "runs_to db (snd (mark_paid env x r i actor paid_at db))"
  "runs_to db (snd (create_credit_note env r i admin amount memo db))"
  "runs_to db (snd (service_issue env r i actor ty db))"
  "runs_to db (snd (service_void env r i actor ty reason db))"
  "runs_to db (snd (service_mark_paid env r i actor ty db))"
  unfolding update_invoice_def issue_invoice_def void_invoice_def mark_paid_def create_credit_note_def
    service_issue_def service_void_def service_mark_paid_def
  subgoal unfolding runs_to_def by (blast intro: step_create)
  subgoal by (rule read_then_runs[where W = WUpdate]) (simp add: asks.ask_update run_write_def)
  by (rule read_then_runs[where W = WTransition] read_then_runs[where W = WNote]; auto intro: asks.intros simp: run_write_def)+


lemma stripe_events_run:
  "runs_to db (snd (handle_credit_note_created env r p db))"
  "runs_to db (snd (handle_credit_note_updated env r p db))"
  "runs_to db (snd (handle_credit_note_voided env r p db))"
proof -
  show created: "runs_to db (snd (handle_credit_note_created env r p db))" for db
  proof (cases "read_credit_note_created r p db")
    case (Inl e)
    then show ?thesis by (simp add: handle_credit_note_created_def runs_to_refl)
  next
    case (Inr w)
    show ?thesis
    proof (cases w)
      case None
      with Inr show ?thesis by (simp add: handle_credit_note_created_def runs_to_refl)
    next
      case (Some n)
      with Inr have "runs_to db (run_write env undefined (WNote n) db)"
        by (intro ask_then_write ask_stripe_note) simp
      with Inr Some show ?thesis
        by (auto simp: handle_credit_note_created_def run_write_def split: prod.splits sum.splits)
    qed
  qed
  have memo: "runs_to d (snd (update_external_memo r e m d))" for d e m
    unfolding runs_to_def by (blast intro: step_memo)
  show "runs_to db (snd (handle_credit_note_updated env r p db))"
    using created[of db] runs_to_trans[OF created[of db] memo]
    by (auto simp: handle_credit_note_updated_def split: prod.splits sum.splits)
  have void: "runs_to db (snd (void_credit_note_by_external_id env r e db))" for e
    unfolding runs_to_def by (blast intro: step_void_note)
  show "runs_to db (snd (handle_credit_note_voided env r p db))"
    using void[of "np_stripe_credit_note_id p"] runs_to_refl[of db]
    by (auto simp: handle_credit_note_voided_def read_credit_note_voided_def split: prod.splits sum.splits option.splits)
qed

text \<open>The sweep: the candidates are read once, and each write is guarded on its own.\<close>

lemma overdue_loop_steps:
  assumes "\<And>c. c \<in> set cs \<Longrightarrow> WTransition (overdue_transition c) \<in> set ws"
  shows "inv_steps (db, ws) (snd (overdue_loop env cs marked errors db), ws)"
  using assms
proof (induction env cs marked errors db rule: overdue_loop.induct)
  case (1 env marked errors db)
  then show ?case by simp
next
  case (2 env c cs marked errors db)
  obtain res db' where t: "transition_status env (overdue_transition c) db = (res, db')" by fastforce
  have "WTransition (overdue_transition c) \<in> set ws" using "2.prems" by simp
  from step_write[OF this, of db env undefined] have first: "inv_step (db, ws) (db', ws)"
    by (simp add: run_write_def t)
  have "inv_steps (db', ws) (snd (overdue_loop env (c # cs) marked errors db), ws)"
    using 2 t by (cases res; simp split: core_error.splits)
  with first show ?case by (rule converse_rtranclp_into_rtranclp)
qed

lemma asks_all:
  assumes "\<And>w. w \<in> set vs \<Longrightarrow> asks db w"
  shows "inv_steps (db, ws) (db, vs @ ws)"
  using assms
proof (induction vs)
  case (Cons v vs)
  then have "inv_steps (db, ws) (db, vs @ ws)" "inv_step (db, vs @ ws) (db, v # vs @ ws)"
    by (auto intro: step_ask)
  then show ?case by simp
qed simp

lemma overdue_sweep_runs: "runs_to db (snd (mark_overdue_by_system env now limit db))"
  unfolding runs_to_def
proof
  fix ws
  let ?cs = "list_overdue_candidates db now limit"
  let ?vs = "map (\<lambda>c. WTransition (overdue_transition c)) ?cs"
  have "inv_steps (db, ws) (db, ?vs @ ws)" by (rule asks_all) (auto intro: ask_overdue)
  moreover have "inv_steps (db, ?vs @ ws) (snd (overdue_loop env ?cs 0 0 db), ?vs @ ws)"
    by (rule overdue_loop_steps) simp
  moreover have "snd (mark_overdue_by_system env now limit db) = snd (overdue_loop env ?cs 0 0 db)"
    by (simp add: mark_overdue_by_system_def Let_def split: prod.splits)
  ultimately show "\<exists>ws'. inv_steps (db, ws) (snd (mark_overdue_by_system env now limit db), ws')"
    by (metis rtranclp_trans)
qed

section \<open>Reachable stores\<close>

definition world_ok :: "inv_db \<times> inv_write list \<Rightarrow> bool" where
  "world_ok s \<longleftrightarrow> inv_ok (fst s) \<and> (\<forall>w \<in> set (snd s). write_ok (fst s) w)"

lemma keeps_world: "world_ok (db, ws) \<Longrightarrow> (inv_ok db \<Longrightarrow> keeps db db') \<Longrightarrow> world_ok (db', ws) \<and> evolves db db'"
  using write_ok_evolves by (auto simp: world_ok_def keeps_def)

lemma step_ok:
  assumes "inv_step s s'" "world_ok s"
  shows "world_ok s' \<and> evolves (fst s) (fst s')"
  using assms
proof (induction rule: inv_step.induct)
  case (step_ask db w ws)
  then show ?case using asks_ok by (auto simp: world_ok_def)
next
  case (step_write w ws db env x)
  then have "write_ok db w" by (simp add: world_ok_def)
  with keeps_world[OF step_write(2) write_keeps] show ?case by simp
next
  case (step_create db ws env x input)
  from keeps_world[OF this create_keeps] show ?case by simp
next
  case (step_sync d db ws env)
  from keeps_world[OF step_sync(3) upsert_keeps] step_sync(1,2) show ?case by simp
next
  case (step_void_note db ws env r e)
  from keeps_world[OF this void_note_keeps] show ?case by simp
next
  case (step_memo db ws r e memo)
  from keeps_world[OF this memo_keeps] show ?case by simp
next
  case (step_number db ws env r year)
  from keeps_world[OF this number_step_keeps] show ?case by simp
qed

lemma reachable_ok:
  assumes "inv_steps s s'" "world_ok s"
  shows "world_ok s'"
  using assms by (induction rule: rtranclp_induct) (auto dest: step_ok)

lemma empty_ok: "world_ok (empty_inv_db, [])"
  by (simp add: world_ok_def inv_ok_def empty_inv_db_def)

text \<open>
  C40 (invariant).  Start from an empty store and let any requests interleave: admin requests whose
  reading half and write are separate steps, the overdue sweep, invoices synchronised from a
  provider, Stripe credit notes created, voided and edited.  In every store reached, the cached
  columns of every invoice are exact: \<open>amount_refunded\<close> is the sum of its active credit notes,
  \<open>amount_remaining\<close> is the total less that, and neither is negative.  Every credit note belongs to
  an invoice, and a credit note of a self-managed invoice is active and its invoice is paid, so no
  self-managed invoice is voided under a refund.  The next step loses no invoice, keeps
  its provider, and moves a self-managed invoice along the validated status machine or not at all;
  in particular a paid or void one stays as it is, whatever write was pending.
\<close>

theorem invoice_books_balance:
  assumes "inv_steps (empty_inv_db, []) (db, ws)"
  shows "(\<forall>x \<in> set (iv_invoices db).
            inv_amount_refunded x = active_refunds (iv_notes db) (inv_id x) \<and>
            inv_amount_remaining x = inv_total x - inv_amount_refunded x \<and>
            0 \<le> inv_amount_refunded x \<and> 0 \<le> inv_amount_remaining x) \<and>
         (\<forall>n \<in> set (iv_notes db). \<exists>x \<in> set (iv_invoices db). inv_id x = cn_invoice_id n \<and>
            (inv_provider x = InvManual \<longrightarrow> cn_status n = NoteActive \<and> inv_status x = InvPaid)) \<and>
         (\<forall>db' ws'. inv_step (db, ws) (db', ws') \<longrightarrow>
            (\<forall>x \<in> set (iv_invoices db). \<exists>y \<in> set (iv_invoices db'). inv_id y = inv_id x \<and>
               inv_provider y = inv_provider x \<and>
               (inv_provider x = InvManual \<longrightarrow>
                  inv_status y = inv_status x \<or> status_edge (inv_status x) (inv_status y))))"
proof (intro conjI)
  have w: "world_ok (db, ws)" by (rule reachable_ok[OF assms empty_ok])
  then have ok: "inv_ok db" by (simp add: world_ok_def)
  show "\<forall>x \<in> set (iv_invoices db).
            inv_amount_refunded x = active_refunds (iv_notes db) (inv_id x) \<and>
            inv_amount_remaining x = inv_total x - inv_amount_refunded x \<and>
            0 \<le> inv_amount_refunded x \<and> 0 \<le> inv_amount_remaining x"
    using ok unfolding inv_ok_def row_ok_def books_def by blast
  show "\<forall>n \<in> set (iv_notes db). \<exists>x \<in> set (iv_invoices db). inv_id x = cn_invoice_id n \<and>
            (inv_provider x = InvManual \<longrightarrow> cn_status n = NoteActive \<and> inv_status x = InvPaid)"
    using ok unfolding inv_ok_def note_ok_def self_managed_def by blast
  show "\<forall>db' ws'. inv_step (db, ws) (db', ws') \<longrightarrow>
            (\<forall>x \<in> set (iv_invoices db). \<exists>y \<in> set (iv_invoices db'). inv_id y = inv_id x \<and>
               inv_provider y = inv_provider x \<and>
               (inv_provider x = InvManual \<longrightarrow>
                  inv_status y = inv_status x \<or> status_edge (inv_status x) (inv_status y)))"
    using step_ok[OF _ w] unfolding evolves_def follows_def self_managed_def by fastforce
qed


section \<open>A run\<close>

text \<open>An invoice of two seats at 500 is created, issued, paid, and 300 of it refunded.\<close>

definition demo_inv_env :: "nat \<Rightarrow> env" where
  "demo_inv_env t = \<lparr>env_uuid = (\<lambda>n. 100 + n), env_uuid_str = show_nat, env_now = days (int t), env_sql_now = days (int t)\<rparr>"

definition demo_inv_ext :: inv_ext where
  "demo_inv_ext =
     \<lparr>ix_f64_parse = map_of [(''1'', 1), (''2'', 2), (''2.000'', 2)], ix_f64_is_finite = (\<lambda>_. True),
      ix_f64_le_zero = (\<lambda>q. q = 0), ix_f64_mul_round = (\<lambda>q p. int q * p),
      ix_f64_percent_round = (\<lambda>n q. n * int q div 100), ix_numeric4 = map_of [(''10'', ''10.0000'')],
      ix_numeric3 = map_of [(''1'', ''1.000''), (''2'', ''2.000'')], ix_year = (\<lambda>_. 2026),
      ix_parse_rfc3339 = (\<lambda>_. None)\<rparr>"

definition demo_new_invoice :: new_invoice where
  "demo_new_invoice =
     \<lparr>ni_realm_id = ''r1'', ni_source = AdminManual, ni_account_id = 1, ni_applicant_user_id = None,
      ni_subscription_id = Some 7, ni_payment_attempt_id = None, ni_currency = ''usd'',
      ni_line_items = [\<lparr>nli_name = ''seat'', nli_description = None, nli_quantity = ''2'', nli_unit_price = 500\<rparr>],
      ni_actor_user_id = Some 9,
      ni_buyer = no_party\<lparr>pty_name := Some ''Buyer'', pty_email := Some ''b@example.org''\<rparr>,
      ni_seller = no_party\<lparr>pty_name := Some ''Seller''\<rparr>, ni_adjustments = no_adjustments,
      ni_due_date = 30, ni_payment_terms = None, ni_notes = None\<rparr>"

definition demo_created :: inv_db where
  "demo_created = snd (create_invoice (demo_inv_env 1) demo_inv_ext demo_new_invoice empty_inv_db)"

definition demo_issued :: inv_db where
  "demo_issued = snd (issue_invoice (demo_inv_env 2) ''r1'' 100 (Some 9) None demo_created)"

definition demo_paid :: inv_db where
  "demo_paid = snd (mark_paid (demo_inv_env 3) demo_inv_ext ''r1'' 100 (Some 9) None demo_issued)"

definition demo_refunded :: inv_db where
  "demo_refunded = snd (create_credit_note (demo_inv_env 4) ''r1'' 100 9 300 ''goodwill'' demo_paid)"

lemma demo_refunded_rows:
  "map (\<lambda>x. (inv_id x, inv_number x, inv_status x, inv_total x, inv_amount_refunded x, inv_amount_remaining x))
     (iv_invoices demo_refunded) = [(100, ''INV-2026-0001'', InvPaid, 1000, 300, 700)]"
  by code_simp

lemma demo_refunded_reached: "\<exists>ws. inv_steps (empty_inv_db, []) (demo_refunded, ws)"
proof -
  have "runs_to empty_inv_db demo_created" unfolding demo_created_def by (rule requests_run)
  also have "runs_to demo_created demo_issued" unfolding demo_issued_def by (rule requests_run)
  also (runs_to_trans) have "runs_to demo_issued demo_paid" unfolding demo_paid_def by (rule requests_run)
  also (runs_to_trans) have "runs_to demo_paid demo_refunded" unfolding demo_refunded_def by (rule requests_run)
  finally (runs_to_trans) have "runs_to empty_inv_db demo_refunded" .
  then show ?thesis by (simp add: runs_to_def)
qed

theorem invoice_books_balance_witness:
  "\<exists>ws. inv_steps (empty_inv_db, []) (demo_refunded, ws) \<and> active_refunds (iv_notes demo_refunded) 100 = 300"
proof -
  from demo_refunded_reached obtain ws where r: "inv_steps (empty_inv_db, []) (demo_refunded, ws)" ..
  from demo_refunded_rows obtain x where x: "iv_invoices demo_refunded = [x]" "inv_id x = 100" "inv_amount_refunded x = 300"
    by auto
  with invoice_books_balance[OF r] have "active_refunds (iv_notes demo_refunded) 100 = 300" by simp
  with r show ?thesis by blast
qed

section \<open>What the code does not guard\<close>

text \<open>
  \<open>NUMERIC(12,4)\<close> gives a fixed discount of 10 back as \<open>10.0000\<close>, which \<open>parse::<i64>\<close> refuses: a
  draft with a fixed adjustment cannot be updated unless the value is sent again.
\<close>

definition demo_discounted :: new_invoice where
  "demo_discounted = demo_new_invoice\<lparr>ni_adjustments := no_adjustments\<lparr>adj_discount_mode := Some AdjFixed,
     adj_discount_value := Some ''10''\<rparr>\<rparr>"

definition demo_note_update :: update_invoice_draft where
  "demo_note_update = \<lparr>ud_realm_id = ''r1'', ud_invoice_id = 100, ud_actor_user_id = Some 9, ud_buyer = no_party,
     ud_seller = no_party, ud_line_items = None, ud_adjustments = no_adjustments, ud_due_date = None,
     ud_payment_terms = None, ud_notes = Some ''thanks''\<rparr>"

lemma fixed_adjustment_blocks_updates:
  "fst (update_invoice (demo_inv_env 2) demo_inv_ext demo_note_update
     (snd (create_invoice (demo_inv_env 1) demo_inv_ext demo_discounted empty_inv_db)))
   = Inl (BadRequest ''Invalid fixed value: 10.0000'')"
  by code_simp

text \<open>
  The coverage check of a synchronised invoice is skipped when the provider's row exists: it can take
  on the subscription of a manual invoice made in the meantime, and both then cover it.
\<close>

definition demo_stripe_data :: "uuid option \<Rightarrow> external_invoice_data" where
  "demo_stripe_data sub =
     \<lparr>xd_realm_id = ''r1'', xd_provider = InvStripe, xd_payment_provider = Some ''stripe'',
      xd_external_invoice_id = Some ''in_1'', xd_external_order_id = None, xd_info = no_external_info,
      xd_account_id = None, xd_applicant_user_id = None, xd_billing_name = None, xd_billing_email = None,
      xd_billing_phone = None, xd_billing_address = None, xd_currency = ''usd'', xd_total = 1000,
      xd_status = InvPaid, xd_subscription_id = sub, xd_payment_attempt_id = None\<rparr>"

lemma synced_invoice_joins_manual_one:
  "let db1 = snd (upsert_external_invoice (demo_inv_env 1) (demo_stripe_data None) empty_inv_db);
       db2 = snd (create_invoice (demo_inv_env 2) demo_inv_ext demo_new_invoice db1);
       db3 = snd (upsert_external_invoice (demo_inv_env 3) (demo_stripe_data (Some 7)) db2)
   in map (\<lambda>x. (inv_source x, inv_subscription_id x)) (iv_invoices db3) =
        [(ExternalSync, Some 7), (AdminManual, Some 7)]"
  by code_simp

text \<open>
  The table admits a negative total of a synchronised invoice but not the remaining amount that the
  insert copies from it.
\<close>

lemma negative_total_refused:
  "fst (upsert_external_invoice (demo_inv_env 1) ((demo_stripe_data None)\<lparr>xd_total := -5\<rparr>) empty_inv_db) =
     Inl (DatabaseError ''Failed to upsert external invoice: invoice_check'')"
  by code_simp

end
