(* ===== verification/Spec2Isabelle.thy ===== *)
theory Spec2Isabelle
  imports PointsConsumeProps PointsGrant PointsRevokeProps PointsExpiry PaymentAttemptProps IdempotencyProps
    QuotaViewProps DistributionSelection SchedulerProps SubscriptionProps PurchaseProps InvoiceProps
begin

text \<open>
  \<^bold>\<open>Herald: verification of the points ledger and the billing core.\<close>

  Herald (\<open>src/backend\<close>, Rust) is an identity and billing server.  Its billing core sells
  entitlement mappings: a purchase is a payment attempt; when the attempt succeeds it is fulfilled
  by distributing points, quota windows, subscriptions and roles; clients then consume points;
  refunds, cancellations and expiry take points back; and invoices with credit notes document the
  payments.  All state is in PostgreSQL tables (idempotency keys are also in Redis), every operation is
  a transaction, and webhooks, requests and batch jobs interleave.  The development models these
  operations from \<open>domain/src\<close>, \<open>infra/src\<close> and, for invoices, \<open>api-billing/src\<close>.

  \<^bold>\<open>Conventions.\<close>  A table is the list of its rows and a store is a record of tables; a transaction
  is a function from a store to an error or a result with the new store, and on an error the store
  is the old one.  Primary keys, unique indexes and check constraints of
  \<open>app/migrations\<close> are tests of the inserts and updates; what fails in the database is an error
  value here.  \<open>Result<T, CoreError>\<close> is \<open>core_error + 'a\<close>.  An \<open>i64\<close> is an integer: checked operations
  test the range, unchecked ones wrap around, as in a release build.  Instants are microseconds.  What comes from
  outside is an argument: \<open>env\<close> has the stream of new identifiers, their text, the program's clock and
  the database's; \<open>ext\<close> parses identifiers, adds calendar months and formats instants;
  \<open>json_codec\<close> is the serialiser of stored results; \<open>inv_ext\<close> has the calendar, PostgreSQL's
  \<open>NUMERIC\<close> texts and the arithmetic on \<open>f64\<close>.  Theorems hold for every such argument; where one
  needs a property of it, that is a named hypothesis and the witness instantiates it.
  Loops over rows are structural recursions or \<open>try_fold\<close>; the loops of the code that need not end
  (the retry after a conflict in \<open>execute_distribution_event_atomic\<close>, the batched sweep of quota
  entitlements) are \<open>partial_function\<close>s into \<open>option\<close>, and that they return is C32 and part of C34 and C35.

  \<^bold>\<open>Theories.\<close>
  \<^item> \<open>Prelude\<close>, \<open>CoreErrors\<close>: machine integers, results and their loops, decimal texts, enum texts
    (locale \<open>string_enum\<close>), tables, ordered maps; the error type.
  \<^item> \<open>PointsEntities\<close>, \<open>PointsTables\<close>, \<open>PointsInvariant\<close>: the points data model
    (\<open>points/entities.rs\<close>), the row operations of \<open>infra/src/points/postgres_repository.rs\<close>, and the
    well-formedness that every operation keeps.
  \<^item> \<open>PointsConsume\<close> with \<open>PointsConsumeCorrect\<close>, \<open>PointsConsumeProgress\<close>, \<open>PointsConsumeLedgers\<close>
    and \<open>PointsConsumeProps\<close>: \<open>consume_points_atomic\<close> conserves points (C1), succeeds exactly when there
    is enough (C2), respects the rolling windows (C3), draws in expiry order (C4), is idempotent (C5),
    and its planner is the greedy allocation (C6).
  \<^item> \<open>PointsGrant\<close> (C7 to C10), \<open>PointsRevoke\<close> and \<open>PointsRevokeProps\<close> (C11 to C14), \<open>PointsExpiry\<close>
    (C15): grants and recharges, the four revocations with proportional refunds, the expiry scan.
  \<^item> \<open>PaymentAttempt\<close>, \<open>PaymentAttemptProps\<close> (C16 to C21): the attempts' status machine under
    concurrent guarded writes (step relation and rule induction), one-time roles, renewals, the
    expiry sweep, the rule snapshot; the service is a client of the locale \<open>attempt_store\<close>.
  \<^item> \<open>Idempotency\<close>, \<open>IdempotencyProps\<close> (C22 to C25): the Redis store and the service over it; of racing
    requests at most one executes per recorded failure (locale \<open>one_shot\<close>).
  \<^item> \<open>QuotaView\<close>, \<open>QuotaViewProps\<close> (C26, C27): the window views and balances agree with what a consume
    may spend.
  \<^item> \<open>DistributionRules\<close>, \<open>Distribution\<close>, \<open>DistributionExec\<close>, \<open>DistributionRulesProps\<close> (C28 to C30),
    \<open>DistributionStore\<close>, \<open>DistributionRun\<close>, \<open>DistributionProps\<close> (C31, C32), \<open>DistributionSelection\<close>
    (C33): rules and their stored form, event keys, the executor with its retries and replays (locale
    \<open>event_work\<close>), and which rules an event fires.
  \<^item> \<open>GrantScheduler\<close>, \<open>SchedulePeriods\<close>, \<open>SchedulerProps\<close> (C34 to C36): the job that realises the periods of
    free grants and the same work on the read path, the quota sweep, registration; every
    store reached by these operations in any order is sound.
  \<^item> \<open>Shop\<close>, \<open>SubscriptionService\<close>, \<open>SubscriptionProps\<close> (C37, C38): subscriptions, paid roles, and
    renewal, upgrade, downgrade and cancellation.
  \<^item> \<open>Fulfillment\<close>, \<open>PurchaseProps\<close> (C39): attempt preparation and completion for the three billing types;
    a redelivered completion grants nothing.  Here the components meet: attempts, captured rules,
    the distribution executor, roles and subscriptions.
  \<^item> \<open>Invoice\<close>, \<open>InvoiceStore\<close>, \<open>InvoiceHandlers\<close>, \<open>InvoiceProps\<close> (C40): invoices and credit notes under
    interleaved admin requests, the overdue sweep, provider synchronisation and Stripe events; the cached refund
    columns are exact and self-managed invoices stay on their status machine.
  \<^item> \<open>PointsDemo\<close>: the concrete store of the witnesses.

  \<^bold>\<open>What the model showed.\<close>  Lemmas beside the properties evaluate cases in which the code does not do what its
  comments promise, among them \<open>consume_replay_reorders\<close>, \<open>redelivery_grants_for_disabled_mapping\<close>,
  \<open>fixed_adjustment_blocks_updates\<close> and \<open>synced_invoice_joins_manual_one\<close>.

  \<^bold>\<open>Not modelled.\<close>  The parsing, signatures and routing of payment webhooks and the HTTP layers around the
  services (they reject requests or pass parsed values on); the clients of Stripe, Creem, Apple, Google and
  WeChat (third-party services); list, statistics and report queries; subscription synchronisation and
  mapping administration; seller configuration, invoice policy and PDF rendering; authentication,
  OAuth, passkeys and one-time passwords (cryptographic libraries outside the repository); users, permissions, realms,
  organisations, client applications and audit; the worker's timers; the frontend and the
  SDKs.  Foreign keys to tables of these parts are taken to hold.  Transactions are atomic steps where the
  code locks what it decides on; where it reads first and writes later, the two are separate steps.
\<close>

end
